theory Spec2Isabelle
  imports Complex_Main
begin

section \<open>Angular grid of \<open>RadBoundaryVariable\<close> (bvals\_rad.cpp)\<close>

text \<open>
  The constructor of \<open>RadBoundaryVariable\<close> builds the polar (\<open>zeta\<close>) and azimuthal
  (\<open>psi\<close>) angular grids, the table of unit directions \<open>nh_g\<close> and the reflecting and
  polar remapping tables.

  Conventions of the embedding.
  \<^item> \<open>Real\<close> is modelled by the type \<open>real\<close>: arithmetic is exact. Where the source
    can produce a value that is not a number (a quotient by zero fed to \<open>std::acos\<close>, or an
    argument of \<open>std::acos\<close> outside \<open>[-1, 1]\<close>), the model uses \<open>real option\<close> and
    \<open>None\<close> stands for NaN.
  \<^item> The macro \<open>NGHOST_RAD\<close> (angular ghost width) and \<open>NGHOST\<close> (spatial ghost width)
    are defined outside the file; they are parameters, written \<open>G\<close> and \<open>NG\<close>.
  \<^item> A one-dimensional \<open>AthenaArray<Real>\<close> is a \<open>real list\<close>; \<open>NewAthenaArray\<close>
    zero-initialises, hence \<open>replicate n 0\<close>.
  \<^item> Loops \<open>for (l = a; l <= b; ++l)\<close> are folds over \<open>[a..<b+1]\<close>, the loop body is a
    step function on the array.
\<close>

subsection \<open>Index bounds\<close>

definition zs :: "nat \<Rightarrow> nat" where
  "zs G = G"

definition ze :: "nat \<Rightarrow> nat \<Rightarrow> nat" where
  "ze nzeta G = nzeta + G - 1"

definition ps :: "nat \<Rightarrow> nat" where
  "ps G = G"

definition pe :: "nat \<Rightarrow> nat \<Rightarrow> nat" where
  "pe npsi G = npsi + G - 1"

definition nang :: "nat \<Rightarrow> nat \<Rightarrow> nat \<Rightarrow> nat" where
  "nang nzeta npsi G = (nzeta + 2 * G) * (npsi + 2 * G)"

subsection \<open>Polar angles, equally spaced in cosine\<close>

definition dczeta :: "nat \<Rightarrow> real" where
  "dczeta nzeta = - 2 / real nzeta"

text \<open>Body of the loop over the northern active faces (it also sets the southern mirror).\<close>

definition zetaf_active :: "nat \<Rightarrow> nat \<Rightarrow> nat \<Rightarrow> real list \<Rightarrow> real list" where
  "zetaf_active nzeta G l zf =
     (let czeta = 1 + real (l - G) * dczeta nzeta;
          zeta = arccos czeta;
          zf1 = zf[l := zeta]
      in zf1[ze nzeta G + G + 1 - l := pi - zeta])"

text \<open>Body of the loop over the ghost faces: two assignments, in the source's order.\<close>

definition zetaf_ghost :: "nat \<Rightarrow> nat \<Rightarrow> nat \<Rightarrow> real list \<Rightarrow> real list" where
  "zetaf_ghost nzeta G l zf =
     (let zf1 = zf[l := - (zf ! (2 * G - l))]
      in zf1[ze nzeta G + G + 1 - l := 2 * pi - zf1 ! (nzeta + l)])"

text \<open>The active faces: both poles, the loop over the northern faces, and the equator.\<close>

definition zetaf_interior :: "nat \<Rightarrow> nat \<Rightarrow> real list" where
  "zetaf_interior nzeta G =
     (let zf0 = replicate (nzeta + 2 * G + 1) 0;
          zf1 = zf0[zs G := 0];
          zf2 = zf1[ze nzeta G + 1 := pi];
          zf3 = fold (zetaf_active nzeta G) [zs G + 1 ..< (nzeta - 1) div 2 + G + 1] zf2
      in (if nzeta mod 2 = 0 then zf3[nzeta div 2 + G := pi / 2] else zf3))"

text \<open>The whole face array: the active faces, then the loop over the ghost faces.\<close>

definition zetaf :: "nat \<Rightarrow> nat \<Rightarrow> real list" where
  "zetaf nzeta G =
     fold (zetaf_ghost nzeta G) [zs G - G ..< zs G] (zetaf_interior nzeta G)"

text \<open>
  The closed form of the volume-averaged polar angle between two faces. The quotient is the
  code's quotient wherever the divisor is not zero; two consecutive faces with equal
  cosines make the code's quotient infinite or NaN, which this definition does not
  represent.
\<close>

definition zeta_vol :: "real \<Rightarrow> real \<Rightarrow> real" where
  "zeta_vol zf1 zf2 =
     (zf2 * cos zf2 - sin zf2 - zf1 * cos zf1 + sin zf1) / (cos zf2 - cos zf1)"

definition zetav_step :: "real list \<Rightarrow> nat \<Rightarrow> real list \<Rightarrow> real list" where
  "zetav_step zf l zv = zv[l := zeta_vol (zf ! l) (zf ! (l + 1))]"

definition dzetaf_step :: "real list \<Rightarrow> nat \<Rightarrow> real list \<Rightarrow> real list" where
  "dzetaf_step zf l dz = dz[l := zf ! (l + 1) - zf ! l]"

definition zetav :: "nat \<Rightarrow> nat \<Rightarrow> real list" where
  "zetav nzeta G =
     fold (zetav_step (zetaf nzeta G)) [zs G - G ..< ze nzeta G + G + 1]
       (replicate (nzeta + 2 * G) 0)"

definition dzetaf :: "nat \<Rightarrow> nat \<Rightarrow> real list" where
  "dzetaf nzeta G =
     fold (dzetaf_step (zetaf nzeta G)) [zs G - G ..< ze nzeta G + G + 1]
       (replicate (nzeta + 2 * G) 0)"

subsection \<open>Azimuthal angles, equally spaced\<close>

definition dpsi :: "nat \<Rightarrow> real" where
  "dpsi npsi = 2 * pi / real npsi"

definition psif_active :: "nat \<Rightarrow> nat \<Rightarrow> nat \<Rightarrow> real list \<Rightarrow> real list" where
  "psif_active npsi G m pf = pf[m := real (m - G) * dpsi npsi]"

definition psif_ghost :: "nat \<Rightarrow> nat \<Rightarrow> nat \<Rightarrow> real list \<Rightarrow> real list" where
  "psif_ghost npsi G m pf =
     (let pf1 = pf[m := pf ! (npsi + m) - 2 * pi]
      in pf1[pe npsi G + G + 1 - m := pf1 ! (2 * G - m) + 2 * pi])"

text \<open>The active faces: the origin twice (as \<open>0\<close> and as \<open>2 pi\<close>) and the loop between.\<close>

definition psif_interior :: "nat \<Rightarrow> nat \<Rightarrow> real list" where
  "psif_interior npsi G =
     (let pf0 = replicate (npsi + 2 * G + 1) 0;
          pf1 = pf0[ps G := 0];
          pf2 = pf1[pe npsi G + 1 := 2 * pi]
      in fold (psif_active npsi G) [ps G + 1 ..< pe npsi G + 1] pf2)"

definition psif :: "nat \<Rightarrow> nat \<Rightarrow> real list" where
  "psif npsi G =
     fold (psif_ghost npsi G) [ps G - G ..< ps G] (psif_interior npsi G)"

definition psiv_step :: "real list \<Rightarrow> nat \<Rightarrow> real list \<Rightarrow> real list" where
  "psiv_step pf m pv = pv[m := 0.5 * (pf ! m + pf ! (m + 1))]"

definition dpsif_step :: "real list \<Rightarrow> nat \<Rightarrow> real list \<Rightarrow> real list" where
  "dpsif_step pf m dp = dp[m := pf ! (m + 1) - pf ! m]"

definition psiv :: "nat \<Rightarrow> nat \<Rightarrow> real list" where
  "psiv npsi G =
     fold (psiv_step (psif npsi G)) [ps G - G ..< pe npsi G + G + 1]
       (replicate (npsi + 2 * G) 0)"

definition dpsif :: "nat \<Rightarrow> nat \<Rightarrow> real list" where
  "dpsif npsi G =
     fold (dpsif_step (psif npsi G)) [ps G - G ..< pe npsi G + G + 1]
       (replicate (npsi + 2 * G) 0)"

section \<open>Arrays, errors and the angle index\<close>

text \<open>
  Reads and writes outside an allocation are undefined behaviour in the source; the model
  makes them a value: \<open>Inl (OutOfBounds off)\<close>. These are the only errors of the model,
  the constructor itself has no \<open>throw\<close> and no error return.
\<close>

datatype error = OutOfBounds int

definition bindE :: "error + 'a \<Rightarrow> ('a \<Rightarrow> error + 'b) \<Rightarrow> error + 'b" where
  "bindE r f = (case r of Inl e \<Rightarrow> Inl e | Inr x \<Rightarrow> f x)"

text \<open>A loop whose body may fail: the first failure ends the loop.\<close>

fun foldE :: "('a \<Rightarrow> 's \<Rightarrow> error + 's) \<Rightarrow> 'a list \<Rightarrow> 's \<Rightarrow> error + 's" where
  "foldE f [] s = Inr s"
| "foldE f (x # xs) s = (case f x s of Inl e \<Rightarrow> Inl e | Inr s' \<Rightarrow> foldE f xs s')"

definition rd :: "real list \<Rightarrow> int \<Rightarrow> error + real" where
  "rd xs off = (if 0 \<le> off \<and> off < int (length xs) then Inr (xs ! nat off)
                else Inl (OutOfBounds off))"

definition wr :: "real list \<Rightarrow> int \<Rightarrow> real \<Rightarrow> error + real list" where
  "wr xs off v = (if 0 \<le> off \<and> off < int (length xs) then Inr (xs[nat off := v])
                  else Inl (OutOfBounds off))"

text \<open>
  The container \<open>AthenaArray\<close> is declared in athena\_arrays.hpp, which is not among the
  sources. Its accessors address one flat allocation, last index fastest: for an array
  allocated with extents \<open>(nx2, nx1)\<close> the access \<open>(n, i)\<close> is the offset \<open>i + nx1 * n\<close>,
  and the three-index access \<open>(n, j, i)\<close> is the offset \<open>i + nx1 * (j + nx2 * n)\<close>.
\<close>

definition ix2 :: "nat \<Rightarrow> int \<Rightarrow> int \<Rightarrow> int" where
  "ix2 nx1 n i = i + int nx1 * n"

definition ix3 :: "nat \<Rightarrow> nat \<Rightarrow> int \<Rightarrow> int \<Rightarrow> int \<Rightarrow> int" where
  "ix3 nx2 nx1 n j i = i + int nx1 * (j + int nx2 * n)"

text \<open>
  Modelled from the spec: \<open>AngleInd\<close> is declared in bvals\_rad.hpp, which is not among the
  sources. The spec gives \<open>AngleIndex(l, m) = (m - m_min) + (l - l_min) * psi_extent\<close>; the
  padded ranges start at \<open>l_min = m_min = 0\<close> and \<open>psi_extent = npsi + 2 * NGHOST_RAD\<close>.
\<close>

definition AngleInd :: "nat \<Rightarrow> nat \<Rightarrow> int \<Rightarrow> int \<Rightarrow> int" where
  "AngleInd npsi G l m = m + l * int (npsi + 2 * G)"

section \<open>Unit directions in the orthonormal frame\<close>

text \<open>\<open>nh_g(n, lm) *= c\<close>, at a flat offset: one read and one write.\<close>

definition scale_at :: "real list \<Rightarrow> int \<Rightarrow> real \<Rightarrow> error + real list" where
  "scale_at xs off c = bindE (rd xs off) (\<lambda>v. wr xs off (v * c))"

text \<open>
  The body of the double loop over \<open>l\<close> and \<open>m\<close>. The array \<open>nh_g\<close> is allocated with extents
  \<open>(4, nang)\<close>. The four assignments use the two-index access \<open>nh_g(n, lm)\<close>; the two
  statements guarded by \<open>nzeta == 1\<close> use the three-index access \<open>nh_g(1, l, m)\<close> and
  \<open>nh_g(2, l, m)\<close>, exactly as written in the source.
\<close>

definition nh_g_cell ::
  "nat \<Rightarrow> nat \<Rightarrow> nat \<Rightarrow> nat \<Rightarrow> nat \<Rightarrow> real list \<Rightarrow> error + real list" where
  "nh_g_cell nzeta npsi G l m nh =
     (let N = nang nzeta npsi G;
          lm = AngleInd npsi G (int l) (int m);
          zv = zetav nzeta G ! l;
          pv = psiv npsi G ! m
      in bindE (wr nh (ix2 N 0 lm) 1) (\<lambda>nh.
         bindE (wr nh (ix2 N 1 lm) (sin zv * cos pv)) (\<lambda>nh.
         bindE (wr nh (ix2 N 2 lm) (sin zv * sin pv)) (\<lambda>nh.
         bindE (wr nh (ix2 N 3 lm) (cos zv)) (\<lambda>nh.
         if nzeta = 1 then
           bindE (scale_at nh (ix3 4 N 1 (int l) (int m)) 0.816496580927726) (\<lambda>nh.
           scale_at nh (ix3 4 N 2 (int l) (int m)) 0.816496580927726)
         else Inr nh)))))"

definition nh_g :: "nat \<Rightarrow> nat \<Rightarrow> nat \<Rightarrow> error + real list" where
  "nh_g nzeta npsi G =
     foldE (\<lambda>l. foldE (nh_g_cell nzeta npsi G l) [ps G - G ..< pe npsi G + G + 1])
       [zs G - G ..< ze nzeta G + G + 1]
       (replicate (4 * nang nzeta npsi G) 0)"

section \<open>One entry of a remapping table\<close>

text \<open>
  A \<open>4 \<times> 4\<close> array \<open>e(p, n)\<close> filled by \<open>Coordinates::Tetrad\<close> is a function of its two
  indices; all accesses to these arrays have constant bounds \<open>0 .. 3\<close>.
\<close>

type_synonym mat4 = "nat \<Rightarrow> nat \<Rightarrow> real"

definition zero4 :: mat4 where
  "zero4 = (\<lambda>p n. 0)"

text \<open>\<open>n_g[n] += e_g(p,n) * nh_g(p,lm_g)\<close> for \<open>p = 0 .. 3\<close>, from \<open>n_g[n] = 0\<close>.\<close>

definition n_g_of :: "mat4 \<Rightarrow> (nat \<Rightarrow> real) \<Rightarrow> nat \<Rightarrow> real" where
  "n_g_of eg nh n = fold (\<lambda>p acc. acc + eg p n * nh p) [0..<4] 0"

text \<open>
  \<open>n_a\<close> is a copy of \<open>n_g\<close> with the components listed in \<open>flips\<close> multiplied by \<open>-1.0\<close>:
  \<open>[1]\<close>, \<open>[2]\<close>, \<open>[3]\<close> for the faces normal to \<open>x1\<close>, \<open>x2\<close>, \<open>x3\<close>, and \<open>[2, 3]\<close> for both
  polar caps.
\<close>

definition n_a_of :: "nat list \<Rightarrow> (nat \<Rightarrow> real) \<Rightarrow> nat \<Rightarrow> real" where
  "n_a_of flips ng n = (if n \<in> set flips then ng n * (- 1) else ng n)"

text \<open>\<open>nh_a[n] += e_cov_a(n,p) * n_a[p]\<close>, then \<open>nh_a[0] *= -1.0\<close>.\<close>

definition nh_a_of :: "mat4 \<Rightarrow> (nat \<Rightarrow> real) \<Rightarrow> nat \<Rightarrow> real" where
  "nh_a_of ecova na n =
     (let s = fold (\<lambda>p acc. acc + ecova n p * na p) [0..<4] 0
      in if n = 0 then s * (- 1) else s)"

text \<open>
  \<open>std::acos(nh_a[3] / nh_a[0])\<close>. With a zero divisor the quotient is infinite or NaN, and
  \<open>std::acos\<close> of it is NaN; an argument outside \<open>[-1, 1]\<close> gives NaN as well. \<open>None\<close> is NaN.
\<close>

definition acos_quot :: "real \<Rightarrow> real \<Rightarrow> real option" where
  "acos_quot n3 n0 =
     (if n0 = 0 then None
      else if n3 / n0 < - 1 \<or> 1 < n3 / n0 then None
      else Some (arccos (n3 / n0)))"

text \<open>\<open>std::atan2(y, x)\<close> on finite arguments (signed zeros are not distinguished).\<close>

definition atan2 :: "real \<Rightarrow> real \<Rightarrow> real" where
  "atan2 y x =
     (if 0 < x then arctan (y / x)
      else if x < 0 then (if 0 \<le> y then arctan (y / x) + pi else arctan (y / x) - pi)
      else if 0 < y then pi / 2
      else if y < 0 then - (pi / 2)
      else 0)"

text \<open>\<open>psi_a += psi_a < 0.0 ? 2.0*PI : 0.0\<close>\<close>

definition psi_wrap :: "real \<Rightarrow> real" where
  "psi_wrap psi = psi + (if psi < 0 then 2 * pi else 0)"

text \<open>
  \<open>v > a\<close> where \<open>a\<close> may be NaN: every comparison with NaN is false. Numbers are compared
  exactly. An angle that is equal to a cell centre in exact arithmetic may round below it
  in double precision, and the search then stops one cell earlier; which of the two
  neighbouring cells is taken at such a tie is therefore outside this model.
\<close>

definition gt_nan :: "real \<Rightarrow> real option \<Rightarrow> bool" where
  "gt_nan v a = (case a of None \<Rightarrow> False | Some z \<Rightarrow> z < v)"

text \<open>
  The bracket search \<open>for (l_a = lo; l_a <= hi; ++l_a) { if (xs(l_a) > a) break; }\<close>; the
  result is the value of \<open>l_a\<close> after the loop, \<open>hi + 1\<close> when the loop runs to its end.
\<close>

function bracket :: "real list \<Rightarrow> real option \<Rightarrow> int \<Rightarrow> int \<Rightarrow> error + int" where
  "bracket xs a l hi =
     (if l \<le> hi then
        (case rd xs l of
           Inl e \<Rightarrow> Inl e
         | Inr v \<Rightarrow> if gt_nan v a then Inr l else bracket xs a (l + 1) hi)
      else Inr l)"
  by pat_completeness auto
termination
  by (relation "measure (\<lambda>(xs, a, l, hi). nat (hi + 1 - l))") auto

declare bracket.simps [simp del]

text \<open>\<open>(a - xs(l)) / dxs(l)\<close>, where \<open>a\<close> may be NaN; a zero divisor gives no finite number.\<close>

definition frac_of :: "real list \<Rightarrow> real list \<Rightarrow> real option \<Rightarrow> int \<Rightarrow> error + real option" where
  "frac_of xs dxs a l =
     bindE (rd xs l) (\<lambda>v.
     bindE (rd dxs l) (\<lambda>d.
     Inr (case a of None \<Rightarrow> None
          | Some z \<Rightarrow> if d = 0 then None else Some ((z - v) / d))))"

text \<open>The product of two factors that may be NaN.\<close>

definition mul_nan :: "real option \<Rightarrow> real option \<Rightarrow> real option" where
  "mul_nan x y = (case x of None \<Rightarrow> None | Some a \<Rightarrow> map_option (\<lambda>b. a * b) y)"

definition one_minus :: "real option \<Rightarrow> real option" where
  "one_minus x = map_option (\<lambda>a. 1 - a) x"

text \<open>The four target bins and the four weights stored for one source bin.\<close>

record RemapEntry =
  ind :: "int list"
  frac :: "real option list"

definition weights :: "real option \<Rightarrow> real option \<Rightarrow> real option list" where
  "weights frac_l frac_m =
     [mul_nan (one_minus frac_l) (one_minus frac_m),
      mul_nan (one_minus frac_l) frac_m,
      mul_nan frac_l (one_minus frac_m),
      mul_nan frac_l frac_m]"

definition targets :: "nat \<Rightarrow> nat \<Rightarrow> int \<Rightarrow> int \<Rightarrow> int list" where
  "targets npsi G l_a m_a =
     [AngleInd npsi G (l_a - 1) (m_a - 1),
      AngleInd npsi G (l_a - 1) m_a,
      AngleInd npsi G l_a (m_a - 1),
      AngleInd npsi G l_a m_a]"

text \<open>The transformed direction of a source bin and its two angles.\<close>

definition nh_a_vec :: "mat4 \<Rightarrow> mat4 \<Rightarrow> nat list \<Rightarrow> (nat \<Rightarrow> real) \<Rightarrow> nat \<Rightarrow> real" where
  "nh_a_vec eg ecova flips nh = nh_a_of ecova (n_a_of flips (n_g_of eg nh))"

definition zeta_a_of :: "(nat \<Rightarrow> real) \<Rightarrow> real option" where
  "zeta_a_of nha = acos_quot (nha 3) (nha 0)"

definition psi_a_of :: "(nat \<Rightarrow> real) \<Rightarrow> real" where
  "psi_a_of nha = psi_wrap (atan2 (nha 2) (nha 1))"

text \<open>
  From the two angles to the entry: both bracket searches, the four indices, the two
  fractions and the four weights.
\<close>

definition entry_of_angles :: "nat \<Rightarrow> nat \<Rightarrow> nat \<Rightarrow> real option \<Rightarrow> real \<Rightarrow> error + RemapEntry" where
  "entry_of_angles nzeta npsi G zeta_a psi_a =
     bindE (bracket (zetav nzeta G) zeta_a (int (zs G) - 1) (int (ze nzeta G) + 1)) (\<lambda>l_a.
     bindE (bracket (psiv npsi G) (Some psi_a) (int (ps G) - 1) (int (pe npsi G) + 1)) (\<lambda>m_a.
     bindE (frac_of (zetav nzeta G) (dzetaf nzeta G) zeta_a (l_a - 1)) (\<lambda>frac_l.
     bindE (frac_of (psiv npsi G) (dpsif npsi G) (Some psi_a) (m_a - 1)) (\<lambda>frac_m.
     Inr \<lparr>ind = targets npsi G l_a m_a, frac = weights frac_l frac_m\<rparr>))))"

text \<open>The body of the loop over \<open>lm_g\<close>, common to the eight transformations.\<close>

definition remap_entry ::
  "nat \<Rightarrow> nat \<Rightarrow> nat \<Rightarrow> mat4 \<Rightarrow> mat4 \<Rightarrow> nat list \<Rightarrow> (nat \<Rightarrow> real) \<Rightarrow> error + RemapEntry" where
  "remap_entry nzeta npsi G eg ecova flips nh =
     (let nha = nh_a_vec eg ecova flips nh
      in entry_of_angles nzeta npsi G (zeta_a_of nha) (psi_a_of nha))"

section \<open>The constructor: reflecting faces and polar caps\<close>

datatype BoundaryFace = inner_x1 | outer_x1 | inner_x2 | outer_x2 | inner_x3 | outer_x3

text \<open>
  Modelled from the spec: \<open>BoundaryFlag\<close> is declared in bvals\_interfaces.hpp, which is not
  among the sources. The spec lists the kinds of a boundary as reflecting, polar, periodic,
  inter-block and user; the constructor compares with \<open>reflect\<close> and \<open>polar\<close> only.
\<close>

datatype BoundaryFlag = block | periodic | reflect | polar | user

text \<open>
  What the constructor reads from the \<open>MeshBlock\<close>, its \<open>Coordinates\<close> and its
  \<open>BoundaryValues\<close>: the index bounds \<open>is, ie, js, je, ks, ke\<close> (here \<open>i_s\<close> \<dots> \<open>k_e\<close>), the
  cell centres, the tetrad provider and the boundary flags. \<open>Tetrad\<close> returns the pair
  \<open>(e, e_cov)\<close>; its third output \<open>omega\<close> is never read by the constructor.
\<close>

record MeshBlock =
  i_s :: int
  i_e :: int
  j_s :: int
  j_e :: int
  k_s :: int
  k_e :: int
  x1v :: "int \<Rightarrow> real"
  x2v :: "int \<Rightarrow> real"
  x3v :: "int \<Rightarrow> real"
  Tetrad :: "real \<Rightarrow> real \<Rightarrow> real \<Rightarrow> mat4 \<times> mat4"
  block_bcs :: "BoundaryFace \<Rightarrow> BoundaryFlag"

definition il :: "nat \<Rightarrow> MeshBlock \<Rightarrow> int" where
  "il NG mb = i_s mb - int NG"

definition iu :: "nat \<Rightarrow> MeshBlock \<Rightarrow> int" where
  "iu NG mb = i_e mb + int NG"

definition jl :: "nat \<Rightarrow> MeshBlock \<Rightarrow> int" where
  "jl NG mb = (if j_s mb = j_e mb then j_s mb else j_s mb - int NG)"

definition ju :: "nat \<Rightarrow> MeshBlock \<Rightarrow> int" where
  "ju NG mb = (if j_s mb = j_e mb then j_e mb else j_e mb + int NG)"

definition kl :: "nat \<Rightarrow> MeshBlock \<Rightarrow> int" where
  "kl NG mb = (if k_s mb = k_e mb then k_s mb else k_s mb - int NG)"

definition ku :: "nat \<Rightarrow> MeshBlock \<Rightarrow> int" where
  "ku NG mb = (if k_s mb = k_e mb then k_e mb else k_e mb + int NG)"

text \<open>
  The temporaries \<open>e_g, e_a, e_cov_g, e_cov_a\<close> are allocated once, before the first
  transformation, and live through all eight of them; \<open>NewAthenaArray\<close> zero-initialises.
\<close>

record temporaries =
  e_g :: mat4
  e_a :: mat4
  e_cov_g :: mat4
  e_cov_a :: mat4

definition tmp_init :: temporaries where
  "tmp_init = \<lparr>e_g = zero4, e_a = zero4, e_cov_g = zero4, e_cov_a = zero4\<rparr>"

text \<open>
  The two calls \<open>Tetrad(ghost, e_g, e_cov_g, omega_g)\<close> and \<open>Tetrad(active, e_a, e_cov_a,
  omega_a)\<close> of a reflecting face, and the single call \<open>Tetrad(x1, x2, x3, e_g, e_cov_g,
  omega_g)\<close> of a polar cap.
\<close>

definition tetrads_reflect ::
  "MeshBlock \<Rightarrow> real \<times> real \<times> real \<Rightarrow> real \<times> real \<times> real \<Rightarrow> temporaries \<Rightarrow> temporaries" where
  "tetrads_reflect mb xg xa tmp =
     (case xg of (g1, g2, g3) \<Rightarrow> case xa of (a1, a2, a3) \<Rightarrow>
        tmp\<lparr>e_g := fst (Tetrad mb g1 g2 g3), e_cov_g := snd (Tetrad mb g1 g2 g3),
            e_a := fst (Tetrad mb a1 a2 a3), e_cov_a := snd (Tetrad mb a1 a2 a3)\<rparr>)"

definition tetrads_polar ::
  "MeshBlock \<Rightarrow> real \<times> real \<times> real \<Rightarrow> temporaries \<Rightarrow> temporaries" where
  "tetrads_polar mb x tmp =
     (case x of (x1, x2, x3) \<Rightarrow>
        tmp\<lparr>e_g := fst (Tetrad mb x1 x2 x3), e_cov_g := snd (Tetrad mb x1 x2 x3)\<rparr>)"

text \<open>
  A table is the list of its assignments in the order of execution: the key is
  \<open>(lm_g, a, b, c)\<close>, the last four indices of the five-index arrays, and the entry holds
  the values stored at first index \<open>0 .. 3\<close> of the \<open>ind\<close> and of the \<open>frac\<close> array.
\<close>

type_synonym table = "((nat \<times> int \<times> int \<times> int) \<times> RemapEntry) list"

text \<open>
  The eight stores \<open>ind(n, lm_g, a, b, c) = \<dots>\<close> and \<open>frac(n, lm_g, a, b, c) = \<dots>\<close> of one
  entry. Each reflecting block allocates its two arrays with \<open>NewAthenaArray\<close> before its
  loops. The arrays \<open>polar_ind_north_\<close>, \<open>polar_frac_north_\<close>, \<open>polar_ind_south_\<close> and
  \<open>polar_frac_south_\<close> are allocated nowhere in the constructor (the polar blocks allocate
  \<open>polar_vals_\<close> only). In the container \<open>AthenaArray\<close> (see above; its header is not
  among the sources) an array that was never allocated has no elements and all its
  extents are \<open>0\<close>, so the flat offset of the access \<open>(n, lm_g, a, b, c)\<close> is its last index
  \<open>c\<close>: the first store of a polar block is outside every allocation. The extents of an allocated table (\<open>ncells1\<close>, \<open>ncells2\<close>, \<open>ncells3\<close> of
  the block) are not part of the model: a store to an allocated table is recorded as it
  is.
\<close>

definition store_entry ::
  "bool \<Rightarrow> nat \<times> int \<times> int \<times> int \<Rightarrow> RemapEntry \<Rightarrow> table \<Rightarrow> error + table" where
  "store_entry allocated key en tab =
     (if allocated then Inr (tab @ [(key, en)])
      else case key of (lm_g, a, b, c) \<Rightarrow> Inl (OutOfBounds c))"

text \<open>Column \<open>lm_g\<close> of \<open>nh_g\<close>: the reads \<open>nh_g(p, lm_g)\<close> for \<open>p = 0 .. 3\<close>.\<close>

definition nh_col :: "nat \<Rightarrow> real list \<Rightarrow> nat \<Rightarrow> nat \<Rightarrow> real" where
  "nh_col N nh lm_g p = nh ! nat (ix2 N (int p) (int lm_g))"

text \<open>
  The entry computed for the bin \<open>lm_g\<close> in the body of the loop over \<open>lm_g\<close>, textually the
  same in all eight transformations: it contracts with \<open>e_g\<close> and with \<open>e_cov_a\<close>.
\<close>

definition bin_entry ::
  "nat \<Rightarrow> nat \<Rightarrow> nat \<Rightarrow> real list \<Rightarrow> nat list \<Rightarrow> temporaries \<Rightarrow> nat \<Rightarrow> error + RemapEntry" where
  "bin_entry nzeta npsi G nh flips tmp lm_g =
     remap_entry nzeta npsi G (e_g tmp) (e_cov_a tmp) flips (nh_col (nang nzeta npsi G) nh lm_g)"

text \<open>
  The loop over \<open>lm_g\<close>: each entry is computed and then stored; \<open>allocated\<close> tells whether
  the arrays stored to were allocated.
\<close>

definition angle_loop ::
  "nat \<Rightarrow> nat \<Rightarrow> nat \<Rightarrow> real list \<Rightarrow> nat list \<Rightarrow> bool \<Rightarrow> int \<times> int \<times> int
    \<Rightarrow> temporaries \<times> table \<Rightarrow> error + temporaries \<times> table" where
  "angle_loop nzeta npsi G nh flips allocated key =
     foldE (\<lambda>lm_g st.
        bindE (bin_entry nzeta npsi G nh flips (fst st) lm_g) (\<lambda>en.
        bindE (store_entry allocated (lm_g, key) en (snd st)) (\<lambda>tab.
        Inr (fst st, tab))))
       [0 ..< nang nzeta npsi G]"

text \<open>
  One ghost cell of a reflecting face (its arrays were allocated) and one ghost cell of a
  polar cap (its arrays were not).
\<close>

definition cell_reflect ::
  "nat \<Rightarrow> nat \<Rightarrow> nat \<Rightarrow> MeshBlock \<Rightarrow> real list \<Rightarrow> nat list
    \<Rightarrow> real \<times> real \<times> real \<Rightarrow> real \<times> real \<times> real \<Rightarrow> int \<times> int \<times> int
    \<Rightarrow> temporaries \<times> table \<Rightarrow> error + temporaries \<times> table" where
  "cell_reflect nzeta npsi G mb nh flips xg xa key st =
     angle_loop nzeta npsi G nh flips True key (tetrads_reflect mb xg xa (fst st), snd st)"

definition cell_polar ::
  "nat \<Rightarrow> nat \<Rightarrow> nat \<Rightarrow> MeshBlock \<Rightarrow> real list
    \<Rightarrow> real \<times> real \<times> real \<Rightarrow> int \<times> int \<times> int
    \<Rightarrow> temporaries \<times> table \<Rightarrow> error + temporaries \<times> table" where
  "cell_polar nzeta npsi G mb nh x key st =
     angle_loop nzeta npsi G nh [2, 3] False key (tetrads_polar mb x (fst st), snd st)"

subsection \<open>The loops over the ghost cells of each face\<close>

definition loop_ix1 ::
  "nat \<Rightarrow> nat \<Rightarrow> nat \<Rightarrow> nat \<Rightarrow> MeshBlock \<Rightarrow> real list
    \<Rightarrow> temporaries \<times> table \<Rightarrow> error + temporaries \<times> table" where
  "loop_ix1 nzeta npsi G NG mb nh =
     foldE (\<lambda>k. foldE (\<lambda>j. foldE (\<lambda>di.
         cell_reflect nzeta npsi G mb nh [1]
           (x1v mb (i_s mb - int NG + di), x2v mb j, x3v mb k)
           (x1v mb (i_s mb + int NG - 1 - di), x2v mb j, x3v mb k)
           (k, j, di))
       [0 .. int NG - 1]) [jl NG mb .. ju NG mb]) [kl NG mb .. ku NG mb]"

definition loop_ox1 ::
  "nat \<Rightarrow> nat \<Rightarrow> nat \<Rightarrow> nat \<Rightarrow> MeshBlock \<Rightarrow> real list
    \<Rightarrow> temporaries \<times> table \<Rightarrow> error + temporaries \<times> table" where
  "loop_ox1 nzeta npsi G NG mb nh =
     foldE (\<lambda>k. foldE (\<lambda>j. foldE (\<lambda>di.
         cell_reflect nzeta npsi G mb nh [1]
           (x1v mb (i_e mb + 1 + di), x2v mb j, x3v mb k)
           (x1v mb (i_e mb - di), x2v mb j, x3v mb k)
           (k, j, di))
       [0 .. int NG - 1]) [jl NG mb .. ju NG mb]) [kl NG mb .. ku NG mb]"

definition loop_ix2 ::
  "nat \<Rightarrow> nat \<Rightarrow> nat \<Rightarrow> nat \<Rightarrow> MeshBlock \<Rightarrow> real list
    \<Rightarrow> temporaries \<times> table \<Rightarrow> error + temporaries \<times> table" where
  "loop_ix2 nzeta npsi G NG mb nh =
     foldE (\<lambda>k. foldE (\<lambda>dj. foldE (\<lambda>i.
         cell_reflect nzeta npsi G mb nh [2]
           (x1v mb i, x2v mb (j_s mb - int NG + dj), x3v mb k)
           (x1v mb i, x2v mb (j_s mb + int NG - 1 - dj), x3v mb k)
           (k, dj, i))
       [il NG mb .. iu NG mb]) [0 .. int NG - 1]) [kl NG mb .. ku NG mb]"

definition loop_ox2 ::
  "nat \<Rightarrow> nat \<Rightarrow> nat \<Rightarrow> nat \<Rightarrow> MeshBlock \<Rightarrow> real list
    \<Rightarrow> temporaries \<times> table \<Rightarrow> error + temporaries \<times> table" where
  "loop_ox2 nzeta npsi G NG mb nh =
     foldE (\<lambda>k. foldE (\<lambda>dj. foldE (\<lambda>i.
         cell_reflect nzeta npsi G mb nh [2]
           (x1v mb i, x2v mb (j_e mb + 1 + dj), x3v mb k)
           (x1v mb i, x2v mb (j_e mb - dj), x3v mb k)
           (k, dj, i))
       [il NG mb .. iu NG mb]) [0 .. int NG - 1]) [kl NG mb .. ku NG mb]"

definition loop_ix3 ::
  "nat \<Rightarrow> nat \<Rightarrow> nat \<Rightarrow> nat \<Rightarrow> MeshBlock \<Rightarrow> real list
    \<Rightarrow> temporaries \<times> table \<Rightarrow> error + temporaries \<times> table" where
  "loop_ix3 nzeta npsi G NG mb nh =
     foldE (\<lambda>dk. foldE (\<lambda>j. foldE (\<lambda>i.
         cell_reflect nzeta npsi G mb nh [3]
           (x1v mb i, x2v mb j, x3v mb (k_s mb - int NG + dk))
           (x1v mb i, x2v mb j, x3v mb (k_s mb + int NG - 1 - dk))
           (dk, j, i))
       [il NG mb .. iu NG mb]) [jl NG mb .. ju NG mb]) [0 .. int NG - 1]"

definition loop_ox3 ::
  "nat \<Rightarrow> nat \<Rightarrow> nat \<Rightarrow> nat \<Rightarrow> MeshBlock \<Rightarrow> real list
    \<Rightarrow> temporaries \<times> table \<Rightarrow> error + temporaries \<times> table" where
  "loop_ox3 nzeta npsi G NG mb nh =
     foldE (\<lambda>dk. foldE (\<lambda>j. foldE (\<lambda>i.
         cell_reflect nzeta npsi G mb nh [3]
           (x1v mb i, x2v mb j, x3v mb (k_e mb + 1 + dk))
           (x1v mb i, x2v mb j, x3v mb (k_e mb - dk))
           (dk, j, i))
       [il NG mb .. iu NG mb]) [jl NG mb .. ju NG mb]) [0 .. int NG - 1]"

definition loop_north ::
  "nat \<Rightarrow> nat \<Rightarrow> nat \<Rightarrow> nat \<Rightarrow> MeshBlock \<Rightarrow> real list
    \<Rightarrow> temporaries \<times> table \<Rightarrow> error + temporaries \<times> table" where
  "loop_north nzeta npsi G NG mb nh =
     foldE (\<lambda>k. foldE (\<lambda>dj. foldE (\<lambda>i.
         cell_polar nzeta npsi G mb nh
           (x1v mb i, x2v mb (j_s mb - int NG + dj), x3v mb k)
           (k, dj, i))
       [il NG mb .. iu NG mb]) [0 .. int NG - 1]) [kl NG mb .. ku NG mb]"

definition loop_south ::
  "nat \<Rightarrow> nat \<Rightarrow> nat \<Rightarrow> nat \<Rightarrow> MeshBlock \<Rightarrow> real list
    \<Rightarrow> temporaries \<times> table \<Rightarrow> error + temporaries \<times> table" where
  "loop_south nzeta npsi G NG mb nh =
     foldE (\<lambda>k. foldE (\<lambda>dj. foldE (\<lambda>i.
         cell_polar nzeta npsi G mb nh
           (x1v mb i, x2v mb (j_e mb + 1 + dj), x3v mb k)
           (k, dj, i))
       [il NG mb .. iu NG mb]) [0 .. int NG - 1]) [kl NG mb .. ku NG mb]"

subsection \<open>The constructor\<close>

text \<open>
  The tables a constructed object holds. A reflection table is \<open>None\<close> when its
  \<open>NewAthenaArray\<close> was not executed. A polar table is \<open>None\<close> when its transformation is
  not calculated; a polar transformation that is calculated ends the constructor at its
  first store (see \<open>store_entry\<close>), so no constructed object holds a polar table with an
  entry.
\<close>

record RadBoundaryVariable =
  reflect_ix1 :: "table option"
  reflect_ox1 :: "table option"
  reflect_ix2 :: "table option"
  reflect_ox2 :: "table option"
  reflect_ix3 :: "table option"
  reflect_ox3 :: "table option"
  polar_vals :: bool
  polar_north :: "table option"
  polar_south :: "table option"

text \<open>One guarded block: when the guard holds the table is built from the empty one.\<close>

definition guarded ::
  "bool \<Rightarrow> (temporaries \<times> table \<Rightarrow> error + temporaries \<times> table) \<Rightarrow> temporaries
    \<Rightarrow> error + temporaries \<times> table option" where
  "guarded g loop tmp =
     (if g then bindE (loop (tmp, [])) (\<lambda>st. Inr (fst st, Some (snd st)))
      else Inr (tmp, None))"

text \<open>
  The eight blocks in the order of the source, each with the guard the source has. The
  guard of the outer \<open>x3\<close> block reads \<open>block_bcs[BoundaryFace::outer_x2]\<close>.
\<close>

definition RadBoundaryVariable_ctor ::
  "nat \<Rightarrow> nat \<Rightarrow> nat \<Rightarrow> nat \<Rightarrow> MeshBlock \<Rightarrow> error + RadBoundaryVariable" where
  "RadBoundaryVariable_ctor nzeta npsi G NG mb =
     bindE (nh_g nzeta npsi G) (\<lambda>nh.
     bindE (guarded (block_bcs mb inner_x1 = reflect) (loop_ix1 nzeta npsi G NG mb nh) tmp_init) (\<lambda>r1.
     bindE (guarded (block_bcs mb outer_x1 = reflect) (loop_ox1 nzeta npsi G NG mb nh) (fst r1)) (\<lambda>r2.
     bindE (guarded (block_bcs mb inner_x2 = reflect) (loop_ix2 nzeta npsi G NG mb nh) (fst r2)) (\<lambda>r3.
     bindE (guarded (block_bcs mb outer_x2 = reflect) (loop_ox2 nzeta npsi G NG mb nh) (fst r3)) (\<lambda>r4.
     bindE (guarded (block_bcs mb inner_x3 = reflect) (loop_ix3 nzeta npsi G NG mb nh) (fst r4)) (\<lambda>r5.
     bindE (guarded (block_bcs mb outer_x2 = reflect) (loop_ox3 nzeta npsi G NG mb nh) (fst r5)) (\<lambda>r6.
     bindE (guarded (block_bcs mb inner_x2 = polar) (loop_north nzeta npsi G NG mb nh) (fst r6)) (\<lambda>r7.
     bindE (guarded (block_bcs mb outer_x2 = polar) (loop_south nzeta npsi G NG mb nh) (fst r7)) (\<lambda>r8.
     Inr \<lparr>reflect_ix1 = snd r1, reflect_ox1 = snd r2, reflect_ix2 = snd r3,
          reflect_ox2 = snd r4, reflect_ix3 = snd r5, reflect_ox3 = snd r6,
          polar_vals = (block_bcs mb inner_x2 = polar \<or> block_bcs mb outer_x2 = polar),
          polar_north = snd r7, polar_south = snd r8\<rparr>)))))))))"

section \<open>Auxiliary definitions\<close>

subsection \<open>Closed forms used in the proofs\<close>

text \<open>
  Face \<open>k\<close> of \<open>nzeta\<close> equal steps in cosine lies at \<open>arccos (1 - 2 k / nzeta)\<close>. This is
  not a function of the source; the loops above are shown to compute it.
\<close>

definition zface :: "nat \<Rightarrow> nat \<Rightarrow> real" where
  "zface nzeta k = arccos (1 - 2 * real k / real nzeta)"

text \<open>
  The offset of \<open>nh_g(p, AngleInd(l, m))\<close>, the value assigned there, and the body of the
  double loop when none of its accesses leaves the array and \<open>nzeta \<noteq> 1\<close>.
\<close>

definition nh_off :: "nat \<Rightarrow> nat \<Rightarrow> nat \<Rightarrow> nat \<Rightarrow> nat \<Rightarrow> nat \<Rightarrow> nat" where
  "nh_off nzeta npsi G p l m = m + l * (npsi + 2 * G) + nang nzeta npsi G * p"

definition nh_val :: "nat \<Rightarrow> nat \<Rightarrow> nat \<Rightarrow> nat \<Rightarrow> nat \<Rightarrow> nat \<Rightarrow> real" where
  "nh_val nzeta npsi G p l m =
     (if p = 0 then 1
      else if p = 1 then sin (zetav nzeta G ! l) * cos (psiv npsi G ! m)
      else if p = 2 then sin (zetav nzeta G ! l) * sin (psiv npsi G ! m)
      else cos (zetav nzeta G ! l))"

definition nh_g_pure :: "nat \<Rightarrow> nat \<Rightarrow> nat \<Rightarrow> nat \<Rightarrow> nat \<Rightarrow> real list \<Rightarrow> real list" where
  "nh_g_pure nzeta npsi G l m nh =
     nh[nh_off nzeta npsi G 0 l m := nh_val nzeta npsi G 0 l m,
        nh_off nzeta npsi G 1 l m := nh_val nzeta npsi G 1 l m,
        nh_off nzeta npsi G 2 l m := nh_val nzeta npsi G 2 l m,
        nh_off nzeta npsi G 3 l m := nh_val nzeta npsi G 3 l m]"

text \<open>
  Concrete inputs of the transformation of one bin (used where a statement is evaluated):
  the tetrad of flat space-time in Cartesian coordinates, \<open>e_flat\<close> with dual \<open>e_cov_flat\<close>;
  the dual \<open>e_cov_tilted\<close> of the orthonormal frame obtained from it by the rotation about
  the \<open>x\<close> axis through the angle \<open>1 - pi/4\<close> followed by the rotation about the \<open>z\<close> axis
  through the angle \<open>pi/4\<close>; and the unit direction \<open>nh_bin\<close> of the bin \<open>l = 1\<close>, \<open>m = 1\<close>
  of the grid with \<open>nzeta = npsi = 2\<close> and one ghost layer, where \<open>zetav = 1\<close> and
  \<open>psiv = pi/2\<close>.
\<close>

definition e_flat :: mat4 where
  "e_flat = (\<lambda>p n. if p = n then 1 else 0)"

definition e_cov_flat :: mat4 where
  "e_cov_flat = (\<lambda>n p. if n = p then (if n = 0 then - 1 else 1) else 0)"

definition e_cov_tilted :: mat4 where
  "e_cov_tilted = (\<lambda>n p.
     if n = 0 \<and> p = 0 then - 1
     else if n = 1 \<and> p = 1 then cos (pi / 4)
     else if n = 1 \<and> p = 2 then sin (pi / 4) * cos (1 - pi / 4)
     else if n = 1 \<and> p = 3 then - (sin (pi / 4) * sin (1 - pi / 4))
     else if n = 2 \<and> p = 1 then - sin (pi / 4)
     else if n = 2 \<and> p = 2 then cos (pi / 4) * cos (1 - pi / 4)
     else if n = 2 \<and> p = 3 then - (cos (pi / 4) * sin (1 - pi / 4))
     else if n = 3 \<and> p = 2 then sin (1 - pi / 4)
     else if n = 3 \<and> p = 3 then cos (1 - pi / 4)
     else 0)"

definition nh_bin :: "nat \<Rightarrow> real" where
  "nh_bin = (\<lambda>p. [1, 0, sin 1, cos 1] ! p)"

text \<open>
  Two concrete blocks in flat space-time, with unit cell spacing and spatial ghost width
  \<open>NGHOST = 2\<close>: a three-dimensional block whose only non-periodic face is the outer \<open>x3\<close>
  face, which is reflecting; and a two-dimensional block whose only non-periodic face is
  the inner \<open>x2\<close> face, which is polar.
\<close>

definition mb_ox3_reflect :: MeshBlock where
  "mb_ox3_reflect =
     \<lparr>i_s = 2, i_e = 3, j_s = 2, j_e = 3, k_s = 2, k_e = 3,
      x1v = real_of_int, x2v = real_of_int, x3v = real_of_int,
      Tetrad = (\<lambda>x1 x2 x3. (e_flat, e_cov_flat)),
      block_bcs = (\<lambda>f. if f = outer_x3 then reflect else periodic)\<rparr>"

definition mb_north_pole :: MeshBlock where
  "mb_north_pole =
     \<lparr>i_s = 2, i_e = 3, j_s = 2, j_e = 3, k_s = 0, k_e = 0,
      x1v = real_of_int, x2v = real_of_int, x3v = real_of_int,
      Tetrad = (\<lambda>x1 x2 x3. (e_flat, e_cov_flat)),
      block_bcs = (\<lambda>f. if f = inner_x2 then polar else periodic)\<rparr>"

text \<open>The entry stored when the polar search runs to its end and the azimuth is \<open>0\<close>.\<close>

definition nan_entry :: "nat \<Rightarrow> nat \<Rightarrow> nat \<Rightarrow> RemapEntry" where
  "nan_entry nzeta npsi G =
     \<lparr>ind = targets npsi G (int (ze nzeta G) + 2) (int G), frac = [None, None, None, None]\<rparr>"

section \<open>Properties of the angular grid\<close>

subsection \<open>Loops that write cell \<open>l\<close> at iteration \<open>l\<close>\<close>

lemma length_fold_upd:
  "length (fold (\<lambda>l xs. xs[l := f l]) ls xs) = length xs"
  by (induction ls arbitrary: xs) simp_all

lemma fold_upd_upt_nth:
  assumes "b \<le> length xs" and "i < b"
  shows "fold (\<lambda>l ys. ys[l := f l]) [0..<b] xs ! i = f i"
  using assms
proof (induction b arbitrary: i)
  case 0
  then show ?case by simp
next
  case (Suc b)
  show ?case
  proof (cases "i = b")
    case True
    with Suc.prems show ?thesis by (simp add: length_fold_upd)
  next
    case False
    with Suc.prems have "i < b" and "b \<le> length xs" by simp_all
    with Suc.IH False show ?thesis by simp
  qed
qed

lemma padded_range: "0 < n \<Longrightarrow> [zs G - G ..< ze n G + G + 1] = [0 ..< n + 2 * G]"
proof -
  assume "0 < n"
  then have "ze n G + G + 1 = n + 2 * G" and "zs G - G = 0"
    by (simp_all add: ze_def zs_def)
  then show ?thesis by (simp only:)
qed

lemma padded_range_psi: "0 < n \<Longrightarrow> [ps G - G ..< pe n G + G + 1] = [0 ..< n + 2 * G]"
proof -
  assume "0 < n"
  then have "pe n G + G + 1 = n + 2 * G" and "ps G - G = 0"
    by (simp_all add: pe_def ps_def)
  then show ?thesis by (simp only:)
qed

lemma zetav_nth:
  assumes "0 < nzeta" and "l < nzeta + 2 * G"
  shows "zetav nzeta G ! l = zeta_vol (zetaf nzeta G ! l) (zetaf nzeta G ! (l + 1))"
proof -
  have "zetav_step (zetaf nzeta G) =
      (\<lambda>l zv. zv[l := zeta_vol (zetaf nzeta G ! l) (zetaf nzeta G ! (l + 1))])"
    by (simp add: zetav_step_def fun_eq_iff)
  then show ?thesis
    unfolding zetav_def padded_range [OF assms(1)]
    using assms(2) by (simp add: fold_upd_upt_nth)
qed

lemma dzetaf_nth:
  assumes "0 < nzeta" and "l < nzeta + 2 * G"
  shows "dzetaf nzeta G ! l = zetaf nzeta G ! (l + 1) - zetaf nzeta G ! l"
proof -
  have "dzetaf_step (zetaf nzeta G) =
      (\<lambda>l dz. dz[l := zetaf nzeta G ! (l + 1) - zetaf nzeta G ! l])"
    by (simp add: dzetaf_step_def fun_eq_iff)
  then show ?thesis
    unfolding dzetaf_def padded_range [OF assms(1)]
    using assms(2) by (simp add: fold_upd_upt_nth)
qed

lemma psiv_nth:
  assumes "0 < npsi" and "m < npsi + 2 * G"
  shows "psiv npsi G ! m = 0.5 * (psif npsi G ! m + psif npsi G ! (m + 1))"
proof -
  have "psiv_step (psif npsi G) =
      (\<lambda>m pv. pv[m := 0.5 * (psif npsi G ! m + psif npsi G ! (m + 1))])"
    by (simp add: psiv_step_def fun_eq_iff)
  then show ?thesis
    unfolding psiv_def padded_range_psi [OF assms(1)]
    using assms(2) by (simp add: fold_upd_upt_nth)
qed

lemma dpsif_nth:
  assumes "0 < npsi" and "m < npsi + 2 * G"
  shows "dpsif npsi G ! m = psif npsi G ! (m + 1) - psif npsi G ! m"
proof -
  have "dpsif_step (psif npsi G) =
      (\<lambda>m dp. dp[m := psif npsi G ! (m + 1) - psif npsi G ! m])"
    by (simp add: dpsif_step_def fun_eq_iff)
  then show ?thesis
    unfolding dpsif_def padded_range_psi [OF assms(1)]
    using assms(2) by (simp add: fold_upd_upt_nth)
qed

subsection \<open>The face loops of the polar grid\<close>

lemma length_zetaf_active [simp]: "length (zetaf_active nzeta G l zf) = length zf"
  by (simp add: zetaf_active_def Let_def)

lemma length_zetaf_ghost [simp]: "length (zetaf_ghost nzeta G l zf) = length zf"
  by (simp add: zetaf_ghost_def Let_def)

lemma length_fold_zetaf_active [simp]:
  "length (fold (zetaf_active nzeta G) ls zf) = length zf"
  by (induction ls arbitrary: zf) simp_all

lemma length_fold_zetaf_ghost [simp]:
  "length (fold (zetaf_ghost nzeta G) ls zf) = length zf"
  by (induction ls arbitrary: zf) simp_all

lemma zetaf_active_nth:
  assumes "0 < nzeta" and "l \<le> nzeta + 2 * G" and "length zf = nzeta + 2 * G + 1"
    and "i < length zf"
  shows "zetaf_active nzeta G l zf ! i =
           (if i = nzeta + 2 * G - l then pi - arccos (1 + real (l - G) * dczeta nzeta)
            else if i = l then arccos (1 + real (l - G) * dczeta nzeta)
            else zf ! i)"
proof -
  have "ze nzeta G + G + 1 - l = nzeta + 2 * G - l"
    using assms(1) by (simp add: ze_def)
  then show ?thesis
    using assms by (simp add: zetaf_active_def Let_def nth_list_update)
qed

lemma zetaf_active_fold_nth:
  assumes "2 * n < nzeta" and "length zf = nzeta + 2 * G + 1" and "i < length zf"
  shows "fold (zetaf_active nzeta G) [G + 1 ..< G + 1 + n] zf ! i =
           (if G + 1 \<le> i \<and> i < G + 1 + n then arccos (1 + real (i - G) * dczeta nzeta)
            else if nzeta + G - n \<le> i \<and> i < nzeta + G
              then pi - arccos (1 + real (nzeta + G - i) * dczeta nzeta)
            else zf ! i)"
  using assms
proof (induction n)
  case 0
  then show ?case by simp
next
  case (Suc n)
  let ?l = "G + 1 + n"
  let ?prev = "fold (zetaf_active nzeta G) [G + 1 ..< G + 1 + n] zf"
  have range: "[G + 1 ..< G + 1 + Suc n] = [G + 1 ..< G + 1 + n] @ [?l]"
    by simp
  have IH: "?prev ! i =
           (if G + 1 \<le> i \<and> i < G + 1 + n then arccos (1 + real (i - G) * dczeta nzeta)
            else if nzeta + G - n \<le> i \<and> i < nzeta + G
              then pi - arccos (1 + real (nzeta + G - i) * dczeta nzeta)
            else zf ! i)"
    using Suc by simp
  have step: "fold (zetaf_active nzeta G) [G + 1 ..< G + 1 + Suc n] zf ! i =
      (if i = nzeta + 2 * G - ?l then pi - arccos (1 + real (?l - G) * dczeta nzeta)
       else if i = ?l then arccos (1 + real (?l - G) * dczeta nzeta)
       else ?prev ! i)"
    unfolding range fold_append comp_def fold_simps
    using Suc.prems by (intro zetaf_active_nth) simp_all
  consider (south) "i = nzeta + 2 * G - ?l" | (north) "i = ?l"
    | (other) "i \<noteq> nzeta + 2 * G - ?l" "i \<noteq> ?l" by blast
  then show ?case
  proof cases
    case south
    then have "nzeta + G - i = ?l - G" "\<not> (G + 1 \<le> i \<and> i < G + 1 + Suc n)"
      "nzeta + G - Suc n \<le> i \<and> i < nzeta + G"
      using Suc.prems(1) by - arith+
    then show ?thesis unfolding step using south by (simp only: if_True if_False simp_thms)
  next
    case north
    then have "i - G = ?l - G" "G + 1 \<le> i \<and> i < G + 1 + Suc n" "i \<noteq> nzeta + 2 * G - ?l"
      using Suc.prems(1) by - arith+
    then show ?thesis unfolding step using north by (simp only: if_True if_False simp_thms)
  next
    case other
    then have "(G + 1 \<le> i \<and> i < G + 1 + Suc n) = (G + 1 \<le> i \<and> i < G + 1 + n)"
      "(nzeta + G - Suc n \<le> i \<and> i < nzeta + G) = (nzeta + G - n \<le> i \<and> i < nzeta + G)"
      using Suc.prems(1) by - arith+
    then show ?thesis unfolding step IH using other by (simp only: if_True if_False simp_thms)
  qed
qed

lemma zetaf_ghost_nth:
  assumes "0 < nzeta" and "l \<le> nzeta + 2 * G" and "length zf = nzeta + 2 * G + 1"
    and "i < length zf" and "nzeta + l \<noteq> l"
  shows "zetaf_ghost nzeta G l zf ! i =
           (if i = nzeta + 2 * G - l then 2 * pi - zf ! (nzeta + l)
            else if i = l then - (zf ! (2 * G - l))
            else zf ! i)"
proof -
  have "ze nzeta G + G + 1 - l = nzeta + 2 * G - l"
    using assms(1) by (simp add: ze_def)
  then show ?thesis
    using assms by (simp add: zetaf_ghost_def Let_def nth_list_update)
qed

lemma zetaf_ghost_fold_nth:
  assumes "n \<le> G" and "G \<le> nzeta" and "0 < nzeta" and "length zf = nzeta + 2 * G + 1"
    and "i < length zf"
  shows "fold (zetaf_ghost nzeta G) [0 ..< n] zf ! i =
           (if i < n then - (zf ! (2 * G - i))
            else if nzeta + 2 * G - n < i then 2 * pi - zf ! (2 * nzeta + 2 * G - i)
            else zf ! i)"
  using assms
proof (induction n arbitrary: i)
  case 0
  then show ?case by simp
next
  case (Suc n)
  let ?prev = "fold (zetaf_ghost nzeta G) [0 ..< n] zf"
  have IH: "\<And>j. j < length zf \<Longrightarrow> ?prev ! j =
           (if j < n then - (zf ! (2 * G - j))
            else if nzeta + 2 * G - n < j then 2 * pi - zf ! (2 * nzeta + 2 * G - j)
            else zf ! j)"
    using Suc by simp
  have r1: "?prev ! (nzeta + n) = zf ! (nzeta + n)"
  proof -
    have "nzeta + n < length zf" "\<not> nzeta + n < n" "\<not> nzeta + 2 * G - n < nzeta + n"
      using Suc.prems by - arith+
    then show ?thesis by (simp only: IH if_False simp_thms)
  qed
  have r2: "?prev ! (2 * G - n) = zf ! (2 * G - n)"
  proof -
    have "2 * G - n < length zf" "\<not> 2 * G - n < n" "\<not> nzeta + 2 * G - n < 2 * G - n"
      using Suc.prems by - arith+
    then show ?thesis by (simp only: IH if_False simp_thms)
  qed
  have step: "fold (zetaf_ghost nzeta G) [0 ..< Suc n] zf ! i =
      (if i = nzeta + 2 * G - n then 2 * pi - ?prev ! (nzeta + n)
       else if i = n then - (?prev ! (2 * G - n))
       else ?prev ! i)"
    unfolding upt_Suc_append [OF le0] fold_append comp_def fold_simps
    using Suc.prems by (intro zetaf_ghost_nth) simp_all
  consider (south) "i = nzeta + 2 * G - n" | (north) "i = n"
    | (other) "i \<noteq> nzeta + 2 * G - n" "i \<noteq> n" by blast
  then show ?case
  proof cases
    case south
    then have "2 * nzeta + 2 * G - i = nzeta + n" "\<not> i < Suc n" "nzeta + 2 * G - Suc n < i"
      using Suc.prems by - arith+
    then show ?thesis unfolding step r1 using south by (simp only: if_True if_False simp_thms)
  next
    case north
    then have "i < Suc n" "i \<noteq> nzeta + 2 * G - n"
      using Suc.prems by - arith+
    then show ?thesis unfolding step r2 using north by (simp only: if_True if_False simp_thms)
  next
    case other
    then have "(i < Suc n) = (i < n)" "(nzeta + 2 * G - Suc n < i) = (nzeta + 2 * G - n < i)"
      using Suc.prems by - arith+
    then show ?thesis unfolding step using other IH [OF Suc.prems(5)] by (simp only: if_True if_False simp_thms)
  qed
qed

subsection \<open>The polar faces in closed form\<close>

lemma zface_arg:
  assumes "0 < nzeta" and "k \<le> nzeta"
  shows "- 1 \<le> 1 - 2 * real k / real nzeta" and "1 - 2 * real k / real nzeta \<le> 1"
proof -
  have "real k / real nzeta \<le> 1" using assms by simp
  then show "- 1 \<le> 1 - 2 * real k / real nzeta" by simp
  show "1 - 2 * real k / real nzeta \<le> 1" by simp
qed

lemma zface_0 [simp]: "zface nzeta 0 = 0"
  by (simp add: zface_def)

lemma zface_top [simp]: "0 < nzeta \<Longrightarrow> zface nzeta nzeta = pi"
  by (simp add: zface_def)

lemma zface_half: "0 < n \<Longrightarrow> zface (2 * n) n = pi / 2"
  by (simp add: zface_def)

lemma zface_strict_mono:
  assumes "0 < nzeta" and "j < k" and "k \<le> nzeta"
  shows "zface nzeta j < zface nzeta k"
proof -
  have "real j / real nzeta < real k / real nzeta"
    using assms by (simp add: divide_strict_right_mono)
  then have "1 - 2 * real k / real nzeta < 1 - 2 * real j / real nzeta" by simp
  moreover have "j \<le> nzeta" using assms by simp
  ultimately show ?thesis
    unfolding zface_def
    using zface_arg [OF assms(1) assms(3)] zface_arg [OF assms(1) \<open>j \<le> nzeta\<close>]
    by (intro arccos_less_arccos) simp_all
qed

lemma zface_bounds:
  assumes "0 < nzeta" and "k \<le> nzeta"
  shows "0 \<le> zface nzeta k" and "zface nzeta k \<le> pi"
  unfolding zface_def using zface_arg [OF assms] by (simp_all add: arccos_lbound arccos_ubound)

lemma zface_pos: "0 < nzeta \<Longrightarrow> 0 < k \<Longrightarrow> k \<le> nzeta \<Longrightarrow> 0 < zface nzeta k"
  using zface_strict_mono [of nzeta 0 k] by simp

lemma zface_less_pi: "0 < nzeta \<Longrightarrow> k < nzeta \<Longrightarrow> zface nzeta k < pi"
  using zface_strict_mono [of nzeta k nzeta] by simp

lemma zface_mirror:
  assumes "0 < nzeta" and "k \<le> nzeta"
  shows "pi - zface nzeta (nzeta - k) = zface nzeta k"
proof -
  have "real (nzeta - k) = real nzeta - real k" using assms by (simp add: of_nat_diff)
  then have "1 - 2 * real k / real nzeta = - (1 - 2 * real (nzeta - k) / real nzeta)"
    using assms(1) by (simp add: field_simps)
  moreover have "arccos (- (1 - 2 * real (nzeta - k) / real nzeta))
      = pi - arccos (1 - 2 * real (nzeta - k) / real nzeta)"
    using zface_arg [of nzeta "nzeta - k"] assms(1) by (intro arccos_minus) simp_all
  ultimately show ?thesis unfolding zface_def by (simp only:)
qed

lemma czeta_zface: "arccos (1 + real k * dczeta nzeta) = zface nzeta k"
proof -
  have "1 + real k * dczeta nzeta = 1 - 2 * real k / real nzeta"
    by (simp add: dczeta_def)
  then show ?thesis unfolding zface_def by (simp only:)
qed

lemma zetaf_by_interior:
  "zetaf nzeta G = fold (zetaf_ghost nzeta G) [0 ..< G] (zetaf_interior nzeta G)"
  by (simp add: zetaf_def zs_def)

lemma length_zetaf_interior [simp]: "length (zetaf_interior nzeta G) = nzeta + 2 * G + 1"
  by (simp add: zetaf_interior_def Let_def del: replicate.simps)

lemma zetaf_interior_nth:
  assumes "0 < nzeta" and "G \<le> i" and "i \<le> nzeta + G"
  shows "zetaf_interior nzeta G ! i = zface nzeta (i - G)"
proof -
  define n where "n = (nzeta - 1) div 2"
  define base where "base = (replicate (nzeta + 2 * G + 1) (0::real))[zs G := 0, ze nzeta G + 1 := pi]"
  define zf3 where "zf3 = fold (zetaf_active nzeta G) [G + 1 ..< G + 1 + n] base"
  have n2: "2 * n < nzeta" using assms(1) unfolding n_def by arith
  have len: "length base = nzeta + 2 * G + 1" by (simp add: base_def del: replicate.simps)
  have ilen: "i < length base" using assms len by simp
  have bG: "base ! G = 0"
    using assms(1) by (simp add: base_def zs_def ze_def nth_list_update del: replicate.simps)
  have bS: "base ! (nzeta + G) = pi"
    using assms(1) by (simp add: base_def zs_def ze_def nth_list_update del: replicate.simps)
  have zf3: "zf3 ! i =
           (if G + 1 \<le> i \<and> i < G + 1 + n then arccos (1 + real (i - G) * dczeta nzeta)
            else if nzeta + G - n \<le> i \<and> i < nzeta + G
              then pi - arccos (1 + real (nzeta + G - i) * dczeta nzeta)
            else base ! i)"
    unfolding zf3_def by (rule zetaf_active_fold_nth [OF n2 len ilen])
  have unf: "zetaf_interior nzeta G = (if nzeta mod 2 = 0 then zf3[nzeta div 2 + G := pi / 2] else zf3)"
    by (simp add: zetaf_interior_def Let_def zf3_def base_def n_def zs_def add.commute add.left_commute)
  have len3: "length zf3 = nzeta + 2 * G + 1" by (simp add: zf3_def len)
  have unf_nth: "zetaf_interior nzeta G ! i =
      (if nzeta mod 2 = 0 \<and> i = nzeta div 2 + G then pi / 2 else zf3 ! i)"
    using len3 assms by (auto simp: unf nth_list_update)
  consider (pole_n) "i = G" | (north) "G + 1 \<le> i" "i < G + 1 + n"
    | (south) "nzeta + G - n \<le> i" "i < nzeta + G" | (pole_s) "i = nzeta + G"
    | (equator) "G + 1 + n \<le> i" "i < nzeta + G - n"
    using assms by arith
  then show ?thesis
  proof cases
    case pole_n
    then have neg: "\<not> (G + 1 \<le> i \<and> i < G + 1 + n)" "\<not> (nzeta + G - n \<le> i \<and> i < nzeta + G)"
       "\<not> (nzeta mod 2 = 0 \<and> i = nzeta div 2 + G)"
      using n2 assms(1) by - arith+
    have "zetaf_interior nzeta G ! i = base ! i"
      by (simp only: unf_nth zf3 neg if_False simp_thms)
    also have "\<dots> = zface nzeta (i - G)" using pole_n bG by simp
    finally show ?thesis .
  next
    case north
    then have neg: "\<not> (nzeta mod 2 = 0 \<and> i = nzeta div 2 + G)"
      and pos: "G + 1 \<le> i \<and> i < G + 1 + n"
      using n2 unfolding n_def by - arith+
    have "zetaf_interior nzeta G ! i = arccos (1 + real (i - G) * dczeta nzeta)"
      by (simp only: unf_nth zf3 neg pos if_False if_True simp_thms)
    then show ?thesis by (simp only: czeta_zface)
  next
    case south
    then have neg: "\<not> (nzeta mod 2 = 0 \<and> i = nzeta div 2 + G)" "\<not> (G + 1 \<le> i \<and> i < G + 1 + n)"
      and pos: "nzeta + G - n \<le> i \<and> i < nzeta + G"
      using n2 unfolding n_def by - arith+
    have k: "nzeta + G - i = nzeta - (i - G)" "i - G \<le> nzeta" using assms by - arith+
    have "zetaf_interior nzeta G ! i = pi - arccos (1 + real (nzeta + G - i) * dczeta nzeta)"
      by (simp only: unf_nth zf3 neg pos if_False if_True simp_thms)
    also have "\<dots> = pi - zface nzeta (nzeta - (i - G))" by (simp only: czeta_zface k)
    also have "\<dots> = zface nzeta (i - G)" by (rule zface_mirror [OF assms(1) k(2)])
    finally show ?thesis .
  next
    case pole_s
    then have neg: "\<not> (G + 1 \<le> i \<and> i < G + 1 + n)" "\<not> (nzeta + G - n \<le> i \<and> i < nzeta + G)"
       "\<not> (nzeta mod 2 = 0 \<and> i = nzeta div 2 + G)"
      using n2 assms(1) by - arith+
    have "zetaf_interior nzeta G ! i = base ! i"
      by (simp only: unf_nth zf3 neg if_False simp_thms)
    also have "\<dots> = zface nzeta (i - G)" using pole_s bS assms(1) by simp
    finally show ?thesis .
  next
    case equator
    have "nzeta = 2 * n + 1 \<or> nzeta = 2 * n + 2"
      using assms(1) unfolding n_def by arith
    with equator have h: "nzeta = 2 * (n + 1)" and i: "i = n + 1 + G"
      by - arith+
    have ev: "nzeta mod 2 = 0 \<and> i = nzeta div 2 + G"
      unfolding h i by simp
    have "zface nzeta (i - G) = pi / 2"
      unfolding h i using zface_half [of "n + 1"] by simp
    moreover have "zetaf_interior nzeta G ! i = pi / 2"
      unfolding unf_nth using ev by simp
    ultimately show ?thesis by simp
  qed
qed

lemma length_zetaf [simp]: "length (zetaf nzeta G) = nzeta + 2 * G + 1"
  by (simp add: zetaf_def)

lemma zetaf_nth:
  assumes "0 < nzeta" and "G \<le> nzeta" and "i \<le> nzeta + 2 * G"
  shows "zetaf nzeta G ! i =
           (if i < G then - zface nzeta (G - i)
            else if nzeta + G < i then 2 * pi - zface nzeta (2 * nzeta + G - i)
            else zface nzeta (i - G))"
proof -
  let ?ZI = "zetaf_interior nzeta G"
  have fold: "zetaf nzeta G ! i =
           (if i < G then - (?ZI ! (2 * G - i))
            else if nzeta + 2 * G - G < i then 2 * pi - ?ZI ! (2 * nzeta + 2 * G - i)
            else ?ZI ! i)"
    unfolding zetaf_by_interior
    using assms by (intro zetaf_ghost_fold_nth) simp_all
  consider (north) "i < G" | (south) "nzeta + G < i" | (inner) "G \<le> i" "i \<le> nzeta + G"
    by arith
  then show ?thesis
  proof cases
    case north
    then have "G \<le> 2 * G - i" "2 * G - i \<le> nzeta + G" "2 * G - i - G = G - i"
      using assms by - arith+
    then have "?ZI ! (2 * G - i) = zface nzeta (G - i)"
      using zetaf_interior_nth [OF assms(1), of G "2 * G - i"] by simp
    then show ?thesis unfolding fold using north by simp
  next
    case south
    then have "G \<le> 2 * nzeta + 2 * G - i" "2 * nzeta + 2 * G - i \<le> nzeta + G"
      "2 * nzeta + 2 * G - i - G = 2 * nzeta + G - i"
      using assms by - arith+
    then have "?ZI ! (2 * nzeta + 2 * G - i) = zface nzeta (2 * nzeta + G - i)"
      using zetaf_interior_nth [OF assms(1), of G "2 * nzeta + 2 * G - i"] by simp
    then show ?thesis unfolding fold using south by simp
  next
    case inner
    then have "?ZI ! i = zface nzeta (i - G)"
      using zetaf_interior_nth [OF assms(1)] by simp
    then show ?thesis unfolding fold using inner by simp
  qed
qed

lemma zetaf_less:
  assumes "0 < nzeta" and "G \<le> nzeta" and "i < j" and "j \<le> nzeta + 2 * G"
  shows "zetaf nzeta G ! i < zetaf nzeta G ! j"
proof -
  note zp = zface_pos [OF assms(1)] and zl = zface_less_pi [OF assms(1)]
    and zb = zface_bounds [OF assms(1)] and zm = zface_strict_mono [OF assms(1)]
  have i: "i \<le> nzeta + 2 * G" using assms by simp
  consider (nn) "j < G" | (ni) "i < G" "G \<le> j" "j \<le> nzeta + G"
    | (ns) "i < G" "nzeta + G < j" | (ii) "G \<le> i" "j \<le> nzeta + G"
    | (inner_south) "G \<le> i" "i \<le> nzeta + G" "nzeta + G < j" | (ss) "nzeta + G < i"
    by arith
  then show ?thesis
  proof cases
    case nn
    then have "zface nzeta (G - j) < zface nzeta (G - i)"
      using assms by (intro zm) simp_all
    then show ?thesis
      unfolding zetaf_nth [OF assms(1,2) i] zetaf_nth [OF assms(1,2,4)]
      using nn assms(3) by simp
  next
    case ni
    have "0 < zface nzeta (G - i)" using ni assms by (intro zp) simp_all
    moreover have "0 \<le> zface nzeta (j - G)" using ni by (intro zb) simp
    ultimately show ?thesis
      unfolding zetaf_nth [OF assms(1,2) i] zetaf_nth [OF assms(1,2,4)]
      using ni by simp
  next
    case ns
    have "0 < zface nzeta (G - i)" using ns assms by (intro zp) simp_all
    moreover have "zface nzeta (2 * nzeta + G - j) \<le> pi" using ns assms by (intro zb) simp
    ultimately show ?thesis
      unfolding zetaf_nth [OF assms(1,2) i] zetaf_nth [OF assms(1,2,4)]
      using ns pi_gt_zero by (simp, linarith)
  next
    case ii
    then have "zface nzeta (i - G) < zface nzeta (j - G)"
      using assms by (intro zm) simp_all
    then show ?thesis
      unfolding zetaf_nth [OF assms(1,2) i] zetaf_nth [OF assms(1,2,4)]
      using ii assms(3) by simp
  next
    case inner_south
    have "zface nzeta (i - G) \<le> pi" using inner_south by (intro zb) simp
    moreover have "zface nzeta (2 * nzeta + G - j) < pi" using inner_south assms by (intro zl) arith
    ultimately show ?thesis
      unfolding zetaf_nth [OF assms(1,2) i] zetaf_nth [OF assms(1,2,4)]
      using inner_south by simp
  next
    case ss
    then have "zface nzeta (2 * nzeta + G - j) < zface nzeta (2 * nzeta + G - i)"
      using assms by (intro zm) simp_all
    then show ?thesis
      unfolding zetaf_nth [OF assms(1,2) i] zetaf_nth [OF assms(1,2,4)]
      using ss assms(3) by simp
  qed
qed

text \<open>
  Claim C7. For every polar resolution \<open>nzeta \<ge> 1\<close> and every ghost width \<open>G \<le> nzeta\<close> (each
  ghost face then mirrors an existing active face), the array \<open>zetaf\<close> has
  \<open>nzeta + 2 G + 1\<close> entries and is strictly increasing over the whole padded range, with
  \<open>zetaf(G) = 0\<close>, \<open>zetaf(nzeta + G) = pi\<close> and, for even \<open>nzeta\<close>,
  \<open>zetaf(nzeta/2 + G) = pi/2\<close>.
\<close>

theorem zetaf_increasing_poles_equator:
  assumes "0 < nzeta" and "G \<le> nzeta"
  shows "length (zetaf nzeta G) = nzeta + 2 * G + 1
       \<and> sorted_wrt (<) (zetaf nzeta G)
       \<and> zetaf nzeta G ! G = 0
       \<and> zetaf nzeta G ! (nzeta + G) = pi
       \<and> (nzeta mod 2 = 0 \<longrightarrow> zetaf nzeta G ! (nzeta div 2 + G) = pi / 2)"
proof (intro conjI impI)
  show "length (zetaf nzeta G) = nzeta + 2 * G + 1" by simp
  show "sorted_wrt (<) (zetaf nzeta G)"
    unfolding sorted_wrt_iff_nth_less
    using zetaf_less [OF assms] by simp
  show "zetaf nzeta G ! G = 0"
    using zetaf_nth [OF assms, of G] by simp
  show "zetaf nzeta G ! (nzeta + G) = pi"
    using zetaf_nth [OF assms, of "nzeta + G"] assms(1) by simp
  assume ev: "nzeta mod 2 = 0"
  then obtain h where h: "nzeta = 2 * h" by (auto simp: mod_eq_0_iff_dvd)
  with assms(1) have "0 < h" by simp
  then show "zetaf nzeta G ! (nzeta div 2 + G) = pi / 2"
    using zetaf_nth [OF assms, of "nzeta div 2 + G"] zface_half [of h] h by simp
qed

theorem zetaf_increasing_poles_equator_witness:
  "(0::nat) < 2 \<and> (1::nat) \<le> 2
   \<and> sorted_wrt (<) (zetaf 2 1) \<and> zetaf 2 1 ! 1 = 0 \<and> zetaf 2 1 ! 3 = pi
   \<and> zetaf 2 1 ! 2 = pi / 2"
proof -
  have "(2::nat) div 2 + 1 = 2" by simp
  then show ?thesis
    using zetaf_increasing_poles_equator [of 2 1] by (simp del: One_nat_def)
qed

text \<open>
  Claim C9. For every bin index \<open>l\<close> of the padded polar range, \<open>zetav(l)\<close> is the closed-form
  flux-weighted average of its two bounding faces \<open>zetaf(l)\<close> and \<open>zetaf(l+1)\<close>; for every
  bin index \<open>m\<close> of the padded azimuthal range, \<open>psiv(m)\<close> is the arithmetic midpoint of
  \<open>psif(m)\<close> and \<open>psif(m+1)\<close>.
\<close>

theorem centers_closed_form:
  assumes "0 < nzeta" and "0 < npsi" and "l < nzeta + 2 * G" and "m < npsi + 2 * G"
  shows "zetav nzeta G ! l =
           (zetaf nzeta G ! (l + 1) * cos (zetaf nzeta G ! (l + 1)) - sin (zetaf nzeta G ! (l + 1))
             - zetaf nzeta G ! l * cos (zetaf nzeta G ! l) + sin (zetaf nzeta G ! l))
           / (cos (zetaf nzeta G ! (l + 1)) - cos (zetaf nzeta G ! l))
       \<and> psiv npsi G ! m = 0.5 * (psif npsi G ! m + psif npsi G ! (m + 1))"
  using assms by (simp add: zetav_nth psiv_nth zeta_vol_def)

theorem centers_closed_form_witness:
  "(0::nat) < 2 \<and> (0::nat) < 2 \<and> (1::nat) < 2 + 2 * 1 \<and> (1::nat) < 2 + 2 * 1
   \<and> zetav 2 1 ! 1 =
           (zetaf 2 1 ! (1 + 1) * cos (zetaf 2 1 ! (1 + 1)) - sin (zetaf 2 1 ! (1 + 1))
             - zetaf 2 1 ! 1 * cos (zetaf 2 1 ! 1) + sin (zetaf 2 1 ! 1))
           / (cos (zetaf 2 1 ! (1 + 1)) - cos (zetaf 2 1 ! 1))
   \<and> psiv 2 1 ! 1 = 0.5 * (psif 2 1 ! 1 + psif 2 1 ! (1 + 1))"
  using centers_closed_form [of 2 2 1 1 1] by simp

subsection \<open>The azimuthal faces\<close>

lemma fold_upd_range_nth:
  assumes "b \<le> length xs" and "i < length xs"
  shows "fold (\<lambda>l ys. ys[l := f l]) [a..<b] xs ! i = (if a \<le> i \<and> i < b then f i else xs ! i)"
  using assms
proof (induction b)
  case 0
  then show ?case by simp
next
  case (Suc b)
  show ?case
  proof (cases "a \<le> b")
    case True
    then show ?thesis
      using Suc by (auto simp: nth_list_update length_fold_upd)
  next
    case False
    then show ?thesis by auto
  qed
qed

lemma length_psif_ghost [simp]: "length (psif_ghost npsi G m pf) = length pf"
  by (simp add: psif_ghost_def Let_def)

lemma length_fold_psif_ghost [simp]:
  "length (fold (psif_ghost npsi G) ms pf) = length pf"
  by (induction ms arbitrary: pf) simp_all

lemma length_psif_interior [simp]: "length (psif_interior npsi G) = npsi + 2 * G + 1"
  by (simp add: psif_interior_def Let_def psif_active_def [abs_def] length_fold_upd del: replicate.simps)

lemma length_psif [simp]: "length (psif npsi G) = npsi + 2 * G + 1"
  by (simp add: psif_def)

lemma psif_interior_nth:
  assumes "0 < npsi" and "G \<le> i" and "i \<le> npsi + G"
  shows "psif_interior npsi G ! i = real (i - G) * dpsi npsi"
proof -
  define base where "base = (replicate (npsi + 2 * G + 1) (0::real))[ps G := 0, pe npsi G + 1 := 2 * pi]"
  have len: "length base = npsi + 2 * G + 1" by (simp add: base_def del: replicate.simps)
  have bG: "base ! G = 0"
    using assms(1) by (simp add: base_def ps_def pe_def nth_list_update del: replicate.simps)
  have bS: "base ! (npsi + G) = 2 * pi"
    using assms(1) by (simp add: base_def ps_def pe_def nth_list_update del: replicate.simps)
  have rng: "[ps G + 1 ..< pe npsi G + 1] = [G + 1 ..< npsi + G]"
    using assms(1) by (simp add: ps_def pe_def)
  have unf: "psif_interior npsi G = fold (\<lambda>m pf. pf[m := real (m - G) * dpsi npsi]) [G + 1 ..< npsi + G] base"
    unfolding psif_interior_def Let_def rng base_def psif_active_def [abs_def] by simp
  have nth: "psif_interior npsi G ! i =
      (if G + 1 \<le> i \<and> i < npsi + G then real (i - G) * dpsi npsi else base ! i)"
    unfolding unf using assms len by (intro fold_upd_range_nth) simp_all
  consider "i = G" | "G + 1 \<le> i \<and> i < npsi + G" | "i = npsi + G" using assms by arith
  then show ?thesis
  proof cases
    case 1
    then show ?thesis unfolding nth using bG by simp
  next
    case 2
    then show ?thesis unfolding nth by simp
  next
    case 3
    then show ?thesis unfolding nth using bS assms(1) by (simp add: dpsi_def)
  qed
qed

lemma psif_ghost_nth:
  assumes "0 < npsi" and "l < G" and "length pf = npsi + 2 * G + 1" and "i < length pf"
  shows "psif_ghost npsi G l pf ! i =
           (if i = npsi + 2 * G - l then pf ! (2 * G - l) + 2 * pi
            else if i = l then pf ! (npsi + l) - 2 * pi
            else pf ! i)"
proof -
  have "pe npsi G + G + 1 - l = npsi + 2 * G - l"
    using assms(1) by (simp add: pe_def)
  moreover have "2 * G - l \<noteq> l" using assms(2) by arith
  ultimately show ?thesis
    using assms by (simp add: psif_ghost_def Let_def nth_list_update)
qed

lemma psif_ghost_fold_nth:
  assumes "n \<le> G" and "G \<le> npsi" and "0 < npsi" and "length pf = npsi + 2 * G + 1"
    and "i < length pf"
  shows "fold (psif_ghost npsi G) [0 ..< n] pf ! i =
           (if i < n then pf ! (npsi + i) - 2 * pi
            else if npsi + 2 * G - n < i then pf ! (i - npsi) + 2 * pi
            else pf ! i)"
  using assms
proof (induction n arbitrary: i)
  case 0
  then show ?case by simp
next
  case (Suc n)
  let ?prev = "fold (psif_ghost npsi G) [0 ..< n] pf"
  have IH: "\<And>j. j < length pf \<Longrightarrow> ?prev ! j =
           (if j < n then pf ! (npsi + j) - 2 * pi
            else if npsi + 2 * G - n < j then pf ! (j - npsi) + 2 * pi
            else pf ! j)"
    using Suc by simp
  have r1: "?prev ! (npsi + n) = pf ! (npsi + n)"
  proof -
    have "npsi + n < length pf" "\<not> npsi + n < n" "\<not> npsi + 2 * G - n < npsi + n"
      using Suc.prems by - arith+
    then show ?thesis by (simp only: IH if_False simp_thms)
  qed
  have r2: "?prev ! (2 * G - n) = pf ! (2 * G - n)"
  proof -
    have "2 * G - n < length pf" "\<not> 2 * G - n < n" "\<not> npsi + 2 * G - n < 2 * G - n"
      using Suc.prems by - arith+
    then show ?thesis by (simp only: IH if_False simp_thms)
  qed
  have step: "fold (psif_ghost npsi G) [0 ..< Suc n] pf ! i =
      (if i = npsi + 2 * G - n then ?prev ! (2 * G - n) + 2 * pi
       else if i = n then ?prev ! (npsi + n) - 2 * pi
       else ?prev ! i)"
    unfolding upt_Suc_append [OF le0] fold_append comp_def fold_simps
    using Suc.prems by (intro psif_ghost_nth) simp_all
  consider (south) "i = npsi + 2 * G - n" | (north) "i = n"
    | (other) "i \<noteq> npsi + 2 * G - n" "i \<noteq> n" by blast
  then show ?case
  proof cases
    case south
    then have "i - npsi = 2 * G - n" "\<not> i < Suc n" "npsi + 2 * G - Suc n < i"
      using Suc.prems by - arith+
    then show ?thesis unfolding step r2 using south by (simp only: if_True if_False simp_thms)
  next
    case north
    then have "i < Suc n" "i \<noteq> npsi + 2 * G - n"
      using Suc.prems by - arith+
    then show ?thesis unfolding step r1 using north by (simp only: if_True if_False simp_thms)
  next
    case other
    then have "(i < Suc n) = (i < n)" "(npsi + 2 * G - Suc n < i) = (npsi + 2 * G - n < i)"
      using Suc.prems by - arith+
    then show ?thesis unfolding step using other IH [OF Suc.prems(5)]
      by (simp only: if_True if_False simp_thms)
  qed
qed

lemma psif_by_interior:
  "psif npsi G = fold (psif_ghost npsi G) [0 ..< G] (psif_interior npsi G)"
  by (simp add: psif_def ps_def)

lemma psif_nth:
  assumes "0 < npsi" and "G \<le> npsi" and "i \<le> npsi + 2 * G"
  shows "psif npsi G ! i =
           (if i < G then real (npsi + i - G) * dpsi npsi - 2 * pi
            else if npsi + G < i then real (i - npsi - G) * dpsi npsi + 2 * pi
            else real (i - G) * dpsi npsi)"
proof -
  let ?PI = "psif_interior npsi G"
  have fold: "psif npsi G ! i =
           (if i < G then ?PI ! (npsi + i) - 2 * pi
            else if npsi + 2 * G - G < i then ?PI ! (i - npsi) + 2 * pi
            else ?PI ! i)"
    unfolding psif_by_interior
    using assms by (intro psif_ghost_fold_nth) simp_all
  consider (north) "i < G" | (south) "npsi + G < i" | (inner) "G \<le> i" "i \<le> npsi + G"
    by arith
  then show ?thesis
  proof cases
    case north
    then have "G \<le> npsi + i" "npsi + i \<le> npsi + G"
      using assms by - arith+
    then have "?PI ! (npsi + i) = real (npsi + i - G) * dpsi npsi"
      using psif_interior_nth [OF assms(1), of G "npsi + i"] by simp
    then show ?thesis unfolding fold using north by simp
  next
    case south
    then have "G \<le> i - npsi" "i - npsi \<le> npsi + G"
      using assms by - arith+
    then have "?PI ! (i - npsi) = real (i - npsi - G) * dpsi npsi"
      using psif_interior_nth [OF assms(1), of G "i - npsi"] by simp
    then show ?thesis unfolding fold using south by simp
  next
    case inner
    then have "?PI ! i = real (i - G) * dpsi npsi"
      using psif_interior_nth [OF assms(1)] by simp
    then show ?thesis unfolding fold using inner by simp
  qed
qed

text \<open>
  Claim C8. For every azimuthal resolution \<open>npsi \<ge> 1\<close> and every ghost width \<open>G \<le> npsi\<close>,
  \<open>psif(G) = 0\<close> and \<open>psif(npsi + G) = 2 pi\<close>; each beginning ghost face \<open>m < G\<close> is the
  active face \<open>npsi + m\<close> shifted by \<open>- 2 pi\<close>, and each end ghost face
  \<open>m > npsi + G\<close> is the active face \<open>m - npsi\<close> shifted by \<open>+ 2 pi\<close>.
\<close>

theorem psif_origin_and_wrapped_ghosts:
  assumes "0 < npsi" and "G \<le> npsi"
  shows "psif npsi G ! G = 0
       \<and> psif npsi G ! (npsi + G) = 2 * pi
       \<and> (\<forall>m < G. psif npsi G ! m = psif npsi G ! (npsi + m) - 2 * pi)
       \<and> (\<forall>m. npsi + G < m \<and> m \<le> npsi + 2 * G \<longrightarrow>
              psif npsi G ! m = psif npsi G ! (m - npsi) + 2 * pi)"
proof (intro conjI allI impI)
  show "psif npsi G ! G = 0"
    using psif_nth [OF assms, of G] by simp
  show "psif npsi G ! (npsi + G) = 2 * pi"
    using psif_nth [OF assms, of "npsi + G"] assms(1) by (simp add: dpsi_def)
next
  fix m assume m: "m < G"
  then have "\<not> npsi + m < G" "\<not> npsi + G < npsi + m" "npsi + m \<le> npsi + 2 * G" "m \<le> npsi + 2 * G"
    using assms by - arith+
  then show "psif npsi G ! m = psif npsi G ! (npsi + m) - 2 * pi"
    using psif_nth [OF assms, of m] psif_nth [OF assms, of "npsi + m"] m by simp
next
  fix m assume m: "npsi + G < m \<and> m \<le> npsi + 2 * G"
  then have "\<not> m - npsi < G" "\<not> npsi + G < m - npsi" "m - npsi \<le> npsi + 2 * G" "\<not> m < G"
    using assms by - arith+
  then show "psif npsi G ! m = psif npsi G ! (m - npsi) + 2 * pi"
    using psif_nth [OF assms, of m] psif_nth [OF assms, of "m - npsi"] m by simp
qed

theorem psif_origin_and_wrapped_ghosts_witness:
  "(0::nat) < 2 \<and> (1::nat) \<le> 2
   \<and> psif 2 1 ! 1 = 0 \<and> psif 2 1 ! 3 = 2 * pi
   \<and> psif 2 1 ! 0 = psif 2 1 ! 2 - 2 * pi
   \<and> psif 2 1 ! 4 = psif 2 1 ! 2 + 2 * pi"
proof -
  have "(2::nat) + 1 = 3" "(2::nat) + 0 = 2" "(4::nat) - 2 = 2" "(2::nat) + 1 < 4"
    "(4::nat) \<le> 2 + 2 * 1" "(0::nat) < 1"
    by simp_all
  then show ?thesis
    using psif_origin_and_wrapped_ghosts [of 2 1] by (metis One_nat_def zero_less_numeral one_le_numeral)
qed

subsection \<open>Ghost layers wider than the grid\<close>

text \<open>
  The hypotheses \<open>G \<le> nzeta\<close> and \<open>G \<le> npsi\<close> of the statements on the face arrays cannot be
  dropped. With one polar bin and two ghost layers the outermost ghost faces mirror faces
  that are not assigned yet, and \<open>zetaf\<close> is not increasing; with one azimuthal bin and two
  ghost layers the outermost ghost faces are not the shifted active faces.
\<close>

lemma zetaf_1_2: "zetaf 1 2 = [0, - pi, 0, pi, 2 * pi, 2 * pi]"
proof -
  have r: "[zs 2 + 1 ..< (1 - 1) div 2 + 2 + 1] = []" "[zs 2 - 2 ..< zs 2] = [0, 1]"
    by (simp_all add: zs_def upt_conv_Cons)
  have i: "zetaf_interior 1 2 = [0, 0, 0, pi, 0, 0]"
    unfolding zetaf_interior_def Let_def r
    by (simp add: zs_def ze_def numeral_eq_Suc)
  show ?thesis
    unfolding zetaf_def r i
    by (simp add: zetaf_ghost_def ze_def Let_def numeral_eq_Suc)
qed

lemma psif_1_2: "psif 1 2 = [- (2 * pi), - (2 * pi), 0, 2 * pi, 4 * pi, 2 * pi]"
proof -
  have r: "[ps 2 + 1 ..< pe 1 2 + 1] = []" "[ps 2 - 2 ..< ps 2] = [0, 1]"
    by (simp_all add: ps_def pe_def upt_conv_Cons)
  have i: "psif_interior 1 2 = [0, 0, 0, 2 * pi, 0, 0]"
    unfolding psif_interior_def Let_def r
    by (simp add: ps_def pe_def numeral_eq_Suc)
  show ?thesis
    unfolding psif_def r i
    by (simp add: psif_ghost_def pe_def Let_def numeral_eq_Suc)
qed

subsection \<open>Loops that may fail, and cells written once\<close>

lemma bindE_Inr [simp]: "bindE (Inr x) f = f x"
  by (simp add: bindE_def)

lemma bindE_Inl [simp]: "bindE (Inl e) f = Inl e"
  by (simp add: bindE_def)

lemma bindE_eq_Inr: "bindE r f = Inr y \<longleftrightarrow> (\<exists>x. r = Inr x \<and> f x = Inr y)"
  by (cases r) simp_all

lemma wr_ok: "0 \<le> off \<Longrightarrow> off < int (length xs) \<Longrightarrow> wr xs off v = Inr (xs[nat off := v])"
  by (simp add: wr_def)

lemma rd_ok: "0 \<le> off \<Longrightarrow> off < int (length xs) \<Longrightarrow> rd xs off = Inr (xs ! nat off)"
  by (simp add: rd_def)

lemma foldE_append:
  "foldE f (xs @ ys) s = (case foldE f xs s of Inl e \<Rightarrow> Inl e | Inr s' \<Rightarrow> foldE f ys s')"
  by (induction xs arbitrary: s) (simp_all split: sum.splits)

text \<open>A loop none of whose iterations fails is a plain fold.\<close>

lemma foldE_pure:
  assumes "\<And>x s. x \<in> set xs \<Longrightarrow> P s \<Longrightarrow> f x s = Inr (g x s) \<and> P (g x s)" and "P s"
  shows "foldE f xs s = Inr (fold g xs s) \<and> P (fold g xs s)"
  using assms
proof (induction xs arbitrary: s)
  case Nil
  then show ?case by simp
next
  case (Cons x xs)
  have "f x s = Inr (g x s)" "P (g x s)" using Cons.prems by simp_all
  then show ?case using Cons.IH [of "g x s"] Cons.prems(1) by simp
qed

text \<open>Invariants of a loop that may fail.\<close>

lemma foldE_invariant:
  assumes "foldE f xs s = Inr s'" and "I s"
    and "\<And>x t t'. x \<in> set xs \<Longrightarrow> I t \<Longrightarrow> f x t = Inr t' \<Longrightarrow> I t'"
  shows "I s'"
  using assms
proof (induction xs arbitrary: s)
  case Nil
  then show ?case by simp
next
  case (Cons x xs)
  from Cons.prems(1) obtain t where t: "f x s = Inr t" "foldE f xs t = Inr s'"
    by (auto split: sum.splits)
  have "I t" using Cons.prems(3) [of x s t] Cons.prems(2) t(1) by simp
  then show ?case
  proof (rule Cons.IH [OF t(2)])
    fix y u u' assume "y \<in> set xs" "I u" "f y u = Inr u'"
    then show "I u'" using Cons.prems(3) [of y u u'] by simp
  qed
qed

text \<open>A cell written by exactly one iteration keeps the value written there.\<close>

lemma fold_frame:
  assumes "\<And>k s. k \<in> set ks \<Longrightarrow> step k s ! i = s ! i"
  shows "fold step ks s ! i = s ! i"
  using assms by (induction ks arbitrary: s) simp_all

lemma fold_write_once:
  assumes "k \<in> set ks" and "P s"
    and "\<And>s. P s \<Longrightarrow> step k s ! i = v"
    and "\<And>k' s. k' \<in> set ks \<Longrightarrow> k' \<noteq> k \<Longrightarrow> step k' s ! i = s ! i"
    and "\<And>k' s. k' \<in> set ks \<Longrightarrow> P s \<Longrightarrow> P (step k' s)"
  shows "fold step ks s ! i = v"
  using assms
proof (induction ks arbitrary: s)
  case Nil
  then show ?case by simp
next
  case (Cons k' ks)
  have P': "P (step k' s)" using Cons.prems(2,5) by simp
  show ?case
  proof (cases "k \<in> set ks")
    case True
    have "fold step ks (step k' s) ! i = v"
    proof (rule Cons.IH [OF True P' Cons.prems(3)])
      fix k'' s assume "k'' \<in> set ks" "k'' \<noteq> k"
      then show "step k'' s ! i = s ! i" using Cons.prems(4) by simp
    next
      fix k'' s assume "k'' \<in> set ks" "P s"
      then show "P (step k'' s)" using Cons.prems(5) by simp
    qed
    then show ?thesis by simp
  next
    case False
    with Cons.prems(1) have k': "k' = k" by simp
    have "fold step ks (step k s) ! i = step k s ! i"
      using Cons.prems(4) False by (intro fold_frame) auto
    then show ?thesis using Cons.prems(2,3) k' by simp
  qed
qed

lemma fold_nested_product:
  "fold (\<lambda>l. fold (f l) ms) ls s = fold (\<lambda>lm. f (fst lm) (snd lm)) (List.product ls ms) s"
proof (induction ls arbitrary: s)
  case Nil
  then show ?case by simp
next
  case (Cons l ls)
  have "fold (\<lambda>lm. f (fst lm) (snd lm)) (map (Pair l) ms) s = fold (f l) ms s" for s
    by (simp add: fold_map comp_def)
  then show ?case using Cons by simp
qed

subsection \<open>The table of unit directions\<close>

lemma AngleInd_less_nang:
  assumes "l < nzeta + 2 * G" and "m < npsi + 2 * G"
  shows "m + l * (npsi + 2 * G) < nang nzeta npsi G"
proof -
  have "m + l * (npsi + 2 * G) < (npsi + 2 * G) + l * (npsi + 2 * G)" using assms(2) by simp
  also have "\<dots> = (l + 1) * (npsi + 2 * G)" by simp
  also have "\<dots> \<le> (nzeta + 2 * G) * (npsi + 2 * G)"
    using assms(1) by (intro mult_le_mono1) simp
  finally show ?thesis by (simp add: nang_def)
qed

lemma ix2_AngleInd:
  "ix2 (nang nzeta npsi G) (int p) (AngleInd npsi G (int l) (int m)) = int (nh_off nzeta npsi G p l m)"
  by (simp add: ix2_def AngleInd_def nh_off_def)

lemma nh_off_less:
  assumes "l < nzeta + 2 * G" and "m < npsi + 2 * G" and "p < 4"
  shows "nh_off nzeta npsi G p l m < 4 * nang nzeta npsi G"
proof -
  have "m + l * (npsi + 2 * G) + nang nzeta npsi G * p < nang nzeta npsi G + nang nzeta npsi G * p"
    using AngleInd_less_nang [OF assms(1,2)] by simp
  also have "\<dots> = nang nzeta npsi G * (p + 1)" by simp
  also have "\<dots> \<le> nang nzeta npsi G * 4" using assms(3) by (intro mult_le_mono2) simp
  finally show ?thesis by (simp add: nh_off_def mult.commute)
qed

lemma nh_off_inj:
  assumes "l < nzeta + 2 * G" and "m < npsi + 2 * G" and "l' < nzeta + 2 * G" and "m' < npsi + 2 * G"
    and "nh_off nzeta npsi G p l m = nh_off nzeta npsi G p' l' m'"
  shows "p = p' \<and> l = l' \<and> m = m'"
proof -
  let ?M = "npsi + 2 * G" and ?N = "nang nzeta npsi G"
  let ?a = "m + l * ?M" and ?b = "m' + l' * ?M"
  have a: "?a < ?N" and b: "?b < ?N"
    using assms by (simp_all add: AngleInd_less_nang)
  have eq: "?a + ?N * p = ?b + ?N * p'" using assms(5) by (simp add: nh_off_def)
  have N0: "?N \<noteq> 0" and M0: "?M \<noteq> 0" using a assms(2) by - arith+
  have "(?a + ?N * p) div ?N = p + ?a div ?N" "(?b + ?N * p') div ?N = p' + ?b div ?N"
    using N0 div_mult_self2 [of ?N ?a p] div_mult_self2 [of ?N ?b p'] by simp_all
  then have "(?a + ?N * p) div ?N = p" "(?b + ?N * p') div ?N = p'"
    using a b by (simp_all only: div_less add_0_right)
  then have p: "p = p'" using eq by (simp only:)
  then have ab: "?a = ?b" using eq by simp
  have "?a div ?M = l + m div ?M" "?b div ?M = l' + m' div ?M"
    using M0 div_mult_self1 [of ?M m l] div_mult_self1 [of ?M m' l'] by simp_all
  then have l: "?a div ?M = l" "?b div ?M = l'"
    using assms(2,4) by (simp_all only: div_less add_0_right)
  have m: "?a mod ?M = m" "?b mod ?M = m'"
    using assms(2,4) by simp_all
  show ?thesis using p ab l m by metis
qed

lemma length_nh_g_pure [simp]: "length (nh_g_pure nzeta npsi G l m nh) = length nh"
  by (simp add: nh_g_pure_def)

lemma nh_g_cell_pure:
  assumes "nzeta \<noteq> 1" and "l < nzeta + 2 * G" and "m < npsi + 2 * G"
    and "length nh = 4 * nang nzeta npsi G"
  shows "nh_g_cell nzeta npsi G l m nh = Inr (nh_g_pure nzeta npsi G l m nh)"
proof -
  have "nh_off nzeta npsi G p l m < length nh" if "p < 4" for p
    using nh_off_less [OF assms(2,3) that] assms(4) by simp
  then have "nh_off nzeta npsi G 0 l m < length nh" "nh_off nzeta npsi G 1 l m < length nh"
    "nh_off nzeta npsi G 2 l m < length nh" "nh_off nzeta npsi G 3 l m < length nh"
    by simp_all
  then show ?thesis
    using ix2_AngleInd [of nzeta npsi G 0 l m] ix2_AngleInd [of nzeta npsi G 1 l m]
      ix2_AngleInd [of nzeta npsi G 2 l m] ix2_AngleInd [of nzeta npsi G 3 l m] assms(1)
    by (simp add: nh_g_cell_def Let_def wr_ok nh_g_pure_def nh_val_def)
qed

lemma nh_g_pure_hit:
  assumes "l < nzeta + 2 * G" and "m < npsi + 2 * G" and "p < 4"
    and "length nh = 4 * nang nzeta npsi G"
  shows "nh_g_pure nzeta npsi G l m nh ! nh_off nzeta npsi G p l m = nh_val nzeta npsi G p l m"
proof -
  have ne: "nh_off nzeta npsi G q l m \<noteq> nh_off nzeta npsi G q' l m" if "q \<noteq> q'" for q q'
    using nh_off_inj [OF assms(1,2) assms(1,2), of q q'] that by blast
  have lt: "nh_off nzeta npsi G q l m < length nh" if "q < 4" for q
    using nh_off_less [OF assms(1,2) that] assms(4) by simp
  from assms(3) consider "p = 0" | "p = 1" | "p = 2" | "p = 3" by arith
  then show ?thesis
    by cases (simp_all add: nh_g_pure_def nth_list_update ne lt)
qed

lemma nh_g_pure_frame:
  assumes "l < nzeta + 2 * G" and "m < npsi + 2 * G" and "l' < nzeta + 2 * G" and "m' < npsi + 2 * G"
    and "(l', m') \<noteq> (l, m)"
  shows "nh_g_pure nzeta npsi G l' m' nh ! nh_off nzeta npsi G p l m = nh ! nh_off nzeta npsi G p l m"
proof -
  have "nh_off nzeta npsi G q l' m' \<noteq> nh_off nzeta npsi G p l m" for q
    using nh_off_inj [OF assms(3,4) assms(1,2), of q p] assms(5) by auto
  then show ?thesis by (simp add: nh_g_pure_def)
qed

lemma nh_g_ok:
  assumes "1 < nzeta" and "0 < npsi"
  shows "nh_g nzeta npsi G =
           Inr (fold (\<lambda>lm. nh_g_pure nzeta npsi G (fst lm) (snd lm))
                  (List.product [0 ..< nzeta + 2 * G] [0 ..< npsi + 2 * G])
                  (replicate (4 * nang nzeta npsi G) 0))"
proof -
  let ?P = "\<lambda>nh::real list. length nh = 4 * nang nzeta npsi G"
  have nz: "0 < nzeta" "nzeta \<noteq> 1" using assms(1) by simp_all
  have inner: "foldE (nh_g_cell nzeta npsi G l) [0 ..< npsi + 2 * G] nh
      = Inr (fold (nh_g_pure nzeta npsi G l) [0 ..< npsi + 2 * G] nh)
      \<and> ?P (fold (nh_g_pure nzeta npsi G l) [0 ..< npsi + 2 * G] nh)"
    if l: "l \<in> set [0 ..< nzeta + 2 * G]" and nh: "?P nh" for l nh
  proof (rule foldE_pure [where P = ?P, OF _ nh])
    fix m s assume "m \<in> set [0 ..< npsi + 2 * G]" "?P s"
    then show "nh_g_cell nzeta npsi G l m s = Inr (nh_g_pure nzeta npsi G l m s)
        \<and> ?P (nh_g_pure nzeta npsi G l m s)"
      using l nh_g_cell_pure [OF nz(2), of l G m npsi s] by simp
  qed
  have "foldE (\<lambda>l. foldE (nh_g_cell nzeta npsi G l) [0 ..< npsi + 2 * G]) [0 ..< nzeta + 2 * G]
          (replicate (4 * nang nzeta npsi G) 0)
      = Inr (fold (\<lambda>l. fold (nh_g_pure nzeta npsi G l) [0 ..< npsi + 2 * G]) [0 ..< nzeta + 2 * G]
          (replicate (4 * nang nzeta npsi G) 0))
      \<and> ?P (fold (\<lambda>l. fold (nh_g_pure nzeta npsi G l) [0 ..< npsi + 2 * G]) [0 ..< nzeta + 2 * G]
          (replicate (4 * nang nzeta npsi G) 0))"
  proof (rule foldE_pure [where P = ?P])
    show "?P (replicate (4 * nang nzeta npsi G) 0)" by simp
  qed (rule inner)
  then show ?thesis
    unfolding nh_g_def padded_range [OF nz(1)] padded_range_psi [OF assms(2)] fold_nested_product
    by simp
qed

lemma nh_g_nth:
  assumes "1 < nzeta" and "0 < npsi" and "l < nzeta + 2 * G" and "m < npsi + 2 * G" and "p < 4"
    and "nh_g nzeta npsi G = Inr nh"
  shows "nh ! nh_off nzeta npsi G p l m = nh_val nzeta npsi G p l m"
    and "length nh = 4 * nang nzeta npsi G"
proof -
  let ?ks = "List.product [0 ..< nzeta + 2 * G] [0 ..< npsi + 2 * G]"
  let ?step = "\<lambda>lm. nh_g_pure nzeta npsi G (fst lm) (snd lm)"
  have nh: "nh = fold ?step ?ks (replicate (4 * nang nzeta npsi G) 0)"
    using nh_g_ok [OF assms(1,2), of G] assms(6) by simp
  have len: "length (fold ?step ks s) = length s" for ks s
    by (induction ks arbitrary: s) simp_all
  show "length nh = 4 * nang nzeta npsi G" unfolding nh len by simp
  show "nh ! nh_off nzeta npsi G p l m = nh_val nzeta npsi G p l m"
    unfolding nh
  proof (rule fold_write_once [where k = "(l, m)" and P = "\<lambda>s. length s = 4 * nang nzeta npsi G"])
    show "(l, m) \<in> set ?ks" using assms(3,4) by simp
  next
    show "length (replicate (4 * nang nzeta npsi G) (0::real)) = 4 * nang nzeta npsi G" by simp
  next
    fix s :: "real list" assume "length s = 4 * nang nzeta npsi G"
    then show "?step (l, m) s ! nh_off nzeta npsi G p l m = nh_val nzeta npsi G p l m"
      using nh_g_pure_hit [OF assms(3,4,5)] by simp
  next
    fix k' and s :: "real list" assume "length s = 4 * nang nzeta npsi G"
    then show "length (?step k' s) = 4 * nang nzeta npsi G" by simp
  next
    fix k' s assume k': "k' \<in> set ?ks" "k' \<noteq> (l, m)"
    obtain l' m' where lm: "k' = (l', m')" by (cases k')
    with k' have "l' < nzeta + 2 * G" "m' < npsi + 2 * G" "(l', m') \<noteq> (l, m)" by simp_all
    then show "?step k' s ! nh_off nzeta npsi G p l m = s ! nh_off nzeta npsi G p l m"
      unfolding lm fst_conv snd_conv using assms(3,4) by (intro nh_g_pure_frame)
  qed
qed

text \<open>
  Claim C10. When \<open>nzeta > 1\<close> the table \<open>nh_g\<close> is built without fault, and for every angle
  bin \<open>(l, m)\<close> of the padded grid its column \<open>lm = AngleInd(l, m)\<close> is
  \<open>(1, sin zetav(l) cos psiv(m), sin zetav(l) sin psiv(m), cos zetav(l))\<close>: the time-like
  component is \<open>1\<close> and the squares of the three spatial components sum to \<open>1\<close>.
\<close>

theorem nh_g_unit_direction:
  assumes "1 < nzeta" and "0 < npsi" and "l < nzeta + 2 * G" and "m < npsi + 2 * G"
  shows "\<exists>nh. nh_g nzeta npsi G = Inr nh \<and>
           (let n = nh_col (nang nzeta npsi G) nh (nat (AngleInd npsi G (int l) (int m)))
            in n 0 = 1
             \<and> n 1 = sin (zetav nzeta G ! l) * cos (psiv npsi G ! m)
             \<and> n 2 = sin (zetav nzeta G ! l) * sin (psiv npsi G ! m)
             \<and> n 3 = cos (zetav nzeta G ! l)
             \<and> (n 1)\<^sup>2 + (n 2)\<^sup>2 + (n 3)\<^sup>2 = 1)"
proof -
  obtain nh where nh: "nh_g nzeta npsi G = Inr nh"
    using nh_g_ok [OF assms(1,2)] by blast
  let ?n = "nh_col (nang nzeta npsi G) nh (nat (AngleInd npsi G (int l) (int m)))"
  have col: "?n p = nh ! nh_off nzeta npsi G p l m" for p
  proof -
    have "AngleInd npsi G (int l) (int m) = int (m + l * (npsi + 2 * G))"
      by (simp add: AngleInd_def)
    then show ?thesis
      by (simp add: nh_col_def ix2_def nh_off_def nat_add_distrib nat_mult_distrib)
  qed
  have val: "?n p = nh_val nzeta npsi G p l m" if "p < 4" for p
    unfolding col using nh_g_nth(1) [OF assms that nh] .
  have v: "?n 0 = 1" "?n 1 = sin (zetav nzeta G ! l) * cos (psiv npsi G ! m)"
    "?n 2 = sin (zetav nzeta G ! l) * sin (psiv npsi G ! m)" "?n 3 = cos (zetav nzeta G ! l)"
    using val [of 0] val [of 1] val [of 2] val [of 3] by (simp_all add: nh_val_def)
  have "(?n 1)\<^sup>2 + (?n 2)\<^sup>2 + (?n 3)\<^sup>2 =
      (sin (zetav nzeta G ! l))\<^sup>2 * (cos (psiv npsi G ! m))\<^sup>2
        + (sin (zetav nzeta G ! l))\<^sup>2 * (sin (psiv npsi G ! m))\<^sup>2
        + (cos (zetav nzeta G ! l))\<^sup>2"
    unfolding v by (simp only: power_mult_distrib)
  also have "\<dots> = (sin (zetav nzeta G ! l))\<^sup>2 * ((cos (psiv npsi G ! m))\<^sup>2 + (sin (psiv npsi G ! m))\<^sup>2)
        + (cos (zetav nzeta G ! l))\<^sup>2"
    by (simp only: distrib_left)
  also have "\<dots> = 1" by (simp only: sin_cos_squared_add2 sin_cos_squared_add mult_1_right)
  finally show ?thesis using nh v by (simp add: Let_def)
qed

theorem nh_g_unit_direction_witness:
  "(1::nat) < 2 \<and> (0::nat) < 2 \<and> (1::nat) < 2 + 2 * 1 \<and> (2::nat) < 2 + 2 * 1 \<and>
   (\<exists>nh. nh_g 2 2 1 = Inr nh \<and>
      (let n = nh_col (nang 2 2 1) nh (nat (AngleInd 2 1 (int 1) (int 2)))
       in n 0 = 1
        \<and> n 1 = sin (zetav 2 1 ! 1) * cos (psiv 2 1 ! 2)
        \<and> n 2 = sin (zetav 2 1 ! 1) * sin (psiv 2 1 ! 2)
        \<and> n 3 = cos (zetav 2 1 ! 1)
        \<and> (n 1)\<^sup>2 + (n 2)\<^sup>2 + (n 3)\<^sup>2 = 1))"
  using nh_g_unit_direction [of 2 2 1 1 2] by simp

lemma nh_g_cell_nzeta_1:
  assumes "l < 1 + 2 * G" and "m < npsi + 2 * G" and "length nh = 4 * nang 1 npsi G"
  shows "nh_g_cell 1 npsi G l m nh =
           Inl (OutOfBounds (int m + int (nang 1 npsi G) * (int l + 4)))"
proof -
  have lt: "nh_off 1 npsi G p l m < length nh" if "p < 4" for p
    using nh_off_less [OF assms(1,2) that] assms(3) by simp
  have "4 * nang 1 npsi G \<le> m + nang 1 npsi G * (l + 4)"
    by (simp add: distrib_left)
  then have "int (4 * nang 1 npsi G) \<le> int (m + nang 1 npsi G * (l + 4))"
    by (simp only: of_nat_le_iff)
  then have "\<not> int m + int (nang 1 npsi G) * (int l + 4) < int (length nh)"
    unfolding assms(3) by simp
  then have "rd (nh[nh_off 1 npsi G 0 l m := a, nh_off 1 npsi G 1 l m := b,
                nh_off 1 npsi G 2 l m := c, nh_off 1 npsi G 3 l m := d])
              (ix3 4 (nang 1 npsi G) 1 (int l) (int m))
           = Inl (OutOfBounds (int m + int (nang 1 npsi G) * (int l + 4)))" for a b c d
    by (simp add: rd_def ix3_def)
  then show ?thesis
    using lt [of 0] lt [of 1] lt [of 2] lt [of 3]
      ix2_AngleInd [of 1 npsi G 0 l m] ix2_AngleInd [of 1 npsi G 1 l m]
      ix2_AngleInd [of 1 npsi G 2 l m] ix2_AngleInd [of 1 npsi G 3 l m]
    by (simp add: nh_g_cell_def Let_def wr_ok scale_at_def)
qed

lemma nh_g_nzeta_1:
  assumes "0 < npsi"
  shows "nh_g 1 npsi G = Inl (OutOfBounds (4 * int (nang 1 npsi G)))"
proof -
  have ls: "[0 ..< 1 + 2 * G] = 0 # [1 ..< 1 + 2 * G]"
    and ms: "[0 ..< npsi + 2 * G] = 0 # [1 ..< npsi + 2 * G]"
    using assms by (simp_all add: upt_conv_Cons)
  have "nh_g_cell 1 npsi G 0 0 (replicate (4 * nang 1 npsi G) 0)
      = Inl (OutOfBounds (4 * int (nang 1 npsi G)))"
    using assms by (subst nh_g_cell_nzeta_1) simp_all
  then show ?thesis
    unfolding nh_g_def padded_range [OF zero_less_one] padded_range_psi [OF assms] ls ms
    by simp
qed

text \<open>
  Claim C4 (the code departs from it). With \<open>nzeta = 1\<close> the two rescaling statements address
  \<open>nh_g(1, l, m)\<close> and \<open>nh_g(2, l, m)\<close>, three indices into the two-index array
  \<open>nh_g(4, nang)\<close>. Already in the first iteration \<open>l = m = 0\<close> the offset is \<open>4 * nang\<close>, one
  past the allocation; no component \<open>nh_g(1, lm)\<close> or \<open>nh_g(2, lm)\<close> is rescaled. For
  \<open>nzeta = npsi = 1\<close> and ghost width \<open>1\<close>, \<open>nang = 9\<close> and the offset is \<open>36\<close>.
\<close>

theorem nh_g_rescaling_out_of_bounds:
  "nh_g 1 1 1 = Inl (OutOfBounds 36)"
  using nh_g_nzeta_1 [of 1 1] by (simp add: nang_def)

subsection \<open>The centres next to the poles and to the origin\<close>

lemma x_cos_less_sin:
  assumes "0 < x" and "x \<le> pi"
  shows "x * cos x < sin x"
proof -
  let ?f = "\<lambda>t::real. sin t - t * cos t"
  have "?f 0 < ?f x"
  proof (rule DERIV_pos_imp_increasing_open [OF assms(1)])
    fix t :: real assume t: "0 < t" "t < x"
    have "(?f has_real_derivative (t * sin t)) (at t)"
      by (auto intro!: derivative_eq_intros)
    moreover have "0 < t * sin t"
      using t assms(2) by (intro mult_pos_pos sin_gt_zero) simp_all
    ultimately show "\<exists>y. (?f has_real_derivative y) (at t) \<and> 0 < y" by blast
  next
    show "continuous_on {0..x} ?f" by (intro continuous_intros)
  qed
  then show ?thesis by simp
qed

lemma cos_less_one:
  assumes "0 < x" and "x \<le> pi"
  shows "cos x < 1"
  using cos_monotone_0_pi [of 0 x] assms by simp

lemma zeta_vol_north_ghost:
  assumes "0 < a" and "a \<le> pi"
  shows "zeta_vol (- a) 0 < 0"
proof -
  have "zeta_vol (- a) 0 = (a * cos a - sin a) / (1 - cos a)"
    by (simp add: zeta_vol_def)
  moreover have "a * cos a - sin a < 0" using x_cos_less_sin [OF assms] by simp
  moreover have "0 < 1 - cos a" using cos_less_one [OF assms] by simp
  ultimately show ?thesis by (simp add: divide_neg_pos)
qed

lemma zeta_vol_south_ghost:
  assumes "0 \<le> b" and "b < pi"
  shows "pi < zeta_vol pi (2 * pi - b)"
proof -
  let ?c = "pi - b"
  have c: "0 < ?c" "?c \<le> pi" using assms by simp_all
  have den: "0 < cos b + 1"
    using cos_less_one [OF c] by simp
  have "?c * cos ?c < sin ?c" by (rule x_cos_less_sin [OF c])
  then have "0 < (pi - b) * cos b + sin b" by simp
  then have "pi * (cos b + 1) < (2 * pi - b) * cos b + sin b + pi"
    by (simp add: algebra_simps)
  then have "pi < ((2 * pi - b) * cos b + sin b + pi) / (cos b + 1)"
    using den by (simp add: pos_less_divide_eq)
  moreover have "zeta_vol pi (2 * pi - b) = ((2 * pi - b) * cos b + sin b + pi) / (cos b + 1)"
    by (simp add: zeta_vol_def)
  ultimately show ?thesis by simp
qed

lemma length_zetav [simp]: "length (zetav nzeta G) = nzeta + 2 * G"
  by (simp add: zetav_def zetav_step_def [abs_def] length_fold_upd)

lemma length_dzetaf [simp]: "length (dzetaf nzeta G) = nzeta + 2 * G"
  by (simp add: dzetaf_def dzetaf_step_def [abs_def] length_fold_upd)

lemma length_psiv [simp]: "length (psiv npsi G) = npsi + 2 * G"
  by (simp add: psiv_def psiv_step_def [abs_def] length_fold_upd)

lemma length_dpsif [simp]: "length (dpsif npsi G) = npsi + 2 * G"
  by (simp add: dpsif_def dpsif_step_def [abs_def] length_fold_upd)

lemma zetav_north_ghost:
  assumes "0 < G" and "G \<le> nzeta"
  shows "zetav nzeta G ! (G - 1) < 0"
proof -
  have nz: "0 < nzeta" using assms by simp
  have "zetaf nzeta G ! (G - 1) = - zface nzeta 1" "zetaf nzeta G ! G = 0"
    using assms zetaf_nth [OF nz assms(2), of "G - 1"] zetaf_nth [OF nz assms(2), of G]
    by simp_all
  moreover have "G - 1 + 1 = G" using assms(1) by simp
  ultimately have "zetav nzeta G ! (G - 1) = zeta_vol (- zface nzeta 1) 0"
    using zetav_nth [OF nz, of "G - 1" G] assms(1) by simp
  moreover have "0 < zface nzeta 1" "zface nzeta 1 \<le> pi"
    using zface_pos [OF nz, of 1] zface_bounds(2) [OF nz, of 1] nz by simp_all
  ultimately show ?thesis using zeta_vol_north_ghost by simp
qed

lemma zetav_south_ghost:
  assumes "0 < G" and "G \<le> nzeta"
  shows "pi < zetav nzeta G ! (nzeta + G)"
proof -
  have nz: "0 < nzeta" using assms by simp
  have "2 * nzeta + G - (nzeta + G + 1) = nzeta - 1" using nz by simp
  then have "zetaf nzeta G ! (nzeta + G) = pi"
    "zetaf nzeta G ! (nzeta + G + 1) = 2 * pi - zface nzeta (nzeta - 1)"
    using assms zetaf_nth [OF nz assms(2), of "nzeta + G"]
      zetaf_nth [OF nz assms(2), of "nzeta + G + 1"] nz
    by simp_all
  then have "zetav nzeta G ! (nzeta + G) = zeta_vol pi (2 * pi - zface nzeta (nzeta - 1))"
    using zetav_nth [OF nz, of "nzeta + G" G] assms(1) by simp
  moreover have "0 \<le> zface nzeta (nzeta - 1)" "zface nzeta (nzeta - 1) < pi"
    using zface_bounds(1) [OF nz, of "nzeta - 1"] zface_less_pi [OF nz, of "nzeta - 1"] nz
    by simp_all
  ultimately show ?thesis using zeta_vol_south_ghost by simp
qed

lemma dzetaf_pos:
  assumes "0 < nzeta" and "G \<le> nzeta" and "l < nzeta + 2 * G"
  shows "0 < dzetaf nzeta G ! l"
  using dzetaf_nth [OF assms(1,3)] zetaf_less [OF assms(1,2), of l "l + 1"] assms(3) by simp

lemma psif_step:
  assumes "0 < npsi" and "G \<le> npsi" and "m < npsi + 2 * G"
  shows "psif npsi G ! (m + 1) - psif npsi G ! m = dpsi npsi"
proof -
  have np: "real npsi * dpsi npsi = 2 * pi" using assms(1) by (simp add: dpsi_def)
  consider (a) "m + 1 < G" | (b) "m + 1 = G" | (c) "G \<le> m" "m < npsi + G"
    | (d) "m = npsi + G" | (e) "npsi + G < m"
    by arith
  then show ?thesis
  proof cases
    case a
    then have "real (npsi + (m + 1) - G) = real (npsi + m - G) + 1"
      using assms by (simp add: of_nat_diff)
    then show ?thesis
      using a assms psif_nth [OF assms(1,2), of m] psif_nth [OF assms(1,2), of "m + 1"]
      by (simp add: algebra_simps)
  next
    case b
    then have "real (npsi + m - G) = real npsi - 1"
      using assms by (simp add: of_nat_diff)
    then have pm: "psif npsi G ! m = (real npsi - 1) * dpsi npsi - 2 * pi"
      using b assms psif_nth [OF assms(1,2), of m] by simp
    have pG: "psif npsi G ! (m + 1) = 0"
      using b assms psif_nth [OF assms(1,2), of "m + 1"] by simp
    show ?thesis unfolding pm pG using np by (simp add: algebra_simps)
  next
    case c
    then have "real (m + 1 - G) = real (m - G) + 1"
      by (simp add: of_nat_diff)
    then show ?thesis
      using c assms psif_nth [OF assms(1,2), of m] psif_nth [OF assms(1,2), of "m + 1"]
      by (simp add: algebra_simps)
  next
    case d
    then show ?thesis
      using assms psif_nth [OF assms(1,2), of m] psif_nth [OF assms(1,2), of "m + 1"] np
      by (simp add: algebra_simps)
  next
    case e
    then have "real (m + 1 - npsi - G) = real (m - npsi - G) + 1"
      by (simp add: of_nat_diff)
    then show ?thesis
      using e assms psif_nth [OF assms(1,2), of m] psif_nth [OF assms(1,2), of "m + 1"]
      by (simp add: algebra_simps)
  qed
qed

lemma dpsi_pos: "0 < npsi \<Longrightarrow> 0 < dpsi npsi"
  by (simp add: dpsi_def)

lemma dpsif_eq:
  assumes "0 < npsi" and "G \<le> npsi" and "m < npsi + 2 * G"
  shows "dpsif npsi G ! m = dpsi npsi"
  using dpsif_nth [OF assms(1,3)] psif_step [OF assms] by simp

lemma psiv_step:
  assumes "0 < npsi" and "G \<le> npsi" and "m + 1 < npsi + 2 * G"
  shows "psiv npsi G ! (m + 1) = psiv npsi G ! m + dpsi npsi"
proof -
  have "m < npsi + 2 * G" using assms(3) by simp
  then show ?thesis
    using psiv_nth [OF assms(1), of m G] psiv_nth [OF assms(1,3)]
      psif_step [OF assms(1,2), of m] psif_step [OF assms(1,2,3)]
    by (simp add: algebra_simps)
qed

lemma psiv_origin_ghost:
  assumes "0 < npsi" and "G \<le> npsi" and "0 < G"
  shows "psiv npsi G ! (G - 1) < 0"
proof -
  have G1: "G - 1 + 1 = G" "G - 1 < npsi + 2 * G" using assms by - arith+
  have "psif npsi G ! G - psif npsi G ! (G - 1) = dpsi npsi"
    using psif_step [OF assms(1,2) G1(2)] G1(1) by simp
  moreover have "psif npsi G ! G = 0"
    using psif_nth [OF assms(1,2), of G] by simp
  ultimately have "psif npsi G ! (G - 1) = - dpsi npsi" by simp
  then have "psiv npsi G ! (G - 1) = - (dpsi npsi / 2)"
    using psiv_nth [OF assms(1) G1(2)] G1(1) \<open>psif npsi G ! G = 0\<close> by simp
  then show ?thesis using dpsi_pos [OF assms(1)] by simp
qed

lemma psiv_end_ghost:
  assumes "0 < npsi" and "G \<le> npsi" and "0 < G"
  shows "2 * pi < psiv npsi G ! (npsi + G)"
proof -
  have "psif npsi G ! (npsi + G + 1) - psif npsi G ! (npsi + G) = dpsi npsi"
    using psif_step [OF assms(1,2), of "npsi + G"] assms(3) by simp
  moreover have "psif npsi G ! (npsi + G) = 2 * pi"
    using psif_nth [OF assms(1,2), of "npsi + G"] assms(1) by (simp add: dpsi_def)
  ultimately have "psiv npsi G ! (npsi + G) = 2 * pi + dpsi npsi / 2"
    using psiv_nth [OF assms(1), of "npsi + G" G] assms(3) by simp
  then show ?thesis using dpsi_pos [OF assms(1)] by simp
qed

subsection \<open>The bracket search\<close>

lemma bracket_spec:
  assumes "0 \<le> lo" and "hi < int (length xs)" and "lo \<le> hi + 1"
  shows "\<exists>l. bracket xs a lo hi = Inr l \<and> lo \<le> l \<and> l \<le> hi + 1
           \<and> (l \<le> hi \<longrightarrow> gt_nan (xs ! nat l) a)
           \<and> (\<forall>k. lo \<le> k \<and> k < l \<longrightarrow> \<not> gt_nan (xs ! nat k) a)"
  using assms
proof (induction xs a lo hi rule: bracket.induct)
  case (1 xs a l hi)
  show ?case
  proof (cases "l \<le> hi")
    case False
    then have "bracket xs a l hi = Inr l" by (subst bracket.simps) simp
    then show ?thesis using False "1.prems" by auto
  next
    case True
    then have rd: "rd xs l = Inr (xs ! nat l)" using "1.prems" by (simp add: rd_ok)
    show ?thesis
    proof (cases "gt_nan (xs ! nat l) a")
      case gt: True
      then have "bracket xs a l hi = Inr l" using True rd by (subst bracket.simps) simp
      then show ?thesis using gt True by auto
    next
      case ngt: False
      have eq: "bracket xs a l hi = bracket xs a (l + 1) hi"
        using True rd ngt by (subst bracket.simps) simp
      obtain r where r: "bracket xs a (l + 1) hi = Inr r" "l + 1 \<le> r" "r \<le> hi + 1"
        "r \<le> hi \<longrightarrow> gt_nan (xs ! nat r) a"
        "\<forall>k. l + 1 \<le> k \<and> k < r \<longrightarrow> \<not> gt_nan (xs ! nat k) a"
        using "1.IH" [OF True rd ngt] "1.prems" True by auto
      have "\<not> gt_nan (xs ! nat k) a" if "l \<le> k \<and> k < r" for k
      proof (cases "k = l")
        case True
        then show ?thesis using ngt by simp
      next
        case False
        then show ?thesis using that r(5) by simp
      qed
      then show ?thesis using r eq by auto
    qed
  qed
qed

lemma bracket_nan:
  assumes "0 \<le> lo" and "hi < int (length xs)" and "lo \<le> hi + 1"
  shows "bracket xs None lo hi = Inr (hi + 1)"
proof -
  obtain l where l: "bracket xs None lo hi = Inr l" "l \<le> hi + 1"
    "l \<le> hi \<longrightarrow> gt_nan (xs ! nat l) None"
    using bracket_spec [OF assms, of None] by blast
  then have "l = hi + 1" by (auto simp: gt_nan_def)
  then show ?thesis using l(1) by simp
qed

lemma bracket_found:
  assumes "0 \<le> lo" and "hi < int (length xs)" and "lo \<le> hi"
    and "xs ! nat lo \<le> z" and "z < xs ! nat hi"
  obtains l where "bracket xs (Some z) lo hi = Inr l" and "lo < l" and "l \<le> hi"
    and "xs ! nat (l - 1) \<le> z" and "z < xs ! nat l"
proof -
  have "lo \<le> hi + 1" using assms(3) by simp
  then obtain l where l: "bracket xs (Some z) lo hi = Inr l" "lo \<le> l" "l \<le> hi + 1"
    "l \<le> hi \<longrightarrow> gt_nan (xs ! nat l) (Some z)"
    "\<forall>k. lo \<le> k \<and> k < l \<longrightarrow> \<not> gt_nan (xs ! nat k) (Some z)"
    using bracket_spec [OF assms(1,2), of "Some z"] by blast
  have "l \<noteq> lo" using l(3,4) assms(3,4) by (auto simp: gt_nan_def)
  then have lo: "lo < l" using l(2) by simp
  have "l \<le> hi"
  proof (rule ccontr)
    assume "\<not> l \<le> hi"
    then have "lo \<le> hi \<and> hi < l" using assms(3) by simp
    then have "\<not> gt_nan (xs ! nat hi) (Some z)" using l(5) by blast
    then show False using assms(5) by (simp add: gt_nan_def)
  qed
  moreover have "\<not> gt_nan (xs ! nat (l - 1)) (Some z)" using l(5) lo by simp
  ultimately show ?thesis using that l(1,4) lo by (simp add: gt_nan_def not_less)
qed

subsection \<open>The two angles of a transformed direction\<close>

lemma atan2_range: "- pi < atan2 y x \<and> atan2 y x \<le> pi"
proof -
  have a: "- (pi / 2) < arctan (y / x)" "arctan (y / x) < pi / 2"
    using arctan_lbound [of "y / x"] arctan_ubound [of "y / x"] by - assumption+
  consider "0 < x" | "x < 0" "0 \<le> y" | "x < 0" "y < 0" | "x = 0"
    by arith
  then show ?thesis
  proof cases
    case 1
    then show ?thesis using a by (simp add: atan2_def)
  next
    case 2
    then have "y / x \<le> 0" by (simp add: divide_nonneg_neg)
    then have "arctan (y / x) \<le> 0" using arctan_le_zero_iff by blast
    then show ?thesis using a 2 by (simp add: atan2_def)
  next
    case 3
    then have "0 < y / x" by (simp add: divide_neg_neg)
    then have "0 < arctan (y / x)" using zero_less_arctan_iff by blast
    then show ?thesis using a 3 by (simp add: atan2_def)
  next
    case 4
    then show ?thesis using pi_gt_zero by (auto simp: atan2_def intro: order_trans [of _ 0])
  qed
qed

lemma psi_wrap_range: "0 \<le> psi_wrap (atan2 y x) \<and> psi_wrap (atan2 y x) < 2 * pi"
  using atan2_range [of y x] pi_gt_zero by (auto simp: psi_wrap_def)

lemma psi_a_of_range: "0 \<le> psi_a_of nha \<and> psi_a_of nha < 2 * pi"
  unfolding psi_a_of_def by (rule psi_wrap_range)

lemma zeta_a_of_Some:
  assumes "nha 0 \<noteq> 0" and "- 1 \<le> nha 3 / nha 0" and "nha 3 / nha 0 \<le> 1"
  shows "zeta_a_of nha = Some (arccos (nha 3 / nha 0))"
    and "0 \<le> arccos (nha 3 / nha 0)" and "arccos (nha 3 / nha 0) \<le> pi"
  using assms by (simp_all add: zeta_a_of_def acos_quot_def arccos_lbound arccos_ubound)

lemma zeta_a_of_None: "nha 0 = 0 \<Longrightarrow> zeta_a_of nha = None"
  by (simp add: zeta_a_of_def acos_quot_def)

lemma zeta_a_of_range: "zeta_a_of nha = Some z \<Longrightarrow> 0 \<le> z \<and> z \<le> pi"
  by (auto simp: zeta_a_of_def acos_quot_def arccos_lbound arccos_ubound split: if_splits)

subsection \<open>Entries of the tables\<close>

lemma frac_of_Some:
  assumes "0 \<le> l" and "l < int (length xs)" and "l < int (length dxs)"
  shows "frac_of xs dxs (Some z) l =
           Inr (if dxs ! nat l = 0 then None else Some ((z - xs ! nat l) / dxs ! nat l))"
  using assms by (simp add: frac_of_def rd_ok)

lemma frac_of_None:
  assumes "0 \<le> l" and "l < int (length xs)" and "l < int (length dxs)"
  shows "frac_of xs dxs None l = Inr None"
  using assms by (simp add: frac_of_def rd_ok)

lemma weights_None [simp]: "weights None fm = [None, None, None, None]"
  by (simp add: weights_def mul_nan_def one_minus_def)

lemma weights_Some:
  "weights (Some fl) (Some fm) =
     [Some ((1 - fl) * (1 - fm)), Some ((1 - fl) * fm), Some (fl * (1 - fm)), Some (fl * fm)]"
  by (simp add: weights_def mul_nan_def one_minus_def)

lemma ze_plus: "0 < nzeta \<Longrightarrow> int (ze nzeta G) + 1 = int (nzeta + G)"
  by (simp add: ze_def)

lemma pe_plus: "0 < npsi \<Longrightarrow> int (pe npsi G) + 1 = int (npsi + G)"
  by (simp add: pe_def)

text \<open>The azimuthal search and fraction, for an angle in \<open>[0, 2 pi)\<close>.\<close>

lemma psi_bracket:
  assumes "0 < G" and "G \<le> npsi" and "0 \<le> psi" and "psi < 2 * pi"
  obtains m_a fm where
    "bracket (psiv npsi G) (Some psi) (int (ps G) - 1) (int (pe npsi G) + 1) = Inr m_a"
    and "int G \<le> m_a" and "m_a \<le> int (npsi + G)"
    and "frac_of (psiv npsi G) (dpsif npsi G) (Some psi) (m_a - 1) = Inr (Some fm)"
    and "fm = (psi - psiv npsi G ! nat (m_a - 1)) / dpsi npsi"
    and "0 \<le> fm" and "fm < 1"
proof -
  have np: "0 < npsi" using assms by simp
  have lo: "nat (int (ps G) - 1) = G - 1" "0 \<le> int (ps G) - 1" using assms(1) by (simp_all add: ps_def)
  have hi: "nat (int (pe npsi G) + 1) = npsi + G" "int (pe npsi G) + 1 = int (npsi + G)"
    using np by (simp_all add: pe_def)
  have D: "psiv npsi G ! nat (int (ps G) - 1) \<le> psi"
    unfolding lo(1) using psiv_origin_ghost [OF np assms(2,1)] assms(3) by simp
  have E: "psi < psiv npsi G ! nat (int (pe npsi G) + 1)"
    unfolding hi(1) using psiv_end_ghost [OF np assms(2,1)] assms(4) by simp
  have B: "int (pe npsi G) + 1 < int (length (psiv npsi G))"
    using assms(1) by (simp add: hi)
  have C: "int (ps G) - 1 \<le> int (pe npsi G) + 1" by (simp add: hi ps_def)
  obtain m where m: "bracket (psiv npsi G) (Some psi) (int (ps G) - 1) (int (pe npsi G) + 1) = Inr m"
    "int (ps G) - 1 < m" "m \<le> int (pe npsi G) + 1"
    "psiv npsi G ! nat (m - 1) \<le> psi" "psi < psiv npsi G ! nat m"
    by (rule bracket_found [OF lo(2) B C D E]) blast
  have mG: "int G \<le> m" "m \<le> int (npsi + G)" using m(2,3) hi(2) by (simp_all add: ps_def)
  have rng: "nat (m - 1) < npsi + 2 * G" "nat (m - 1) + 1 < npsi + 2 * G" "nat (m - 1) + 1 = nat m"
    using mG assms(1) by - arith+
  define fm where "fm = (psi - psiv npsi G ! nat (m - 1)) / dpsi npsi"
  have d: "dpsif npsi G ! nat (m - 1) = dpsi npsi"
    by (rule dpsif_eq [OF np assms(2) rng(1)])
  have dp: "0 < dpsi npsi" by (rule dpsi_pos [OF np])
  have fr: "frac_of (psiv npsi G) (dpsif npsi G) (Some psi) (m - 1) = Inr (Some fm)"
    using mG assms(1) d dp by (subst frac_of_Some) (simp_all add: fm_def)
  have "psiv npsi G ! nat m = psiv npsi G ! nat (m - 1) + dpsi npsi"
    using psiv_step [OF np assms(2) rng(2)] rng(3) by simp
  then have "psi - psiv npsi G ! nat (m - 1) < dpsi npsi" using m(5) by simp
  then have "fm < 1" using dp by (simp add: fm_def)
  moreover have "0 \<le> fm" using m(4) dp by (simp add: fm_def)
  ultimately show ?thesis using that m(1) mG fr fm_def by blast
qed

text \<open>The polar search and fraction, for an angle in \<open>[0, pi]\<close>.\<close>

lemma zeta_bracket:
  assumes "0 < G" and "G \<le> nzeta" and "0 \<le> z" and "z \<le> pi"
  obtains l_a fl where
    "bracket (zetav nzeta G) (Some z) (int (zs G) - 1) (int (ze nzeta G) + 1) = Inr l_a"
    and "int G \<le> l_a" and "l_a \<le> int (nzeta + G)"
    and "frac_of (zetav nzeta G) (dzetaf nzeta G) (Some z) (l_a - 1) = Inr (Some fl)"
    and "fl = (z - zetav nzeta G ! nat (l_a - 1)) / dzetaf nzeta G ! nat (l_a - 1)"
    and "0 \<le> fl"
proof -
  have nz: "0 < nzeta" using assms by simp
  have lo: "nat (int (zs G) - 1) = G - 1" "0 \<le> int (zs G) - 1" using assms(1) by (simp_all add: zs_def)
  have hi: "nat (int (ze nzeta G) + 1) = nzeta + G" "int (ze nzeta G) + 1 = int (nzeta + G)"
    using nz by (simp_all add: ze_def)
  have D: "zetav nzeta G ! nat (int (zs G) - 1) \<le> z"
    unfolding lo(1) using zetav_north_ghost [OF assms(1,2)] assms(3) by simp
  have E: "z < zetav nzeta G ! nat (int (ze nzeta G) + 1)"
    unfolding hi(1) using zetav_south_ghost [OF assms(1,2)] assms(4) by simp
  have B: "int (ze nzeta G) + 1 < int (length (zetav nzeta G))"
    using assms(1) by (simp add: hi)
  have C: "int (zs G) - 1 \<le> int (ze nzeta G) + 1" by (simp add: hi zs_def)
  obtain l where l: "bracket (zetav nzeta G) (Some z) (int (zs G) - 1) (int (ze nzeta G) + 1) = Inr l"
    "int (zs G) - 1 < l" "l \<le> int (ze nzeta G) + 1"
    "zetav nzeta G ! nat (l - 1) \<le> z"
    by (rule bracket_found [OF lo(2) B C D E]) blast
  have lG: "int G \<le> l" "l \<le> int (nzeta + G)" using l(2,3) hi(2) by (simp_all add: zs_def)
  have rng: "nat (l - 1) < nzeta + 2 * G"
    using lG assms(1) by arith
  define fl where "fl = (z - zetav nzeta G ! nat (l - 1)) / dzetaf nzeta G ! nat (l - 1)"
  have dp: "0 < dzetaf nzeta G ! nat (l - 1)"
    by (rule dzetaf_pos [OF nz assms(2) rng])
  have fr: "frac_of (zetav nzeta G) (dzetaf nzeta G) (Some z) (l - 1) = Inr (Some fl)"
    using lG assms(1) dp by (subst frac_of_Some) (simp_all add: fl_def)
  have "0 \<le> fl" using l(4) dp by (simp add: fl_def)
  then show ?thesis using that l(1) lG fr fl_def by blast
qed

lemma zeta_bracket_nan:
  assumes "0 < G" and "0 < nzeta"
  shows "bracket (zetav nzeta G) None (int (zs G) - 1) (int (ze nzeta G) + 1)
           = Inr (int (ze nzeta G) + 2)"
    and "frac_of (zetav nzeta G) (dzetaf nzeta G) None (int (ze nzeta G) + 2 - 1) = Inr None"
proof -
  have "bracket (zetav nzeta G) None (int (zs G) - 1) (int (ze nzeta G) + 1)
           = Inr (int (ze nzeta G) + 1 + 1)"
    using assms by (intro bracket_nan) (simp_all add: zs_def ze_def)
  then show "bracket (zetav nzeta G) None (int (zs G) - 1) (int (ze nzeta G) + 1)
           = Inr (int (ze nzeta G) + 2)" by simp
  show "frac_of (zetav nzeta G) (dzetaf nzeta G) None (int (ze nzeta G) + 2 - 1) = Inr None"
    using assms by (intro frac_of_None) (simp_all add: ze_def)
qed

lemma targets_valid:
  assumes "0 < G" and "int G \<le> l_a" and "l_a \<le> int (nzeta + G)"
    and "int G \<le> m_a" and "m_a \<le> int (npsi + G)"
  shows "\<forall>t \<in> set (targets npsi G l_a m_a). 0 \<le> t \<and> t < int (nang nzeta npsi G)"
proof -
  have ok: "0 \<le> AngleInd npsi G l m \<and> AngleInd npsi G l m < int (nang nzeta npsi G)"
    if "0 \<le> l" "l < int (nzeta + 2 * G)" "0 \<le> m" "m < int (npsi + 2 * G)" for l m
  proof -
    have "nat m + nat l * (npsi + 2 * G) < nang nzeta npsi G"
      using that by (intro AngleInd_less_nang) simp_all
    then have "int (nat m + nat l * (npsi + 2 * G)) < int (nang nzeta npsi G)"
      by (simp only: of_nat_less_iff)
    moreover have "int (nat m + nat l * (npsi + 2 * G)) = AngleInd npsi G l m"
      using that by (simp add: AngleInd_def)
    ultimately show ?thesis by (metis of_nat_0_le_iff)
  qed
  have "0 \<le> l_a - 1" "l_a - 1 < int (nzeta + 2 * G)" "0 \<le> l_a" "l_a < int (nzeta + 2 * G)"
    "0 \<le> m_a - 1" "m_a - 1 < int (npsi + 2 * G)" "0 \<le> m_a" "m_a < int (npsi + 2 * G)"
    using assms by simp_all
  then show ?thesis by (simp add: targets_def ok)
qed

lemma entry_of_angles_valid:
  assumes "0 < G" and "G \<le> nzeta" and "G \<le> npsi"
    and "0 \<le> z" and "z \<le> pi" and "0 \<le> psi" and "psi < 2 * pi"
  obtains l_a m_a fl fm where
    "entry_of_angles nzeta npsi G (Some z) psi =
       Inr \<lparr>ind = targets npsi G l_a m_a, frac = weights (Some fl) (Some fm)\<rparr>"
    and "int G \<le> l_a" and "l_a \<le> int (nzeta + G)"
    and "int G \<le> m_a" and "m_a \<le> int (npsi + G)"
    and "fl = (z - zetav nzeta G ! nat (l_a - 1)) / dzetaf nzeta G ! nat (l_a - 1)"
    and "fm = (psi - psiv npsi G ! nat (m_a - 1)) / dpsi npsi"
    and "0 \<le> fl" and "0 \<le> fm" and "fm < 1"
proof -
  obtain l_a fl where l: "bracket (zetav nzeta G) (Some z) (int (zs G) - 1) (int (ze nzeta G) + 1) = Inr l_a"
    "int G \<le> l_a" "l_a \<le> int (nzeta + G)"
    "frac_of (zetav nzeta G) (dzetaf nzeta G) (Some z) (l_a - 1) = Inr (Some fl)"
    "fl = (z - zetav nzeta G ! nat (l_a - 1)) / dzetaf nzeta G ! nat (l_a - 1)" "0 \<le> fl"
    using zeta_bracket [OF assms(1,2,4,5)] by metis
  obtain m_a fm where m: "bracket (psiv npsi G) (Some psi) (int (ps G) - 1) (int (pe npsi G) + 1) = Inr m_a"
    "int G \<le> m_a" "m_a \<le> int (npsi + G)"
    "frac_of (psiv npsi G) (dpsif npsi G) (Some psi) (m_a - 1) = Inr (Some fm)"
    "fm = (psi - psiv npsi G ! nat (m_a - 1)) / dpsi npsi" "0 \<le> fm" "fm < 1"
    using psi_bracket [OF assms(1,3,6,7)] by metis
  have "entry_of_angles nzeta npsi G (Some z) psi =
       Inr \<lparr>ind = targets npsi G l_a m_a, frac = weights (Some fl) (Some fm)\<rparr>"
    by (simp add: entry_of_angles_def l(1,4) m(1,4))
  then show ?thesis using that l m by blast
qed

lemma entry_of_angles_nan:
  assumes "0 < G" and "0 < nzeta" and "G \<le> npsi" and "0 \<le> psi" and "psi < 2 * pi"
  obtains m_a where
    "entry_of_angles nzeta npsi G None psi =
       Inr \<lparr>ind = targets npsi G (int (ze nzeta G) + 2) m_a, frac = [None, None, None, None]\<rparr>"
    and "int G \<le> m_a" and "m_a \<le> int (npsi + G)"
proof -
  obtain m_a fm where m: "bracket (psiv npsi G) (Some psi) (int (ps G) - 1) (int (pe npsi G) + 1) = Inr m_a"
    "int G \<le> m_a" "m_a \<le> int (npsi + G)"
    "frac_of (psiv npsi G) (dpsif npsi G) (Some psi) (m_a - 1) = Inr (Some fm)"
    using psi_bracket [OF assms(1,3,4,5)] by metis
  have "entry_of_angles nzeta npsi G None psi =
       Inr \<lparr>ind = targets npsi G (int (ze nzeta G) + 2) m_a, frac = [None, None, None, None]\<rparr>"
    using zeta_bracket_nan [OF assms(1,2)] by (simp add: entry_of_angles_def m(1,4))
  then show ?thesis using that m by blast
qed

subsection \<open>Evaluation on the grid with \<open>nzeta = 2\<close>, \<open>npsi = 2\<close> and one ghost layer\<close>

lemma n_g_of_sum:
  "n_g_of eg nh n = eg 0 n * nh 0 + eg 1 n * nh 1 + eg 2 n * nh 2 + eg 3 n * nh 3"
  by (simp add: n_g_of_def numeral_eq_Suc)

lemma nh_a_of_sum:
  "nh_a_of ecova na n =
     (if n = 0 then - (ecova n 0 * na 0 + ecova n 1 * na 1 + ecova n 2 * na 2 + ecova n 3 * na 3)
      else ecova n 0 * na 0 + ecova n 1 * na 1 + ecova n 2 * na 2 + ecova n 3 * na 3)"
  by (simp add: nh_a_of_def numeral_eq_Suc Let_def)

lemma nh_a_vec_zero4 [simp]: "nh_a_vec eg zero4 flips nh n = 0"
  by (simp add: nh_a_vec_def nh_a_of_sum zero4_def)

lemma bracket_stop:
  assumes "0 \<le> l" and "l \<le> hi" and "l < int (length xs)" and "z < xs ! nat l"
  shows "bracket xs (Some z) l hi = Inr l"
  using assms by (subst bracket.simps) (simp add: rd_ok gt_nan_def)

lemma bracket_skip:
  assumes "0 \<le> l" and "l \<le> hi" and "l < int (length xs)" and "xs ! nat l \<le> z"
  shows "bracket xs (Some z) l hi = bracket xs (Some z) (l + 1) hi"
  using assms by (subst bracket.simps) (simp add: rd_ok gt_nan_def)

lemma zface_2: "zface 2 0 = 0" "zface 2 (Suc 0) = pi / 2" "zface 2 2 = pi"
  using zface_half [of 1] zface_top [of 2] by simp_all

lemma zetaf_2_1:
  "zetaf 2 (Suc 0) ! 0 = - (pi / 2)" "zetaf 2 (Suc 0) ! Suc 0 = 0" "zetaf 2 (Suc 0) ! 2 = pi / 2"
  using zetaf_nth [of 2 1 0] zetaf_nth [of 2 1 1] zetaf_nth [of 2 1 2]
  by (simp_all add: zface_2)

lemma zetav_2_1: "zetav 2 (Suc 0) ! 0 = - 1" "zetav 2 (Suc 0) ! Suc 0 = 1"
proof -
  have "zetav 2 (Suc 0) ! 0 = zeta_vol (zetaf 2 (Suc 0) ! 0) (zetaf 2 (Suc 0) ! Suc 0)"
    using zetav_nth [of 2 0 1] by simp
  then show "zetav 2 (Suc 0) ! 0 = - 1" by (simp add: zetaf_2_1 zeta_vol_def)
  have "zetav 2 (Suc 0) ! Suc 0 = zeta_vol (zetaf 2 (Suc 0) ! Suc 0) (zetaf 2 (Suc 0) ! 2)"
    using zetav_nth [of 2 1 1] by (simp add: numeral_2_eq_2)
  then show "zetav 2 (Suc 0) ! Suc 0 = 1" by (simp add: zetaf_2_1 zeta_vol_def)
qed

lemma dzetaf_2_1: "dzetaf 2 (Suc 0) ! 0 = pi / 2"
  using dzetaf_nth [of 2 0 1] by (simp add: zetaf_2_1)

lemma psif_2_1: "psif 2 (Suc 0) ! 0 = - pi" "psif 2 (Suc 0) ! Suc 0 = 0" "psif 2 (Suc 0) ! 2 = pi"
  "psif 2 (Suc 0) ! 3 = 2 * pi"
  using psif_nth [of 2 1 0] psif_nth [of 2 1 1] psif_nth [of 2 1 2] psif_nth [of 2 1 3]
  by (simp_all add: dpsi_def)

lemma psiv_2_1: "psiv 2 (Suc 0) ! 0 = - (pi / 2)" "psiv 2 (Suc 0) ! Suc 0 = pi / 2"
  "psiv 2 (Suc 0) ! 2 = 3 * pi / 2"
proof -
  have "psiv 2 (Suc 0) ! 0 = 0.5 * (psif 2 (Suc 0) ! 0 + psif 2 (Suc 0) ! Suc 0)"
    using psiv_nth [of 2 0 1] by simp
  then show "psiv 2 (Suc 0) ! 0 = - (pi / 2)" by (simp add: psif_2_1)
  have "psiv 2 (Suc 0) ! Suc 0 = 0.5 * (psif 2 (Suc 0) ! Suc 0 + psif 2 (Suc 0) ! 2)"
    using psiv_nth [of 2 1 1] by (simp add: numeral_2_eq_2)
  then show "psiv 2 (Suc 0) ! Suc 0 = pi / 2" by (simp add: psif_2_1)
  have "psiv 2 (Suc 0) ! 2 = 0.5 * (psif 2 (Suc 0) ! 2 + psif 2 (Suc 0) ! 3)"
    using psiv_nth [of 2 2 1] by (simp add: numeral_3_eq_3)
  then show "psiv 2 (Suc 0) ! 2 = 3 * pi / 2" by (simp add: psif_2_1)
qed

lemma dpsif_2_1: "dpsif 2 (Suc 0) ! 0 = pi" "dpsif 2 (Suc 0) ! Suc 0 = pi"
  using dpsif_eq [of 2 1 0] dpsif_eq [of 2 1 1] by (simp_all add: dpsi_def)

lemma bounds_2_1: "int (zs (Suc 0)) - 1 = 0" "int (ze 2 (Suc 0)) + 1 = 3"
  "int (ps (Suc 0)) - 1 = 0" "int (pe 2 (Suc 0)) + 1 = 3" "int (ze 2 (Suc 0)) + 2 = 4"
  by (simp_all add: zs_def ze_def ps_def pe_def)

lemma psi_bracket_at_0: "bracket (psiv 2 (Suc 0)) (Some 0) 0 3 = Inr 1"
proof -
  have "bracket (psiv 2 (Suc 0)) (Some 0) 0 3 = bracket (psiv 2 (Suc 0)) (Some 0) (0 + 1) 3"
    by (rule bracket_skip) (simp_all add: psiv_2_1)
  also have "\<dots> = Inr 1"
    using bracket_stop [of 1 3 "psiv 2 (Suc 0)" 0] by (simp add: psiv_2_1)
  finally show ?thesis .
qed

lemma psi_bracket_at_quarter_pi: "bracket (psiv 2 (Suc 0)) (Some (pi / 4)) 0 3 = Inr 1"
proof -
  have "bracket (psiv 2 (Suc 0)) (Some (pi / 4)) 0 3 = bracket (psiv 2 (Suc 0)) (Some (pi / 4)) (0 + 1) 3"
    using pi_gt_zero by (intro bracket_skip) (simp_all add: psiv_2_1)
  also have "\<dots> = Inr 1"
    using pi_gt_zero bracket_stop [of 1 3 "psiv 2 (Suc 0)" "pi / 4"] by (simp add: psiv_2_1)
  finally show ?thesis .
qed

lemma zeta_bracket_at_quarter_pi: "bracket (zetav 2 (Suc 0)) (Some (pi / 4)) 0 3 = Inr 1"
proof -
  have "pi / 4 < 1" using pi_less_4 by simp
  then have "bracket (zetav 2 (Suc 0)) (Some (pi / 4)) (0 + 1) 3 = Inr 1"
    using bracket_stop [of 1 3 "zetav 2 (Suc 0)" "pi / 4"] by (simp add: zetav_2_1)
  moreover have "- 1 \<le> pi / 4" using pi_gt_zero by linarith
  then have "bracket (zetav 2 (Suc 0)) (Some (pi / 4)) 0 3 = bracket (zetav 2 (Suc 0)) (Some (pi / 4)) (0 + 1) 3"
    by (intro bracket_skip) (simp_all add: zetav_2_1)
  ultimately show ?thesis by simp
qed

lemma entry_nan_2_2_1:
  "entry_of_angles 2 2 1 None 0 = Inr \<lparr>ind = [12, 13, 16, 17], frac = [None, None, None, None]\<rparr>"
proof -
  have z: "bracket (zetav 2 (Suc 0)) None 0 3 = Inr 4"
    using zeta_bracket_nan(1) [of 1 2] by (simp add: bounds_2_1)
  have fz: "frac_of (zetav 2 (Suc 0)) (dzetaf 2 (Suc 0)) None 3 = Inr None"
    by (rule frac_of_None) simp_all
  have fp: "frac_of (psiv 2 (Suc 0)) (dpsif 2 (Suc 0)) (Some 0) 0 = Inr (Some (1 / 2))"
    by (subst frac_of_Some) (simp_all add: psiv_2_1 dpsif_2_1)
  show ?thesis
    by (simp add: entry_of_angles_def bounds_2_1 z psi_bracket_at_0 fz fp targets_def AngleInd_def)
qed

lemma frac_l_quarter_pi:
  "frac_of (zetav 2 (Suc 0)) (dzetaf 2 (Suc 0)) (Some (pi / 4)) 0 = Inr (Some (1 / 2 + 2 / pi))"
  by (subst frac_of_Some) (simp_all add: zetav_2_1 dzetaf_2_1 field_simps)

lemma frac_m_quarter_pi:
  "frac_of (psiv 2 (Suc 0)) (dpsif 2 (Suc 0)) (Some (pi / 4)) 0 = Inr (Some (3 / 4))"
  by (subst frac_of_Some) (simp_all add: psiv_2_1 dpsif_2_1 field_simps)

lemma weights_quarter_pi:
  "weights (Some (1 / 2 + 2 / pi)) (Some (3 / 4)) =
     [Some (1 / 8 - 1 / (2 * pi)), Some (3 / 8 - 3 / (2 * pi)),
      Some (1 / 8 + 1 / (2 * pi)), Some (3 / 8 + 3 / (2 * pi))]"
  by (simp add: weights_Some field_simps)

lemma entry_quarter_pi_2_2_1:
  "entry_of_angles 2 2 1 (Some (pi / 4)) (pi / 4) =
     Inr \<lparr>ind = [0, 1, 4, 5],
          frac = [Some (1 / 8 - 1 / (2 * pi)), Some (3 / 8 - 3 / (2 * pi)),
                  Some (1 / 8 + 1 / (2 * pi)), Some (3 / 8 + 3 / (2 * pi))]\<rparr>"
  unfolding weights_quarter_pi [symmetric]
  by (simp add: entry_of_angles_def bounds_2_1 zeta_bracket_at_quarter_pi
      psi_bracket_at_quarter_pi frac_l_quarter_pi frac_m_quarter_pi targets_def AngleInd_def)

subsection \<open>The weights of an entry\<close>

lemma remap_entry_valid:
  assumes "0 < G" and "G \<le> nzeta" and "G \<le> npsi"
    and "nh_a_vec eg ecova flips nh 0 \<noteq> 0"
    and "- 1 \<le> nh_a_vec eg ecova flips nh 3 / nh_a_vec eg ecova flips nh 0"
    and "nh_a_vec eg ecova flips nh 3 / nh_a_vec eg ecova flips nh 0 \<le> 1"
  obtains l_a m_a fl fm where
    "remap_entry nzeta npsi G eg ecova flips nh =
       Inr \<lparr>ind = targets npsi G l_a m_a, frac = weights (Some fl) (Some fm)\<rparr>"
    and "int G \<le> l_a" and "l_a \<le> int (nzeta + G)"
    and "int G \<le> m_a" and "m_a \<le> int (npsi + G)"
    and "fl = (arccos (nh_a_vec eg ecova flips nh 3 / nh_a_vec eg ecova flips nh 0)
                - zetav nzeta G ! nat (l_a - 1)) / dzetaf nzeta G ! nat (l_a - 1)"
    and "fm = (psi_a_of (nh_a_vec eg ecova flips nh) - psiv npsi G ! nat (m_a - 1)) / dpsi npsi"
    and "0 \<le> fl" and "0 \<le> fm" and "fm < 1"
proof -
  let ?nha = "nh_a_vec eg ecova flips nh"
  note z = zeta_a_of_Some [of ?nha, OF assms(4,5,6)]
  note p = psi_a_of_range [of ?nha]
  obtain l_a m_a fl fm where
    "entry_of_angles nzeta npsi G (Some (arccos (?nha 3 / ?nha 0))) (psi_a_of ?nha) =
       Inr \<lparr>ind = targets npsi G l_a m_a, frac = weights (Some fl) (Some fm)\<rparr>"
    "int G \<le> l_a" "l_a \<le> int (nzeta + G)" "int G \<le> m_a" "m_a \<le> int (npsi + G)"
    "fl = (arccos (?nha 3 / ?nha 0) - zetav nzeta G ! nat (l_a - 1)) / dzetaf nzeta G ! nat (l_a - 1)"
    "fm = (psi_a_of ?nha - psiv npsi G ! nat (m_a - 1)) / dpsi npsi"
    "0 \<le> fl" "0 \<le> fm" "fm < 1"
    using entry_of_angles_valid [OF assms(1,2,3) z(2,3) conjunct1 [OF p] conjunct2 [OF p]]
    by metis
  then show ?thesis using that z(1) by (simp add: remap_entry_def Let_def)
qed

text \<open>
  What holds of the weights of every entry whose two angles are numbers (\<open>nh_a[0] \<noteq> 0\<close> and
  \<open>nh_a[3] / nh_a[0]\<close> in \<open>[-1, 1]\<close>), on a grid with \<open>1 \<le> G \<le> nzeta\<close> and \<open>G \<le> npsi\<close>, over
  the exact reals: the four weights are the four products of \<open>frac_l\<close>, \<open>1 - frac_l\<close> with
  \<open>frac_m\<close>, \<open>1 - frac_m\<close>, they sum to \<open>1\<close>, \<open>0 \<le> frac_l\<close> and \<open>0 \<le> frac_m \<le> 1\<close>. The
  azimuthal fraction is bounded by \<open>1\<close> because its divisor \<open>dpsif(m_a - 1)\<close> is the distance
  of the two centres found by the search; the polar fraction has no such bound.
\<close>

lemma weights_sum_to_one:
  assumes "0 < G" and "G \<le> nzeta" and "G \<le> npsi"
    and "nh_a_vec eg ecova flips nh 0 \<noteq> 0"
    and "- 1 \<le> nh_a_vec eg ecova flips nh 3 / nh_a_vec eg ecova flips nh 0"
    and "nh_a_vec eg ecova flips nh 3 / nh_a_vec eg ecova flips nh 0 \<le> 1"
  shows "\<exists>l_a m_a fl fm w0 w1 w2 w3.
      remap_entry nzeta npsi G eg ecova flips nh =
        Inr \<lparr>ind = targets npsi G l_a m_a, frac = [Some w0, Some w1, Some w2, Some w3]\<rparr>
      \<and> w0 = (1 - fl) * (1 - fm) \<and> w1 = (1 - fl) * fm
      \<and> w2 = fl * (1 - fm) \<and> w3 = fl * fm
      \<and> fl = (arccos (nh_a_vec eg ecova flips nh 3 / nh_a_vec eg ecova flips nh 0)
                - zetav nzeta G ! nat (l_a - 1)) / dzetaf nzeta G ! nat (l_a - 1)
      \<and> fm = (psi_a_of (nh_a_vec eg ecova flips nh) - psiv npsi G ! nat (m_a - 1)) / dpsi npsi
      \<and> w0 + w1 + w2 + w3 = 1
      \<and> 0 \<le> fl \<and> 0 \<le> fm \<and> fm \<le> 1"
proof -
  obtain l_a m_a fl fm where e:
    "remap_entry nzeta npsi G eg ecova flips nh =
       Inr \<lparr>ind = targets npsi G l_a m_a, frac = weights (Some fl) (Some fm)\<rparr>"
    "fl = (arccos (nh_a_vec eg ecova flips nh 3 / nh_a_vec eg ecova flips nh 0)
                - zetav nzeta G ! nat (l_a - 1)) / dzetaf nzeta G ! nat (l_a - 1)"
    "fm = (psi_a_of (nh_a_vec eg ecova flips nh) - psiv npsi G ! nat (m_a - 1)) / dpsi npsi"
    "0 \<le> fl" "0 \<le> fm" "fm < 1"
    using remap_entry_valid [OF assms] by metis
  have sum: "(1 - fl) * (1 - fm) + (1 - fl) * fm + fl * (1 - fm) + fl * fm = 1"
    by (simp add: algebra_simps)
  have "fm \<le> 1" using e(6) by simp
  then show ?thesis
    using e(1,2,3,4,5) sum unfolding weights_Some by blast
qed

lemma nh_a_flat_tilted:
  "nh_a_vec e_flat e_cov_tilted [Suc 0] nh_bin 0 = 1"
  "nh_a_vec e_flat e_cov_tilted [Suc 0] nh_bin (Suc 0) = 1 / 2"
  "nh_a_vec e_flat e_cov_tilted [Suc 0] nh_bin 2 = 1 / 2"
  "nh_a_vec e_flat e_cov_tilted [Suc 0] nh_bin 3 = cos (pi / 4)"
proof -
  have s: "sin 1 * cos (1 - pi / 4) - cos 1 * sin (1 - pi / 4) = sin (pi / 4)"
    using sin_diff [of 1 "1 - pi / 4"] by simp
  have c: "cos 1 * cos (1 - pi / 4) + sin 1 * sin (1 - pi / 4) = cos (pi / 4)"
    using cos_diff [of 1 "1 - pi / 4"] by simp
  have h: "sin (pi / 4) * sin (pi / 4) = 1 / 2" "cos (pi / 4) * sin (pi / 4) = 1 / 2"
    by (simp_all add: sin_45 cos_45)
  show "nh_a_vec e_flat e_cov_tilted [Suc 0] nh_bin 0 = 1"
    by (simp add: nh_a_vec_def nh_a_of_sum n_a_of_def n_g_of_sum e_flat_def e_cov_tilted_def
        nh_bin_def)
  have "nh_a_vec e_flat e_cov_tilted [Suc 0] nh_bin (Suc 0)
      = sin (pi / 4) * (sin 1 * cos (1 - pi / 4) - cos 1 * sin (1 - pi / 4))"
    by (simp add: nh_a_vec_def nh_a_of_sum n_a_of_def n_g_of_sum e_flat_def e_cov_tilted_def
        nh_bin_def algebra_simps)
  then show "nh_a_vec e_flat e_cov_tilted [Suc 0] nh_bin (Suc 0) = 1 / 2"
    unfolding s by (simp only: h)
  have "nh_a_vec e_flat e_cov_tilted [Suc 0] nh_bin 2
      = cos (pi / 4) * (sin 1 * cos (1 - pi / 4) - cos 1 * sin (1 - pi / 4))"
    by (simp add: nh_a_vec_def nh_a_of_sum n_a_of_def n_g_of_sum e_flat_def e_cov_tilted_def
        nh_bin_def algebra_simps)
  then show "nh_a_vec e_flat e_cov_tilted [Suc 0] nh_bin 2 = 1 / 2"
    unfolding s by (simp only: h)
  have "nh_a_vec e_flat e_cov_tilted [Suc 0] nh_bin 3
      = cos 1 * cos (1 - pi / 4) + sin 1 * sin (1 - pi / 4)"
    by (simp add: nh_a_vec_def nh_a_of_sum n_a_of_def n_g_of_sum e_flat_def e_cov_tilted_def
        nh_bin_def algebra_simps)
  then show "nh_a_vec e_flat e_cov_tilted [Suc 0] nh_bin 3 = cos (pi / 4)"
    unfolding c .
qed

lemma angles_flat_tilted:
  "zeta_a_of (nh_a_vec e_flat e_cov_tilted [Suc 0] nh_bin) = Some (pi / 4)"
  "psi_a_of (nh_a_vec e_flat e_cov_tilted [Suc 0] nh_bin) = pi / 4"
proof -
  have "arccos (cos (pi / 4)) = pi / 4" by (rule arccos_cos) simp_all
  moreover have "\<not> cos (pi / 4) < - 1" "\<not> 1 < cos (pi / 4)"
    using cos_ge_minus_one [of "pi / 4"] cos_le_one [of "pi / 4"] by - linarith+
  ultimately show "zeta_a_of (nh_a_vec e_flat e_cov_tilted [Suc 0] nh_bin) = Some (pi / 4)"
    by (simp add: zeta_a_of_def acos_quot_def nh_a_flat_tilted)
  show "psi_a_of (nh_a_vec e_flat e_cov_tilted [Suc 0] nh_bin) = pi / 4"
    using pi_gt_zero by (simp add: psi_a_of_def psi_wrap_def atan2_def nh_a_flat_tilted arctan_one)
qed

text \<open>The frame \<open>e_cov_tilted\<close> is orthonormal: its rows are the dual of a Lorentz frame.\<close>

lemma e_cov_tilted_orthonormal:
  "- (e_cov_tilted n 0 * e_cov_tilted m 0) + e_cov_tilted n 1 * e_cov_tilted m 1
     + e_cov_tilted n 2 * e_cov_tilted m 2 + e_cov_tilted n 3 * e_cov_tilted m 3
   = (if n = m \<and> n < 4 then (if n = 0 then - 1 else 1) else 0)"
proof -
  define s where "s = sin (1 - pi / 4)"
  define c where "c = cos (1 - pi / 4)"
  define h where "h = sqrt 2 / 2"
  have u: "s * s + c * c = 1"
    unfolding s_def c_def using sin_cos_squared_add [of "1 - pi / 4"] by (simp add: power2_eq_square)
  have hh: "h * h = 1 / 2" by (simp add: h_def)
  have e: "e_cov_tilted = (\<lambda>n p.
     if n = 0 \<and> p = 0 then - 1
     else if n = 1 \<and> p = 1 then h
     else if n = 1 \<and> p = 2 then h * c
     else if n = 1 \<and> p = 3 then - (h * s)
     else if n = 2 \<and> p = 1 then - h
     else if n = 2 \<and> p = 2 then h * c
     else if n = 2 \<and> p = 3 then - (h * s)
     else if n = 3 \<and> p = 2 then s
     else if n = 3 \<and> p = 3 then c
     else 0)"
  proof -
    have hs: "sin (pi / 4) = h" and hc: "cos (pi / 4) = h" by (simp_all add: h_def sin_45 cos_45)
    show ?thesis unfolding e_cov_tilted_def hs hc s_def c_def ..
  qed
  have u2: "s * s = 1 - c * c" using u by simp
  have hh2: "h * (h * x) = x / 2" for x
    using hh by (simp add: mult.assoc [symmetric])
  consider "n = 0" | "n = 1" | "n = 2" | "n = 3" | "4 \<le> n" by arith
  then show ?thesis
  proof cases
    case 1 then show ?thesis by (simp add: e)
  next
    case 2
    consider "m = 0" | "m = 1" | "m = 2" | "m = 3" | "4 \<le> m" by arith
    then show ?thesis using 2 by cases (simp_all add: e mult_ac hh hh2 u2 diff_divide_distrib)
  next
    case 3
    consider "m = 0" | "m = 1" | "m = 2" | "m = 3" | "4 \<le> m" by arith
    then show ?thesis using 3 by cases (simp_all add: e mult_ac hh hh2 u2 diff_divide_distrib)
  next
    case 4
    consider "m = 0" | "m = 1" | "m = 2" | "m = 3" | "4 \<le> m" by arith
    then show ?thesis using 4 by cases (simp_all add: e mult_ac hh hh2 u2 diff_divide_distrib)
  next
    case 5 then show ?thesis by (simp add: e)
  qed
qed

text \<open>
  Claim C2 (the code departs from it). The two searches find the neighbouring centres
  \<open>zetav(l_a - 1) \<le> zeta_a < zetav(l_a)\<close> and \<open>psiv(m_a - 1) \<le> psi_a < psiv(m_a)\<close>, and the four
  weights interpolate between them. The azimuthal offset is divided by \<open>dpsif(m_a - 1)\<close>,
  which is the distance of the two centres; the polar offset is divided by the face spacing
  \<open>dzetaf(l_a - 1)\<close> of the lower cell, which is not the distance of the two centres. On the
  grid with \<open>nzeta = npsi = 2\<close> and one ghost layer the centres \<open>zetav(0) = -1\<close> and
  \<open>zetav(1) = 1\<close> are \<open>2\<close> apart and \<open>dzetaf(0) = pi/2\<close>. With the flat tetrad at the ghost cell
  and the frame \<open>e_cov_tilted\<close> at the active cell, the inner \<open>x1\<close> reflection of the bin
  \<open>nh_bin\<close> has the angles \<open>zeta_a = psi_a = pi/4\<close>, inside their cells and away from every
  centre: \<open>frac_l = 1/2 + 2/pi > 1\<close>, \<open>frac_m = 3/4\<close>, the four weights sum to \<open>1\<close>, and the
  first two are negative.
\<close>

theorem weight_outside_unit_interval:
  "remap_entry 2 2 1 e_flat e_cov_tilted [1] nh_bin =
     Inr \<lparr>ind = [0, 1, 4, 5],
          frac = [Some (1 / 8 - 1 / (2 * pi)), Some (3 / 8 - 3 / (2 * pi)),
                  Some (1 / 8 + 1 / (2 * pi)), Some (3 / 8 + 3 / (2 * pi))]\<rparr>
   \<and> 1 / 8 - 1 / (2 * pi) < 0 \<and> 3 / 8 - 3 / (2 * pi) < 0
   \<and> (1 / 8 - 1 / (2 * pi)) + (3 / 8 - 3 / (2 * pi))
       + (1 / 8 + 1 / (2 * pi)) + (3 / 8 + 3 / (2 * pi)) = 1
   \<and> frac_of (zetav 2 1) (dzetaf 2 1) (zeta_a_of (nh_a_vec e_flat e_cov_tilted [1] nh_bin)) 0
       = Inr (Some (1 / 2 + 2 / pi))
   \<and> 1 < 1 / 2 + 2 / pi
   \<and> zetav 2 1 ! 1 - zetav 2 1 ! 0 = 2 \<and> dzetaf 2 1 ! 0 = pi / 2"
proof (intro conjI)
  show "remap_entry 2 2 1 e_flat e_cov_tilted [1] nh_bin =
     Inr \<lparr>ind = [0, 1, 4, 5],
          frac = [Some (1 / 8 - 1 / (2 * pi)), Some (3 / 8 - 3 / (2 * pi)),
                  Some (1 / 8 + 1 / (2 * pi)), Some (3 / 8 + 3 / (2 * pi))]\<rparr>"
    using entry_quarter_pi_2_2_1 by (simp add: remap_entry_def Let_def angles_flat_tilted)
  define q where "q = 1 / pi"
  have a: "1 / 4 < q"
    unfolding q_def using pi_less_4 pi_gt_zero by (intro divide_strict_left_mono) simp_all
  have b: "1 / (2 * pi) = q / 2" "3 / (2 * pi) = 3 * q / 2" "2 / pi = 2 * q"
    by (simp_all add: q_def)
  show "1 / 8 - 1 / (2 * pi) < 0" "3 / 8 - 3 / (2 * pi) < 0" "1 < 1 / 2 + 2 / pi"
    unfolding b using a by simp_all
  show "(1 / 8 - 1 / (2 * pi)) + (3 / 8 - 3 / (2 * pi))
       + (1 / 8 + 1 / (2 * pi)) + (3 / 8 + 3 / (2 * pi)) = 1"
    by simp
  show "frac_of (zetav 2 1) (dzetaf 2 1) (zeta_a_of (nh_a_vec e_flat e_cov_tilted [1] nh_bin)) 0
       = Inr (Some (1 / 2 + 2 / pi))"
    using frac_l_quarter_pi by (simp add: angles_flat_tilted)
  show "zetav 2 1 ! 1 - zetav 2 1 ! 0 = 2" by (simp add: zetav_2_1)
  show "dzetaf 2 1 ! 0 = pi / 2" by (simp add: dzetaf_2_1)
qed

lemma nh_bin_is_column:
  assumes "nh_g 2 2 1 = Inr nh" and "p < 4"
  shows "nh_col (nang 2 2 1) nh 5 p = nh_bin p"
proof -
  have "nh_col (nang 2 2 1) nh (nat (AngleInd 2 1 (int 1) (int 1))) p = nh_val 2 2 1 p 1 1"
    using nh_g_nth(1) [of 2 2 1 1 1 p nh] assms
    by (simp add: nh_col_def ix2_def AngleInd_def nh_off_def nat_add_distrib nat_mult_distrib)
  moreover have "nh_val 2 2 1 p 1 1 = nh_bin p"
  proof -
    from assms(2) consider "p = 0" | "p = 1" | "p = 2" | "p = 3" by arith
    then show ?thesis
      by cases (simp_all add: nh_val_def nh_bin_def zetav_2_1 psiv_2_1)
  qed
  ultimately show ?thesis by (simp add: AngleInd_def)
qed

subsection \<open>Searches that run to the end, and degenerate frames\<close>

lemma remap_entry_nan:
  assumes "0 < G" and "0 < nzeta" and "G \<le> npsi" and "nh_a_vec eg ecova flips nh 0 = 0"
  obtains m_a where
    "remap_entry nzeta npsi G eg ecova flips nh =
       Inr \<lparr>ind = targets npsi G (int (ze nzeta G) + 2) m_a, frac = [None, None, None, None]\<rparr>"
    and "int G \<le> m_a" and "m_a \<le> int (npsi + G)"
proof -
  let ?nha = "nh_a_vec eg ecova flips nh"
  note p = psi_a_of_range [of ?nha]
  obtain m_a where
    "entry_of_angles nzeta npsi G None (psi_a_of ?nha) =
       Inr \<lparr>ind = targets npsi G (int (ze nzeta G) + 2) m_a, frac = [None, None, None, None]\<rparr>"
    "int G \<le> m_a" "m_a \<le> int (npsi + G)"
    using entry_of_angles_nan [OF assms(1,2,3) conjunct1 [OF p] conjunct2 [OF p]] by metis
  then show ?thesis
    using that zeta_a_of_None [of ?nha] assms(4) by (simp add: remap_entry_def Let_def)
qed

text \<open>
  Claim C5, as the code has it. On a grid with \<open>1 \<le> G \<le> nzeta\<close> and \<open>G \<le> npsi\<close>, for a
  transformed direction with \<open>nh_a[0] \<noteq> 0\<close> and \<open>nh_a[3] / nh_a[0]\<close> in \<open>[-1, 1]\<close>: the entry is
  built without reading outside an array, both searches stop inside their range,
  \<open>zs \<le> l_a \<le> ze + 1\<close> and \<open>ps \<le> m_a \<le> pe + 1\<close>, and the four target indices are bins of
  the padded grid, \<open>0 \<le> t < nang\<close>. (No error is raised in any case: a search that runs to
  its end leaves \<open>l_a = ze + 2\<close>, which is used as it is.)
\<close>

theorem bracket_search_in_range:
  assumes "0 < G" and "G \<le> nzeta" and "G \<le> npsi"
    and "nh_a_vec eg ecova flips nh 0 \<noteq> 0"
    and "- 1 \<le> nh_a_vec eg ecova flips nh 3 / nh_a_vec eg ecova flips nh 0"
    and "nh_a_vec eg ecova flips nh 3 / nh_a_vec eg ecova flips nh 0 \<le> 1"
  shows "\<exists>l_a m_a w.
      remap_entry nzeta npsi G eg ecova flips nh = Inr \<lparr>ind = targets npsi G l_a m_a, frac = w\<rparr>
      \<and> int (zs G) \<le> l_a \<and> l_a \<le> int (ze nzeta G) + 1
      \<and> int (ps G) \<le> m_a \<and> m_a \<le> int (pe npsi G) + 1
      \<and> (\<forall>t \<in> set (targets npsi G l_a m_a). 0 \<le> t \<and> t < int (nang nzeta npsi G))"
proof -
  obtain l_a m_a fl fm where e:
    "remap_entry nzeta npsi G eg ecova flips nh =
       Inr \<lparr>ind = targets npsi G l_a m_a, frac = weights (Some fl) (Some fm)\<rparr>"
    "int G \<le> l_a" "l_a \<le> int (nzeta + G)" "int G \<le> m_a" "m_a \<le> int (npsi + G)"
    using remap_entry_valid [OF assms] by metis
  have "0 < nzeta" "0 < npsi" using assms(1,2,3) by simp_all
  then have "l_a \<le> int (ze nzeta G) + 1" "m_a \<le> int (pe npsi G) + 1"
    using e(3,5) by (simp_all add: ze_plus pe_plus)
  moreover have "int (zs G) \<le> l_a" "int (ps G) \<le> m_a"
    using e(2,4) by (simp_all add: zs_def ps_def)
  ultimately show ?thesis
    using e(1) targets_valid [OF assms(1) e(2,3,4,5)] by blast
qed

theorem bracket_search_in_range_witness:
  "\<exists>l_a m_a w.
      remap_entry 2 2 1 e_flat e_cov_flat [3] nh_bin = Inr \<lparr>ind = targets 2 1 l_a m_a, frac = w\<rparr>
      \<and> int (zs 1) \<le> l_a \<and> l_a \<le> int (ze 2 1) + 1
      \<and> int (ps 1) \<le> m_a \<and> m_a \<le> int (pe 2 1) + 1
      \<and> (\<forall>t \<in> set (targets 2 1 l_a m_a). 0 \<le> t \<and> t < int (nang 2 2 1))"
proof (rule bracket_search_in_range)
  have v: "nh_a_vec e_flat e_cov_flat [3] nh_bin 0 = 1"
    "nh_a_vec e_flat e_cov_flat [3] nh_bin 3 = - cos 1"
    by (simp_all add: nh_a_vec_def nh_a_of_sum n_a_of_def n_g_of_sum e_flat_def e_cov_flat_def
        nh_bin_def)
  show "(0::nat) < 1" "(1::nat) \<le> 2" "(1::nat) \<le> 2" by simp_all
  show "nh_a_vec e_flat e_cov_flat [3] nh_bin 0 \<noteq> 0" by (simp add: v)
  show "- 1 \<le> nh_a_vec e_flat e_cov_flat [3] nh_bin 3 / nh_a_vec e_flat e_cov_flat [3] nh_bin 0"
    "nh_a_vec e_flat e_cov_flat [3] nh_bin 3 / nh_a_vec e_flat e_cov_flat [3] nh_bin 0 \<le> 1"
    using cos_ge_minus_one [of 1] cos_le_one [of 1] by (simp_all add: v)
qed

text \<open>
  The claim as stated fails: when the temporary \<open>e_cov_a\<close> is the zero array (its initial
  state, which the polar blocks never change), the polar transformation of \<open>nh_bin\<close> has
  \<open>zeta_a\<close> NaN, the polar search runs to its end \<open>l_a = ze + 2 = 4\<close>, no error is raised, and
  the targets \<open>16\<close> and \<open>17\<close> stored at positions \<open>2\<close> and \<open>3\<close> are not bins of the padded grid,
  which has \<open>nang = 16\<close> bins.
\<close>

theorem exhausted_search_stores_invalid_bin:
  "bracket (zetav 2 1) (zeta_a_of (nh_a_vec e_flat zero4 [2, 3] nh_bin)) (int (zs 1) - 1) (int (ze 2 1) + 1)
     = Inr (int (ze 2 1) + 2)
   \<and> remap_entry 2 2 1 e_flat zero4 [2, 3] nh_bin =
       Inr \<lparr>ind = [12, 13, 16, 17], frac = [None, None, None, None]\<rparr>
   \<and> nang 2 2 1 = 16"
proof (intro conjI)
  show "bracket (zetav 2 1) (zeta_a_of (nh_a_vec e_flat zero4 [2, 3] nh_bin)) (int (zs 1) - 1) (int (ze 2 1) + 1)
     = Inr (int (ze 2 1) + 2)"
    using zeta_bracket_nan(1) [of 1 2] by (simp add: zeta_a_of_None)
  show "remap_entry 2 2 1 e_flat zero4 [2, 3] nh_bin =
       Inr \<lparr>ind = [12, 13, 16, 17], frac = [None, None, None, None]\<rparr>"
    using entry_nan_2_2_1
    by (simp add: remap_entry_def Let_def zeta_a_of_None psi_a_of_def psi_wrap_def atan2_def)
  show "nang 2 2 1 = 16" by (simp add: nang_def)
qed

text \<open>
  Claim C6, as the code has it. The loop body has no test of \<open>nh_a[0]\<close>. When \<open>nh_a[0] = 0\<close> (on
  a grid with \<open>G \<ge> 1\<close>, \<open>nzeta \<ge> 1\<close>, \<open>G \<le> npsi\<close>) no error is raised: \<open>zeta_a\<close> is NaN, the
  polar search runs to its end \<open>l_a = ze + 2\<close>, the azimuthal search stops inside its range,
  and the entry is stored with all four weights NaN.
\<close>

theorem degenerate_frame_stores_nan:
  assumes "0 < G" and "0 < nzeta" and "G \<le> npsi" and "nh_a_vec eg ecova flips nh 0 = 0"
  shows "\<exists>m_a.
      remap_entry nzeta npsi G eg ecova flips nh =
        Inr \<lparr>ind = targets npsi G (int (ze nzeta G) + 2) m_a, frac = [None, None, None, None]\<rparr>
      \<and> int (ps G) \<le> m_a \<and> m_a \<le> int (pe npsi G) + 1"
proof -
  obtain m_a where m:
    "remap_entry nzeta npsi G eg ecova flips nh =
       Inr \<lparr>ind = targets npsi G (int (ze nzeta G) + 2) m_a, frac = [None, None, None, None]\<rparr>"
    "int G \<le> m_a" "m_a \<le> int (npsi + G)"
    using remap_entry_nan [OF assms] by metis
  have "0 < npsi" using assms(1,3) by simp
  then have "m_a \<le> int (pe npsi G) + 1" using m(3) by (simp add: pe_plus)
  then show ?thesis using m(1,2) by (auto simp: ps_def)
qed

theorem degenerate_frame_stores_nan_witness:
  "\<exists>m_a.
      remap_entry 2 2 1 e_flat zero4 [1] nh_bin =
        Inr \<lparr>ind = targets 2 1 (int (ze 2 1) + 2) m_a, frac = [None, None, None, None]\<rparr>
      \<and> int (ps 1) \<le> m_a \<and> m_a \<le> int (pe 2 1) + 1"
  by (rule degenerate_frame_stores_nan) simp_all

text \<open>
  The claim as stated fails: with the zero array in \<open>e_cov_a\<close> the polar transformation of
  \<open>nh_bin\<close> has \<open>nh_a[0] = 0\<close>, and the loop body returns an entry, with NaN weights, instead
  of an error.
\<close>

theorem degenerate_frame_not_detected:
  "nh_a_vec e_flat zero4 [2, 3] nh_bin 0 = 0
   \<and> remap_entry 2 2 1 e_flat zero4 [2, 3] nh_bin =
       Inr \<lparr>ind = [12, 13, 16, 17], frac = [None, None, None, None]\<rparr>"
proof
  show "nh_a_vec e_flat zero4 [2, 3] nh_bin 0 = 0" by simp
  show "remap_entry 2 2 1 e_flat zero4 [2, 3] nh_bin =
       Inr \<lparr>ind = [12, 13, 16, 17], frac = [None, None, None, None]\<rparr>"
    using entry_nan_2_2_1
    by (simp add: remap_entry_def Let_def zeta_a_of_None psi_a_of_def psi_wrap_def atan2_def)
qed

subsection \<open>The guards of the constructor\<close>

lemma guarded_False [simp]: "guarded False loop tmp = Inr (tmp, None)"
  by (simp add: guarded_def)

lemma guarded_table:
  assumes "guarded g loop tmp = Inr r"
  shows "(snd r \<noteq> None) = g"
  using assms by (auto simp: guarded_def bindE_eq_Inr split: if_splits)

lemma bindE_InrE:
  assumes "bindE r f = Inr y"
  obtains x where "r = Inr x" and "f x = Inr y"
  using assms by (auto simp: bindE_eq_Inr)

text \<open>For each face, whether the constructed object holds a reflection table.\<close>

lemma ctor_reflect_tables:
  assumes "RadBoundaryVariable_ctor nzeta npsi G NG mb = Inr st"
  shows "(reflect_ix1 st \<noteq> None) = (block_bcs mb inner_x1 = reflect)
       \<and> (reflect_ox1 st \<noteq> None) = (block_bcs mb outer_x1 = reflect)
       \<and> (reflect_ix2 st \<noteq> None) = (block_bcs mb inner_x2 = reflect)
       \<and> (reflect_ox2 st \<noteq> None) = (block_bcs mb outer_x2 = reflect)
       \<and> (reflect_ix3 st \<noteq> None) = (block_bcs mb inner_x3 = reflect)
       \<and> (reflect_ox3 st \<noteq> None) = (block_bcs mb outer_x2 = reflect)"
proof -
  note c = assms [unfolded RadBoundaryVariable_ctor_def]
  from c obtain nh where c0: "bindE (guarded (block_bcs mb inner_x1 = reflect)
      (loop_ix1 nzeta npsi G NG mb nh) tmp_init) (\<lambda>r1.
     bindE (guarded (block_bcs mb outer_x1 = reflect) (loop_ox1 nzeta npsi G NG mb nh) (fst r1)) (\<lambda>r2.
     bindE (guarded (block_bcs mb inner_x2 = reflect) (loop_ix2 nzeta npsi G NG mb nh) (fst r2)) (\<lambda>r3.
     bindE (guarded (block_bcs mb outer_x2 = reflect) (loop_ox2 nzeta npsi G NG mb nh) (fst r3)) (\<lambda>r4.
     bindE (guarded (block_bcs mb inner_x3 = reflect) (loop_ix3 nzeta npsi G NG mb nh) (fst r4)) (\<lambda>r5.
     bindE (guarded (block_bcs mb outer_x2 = reflect) (loop_ox3 nzeta npsi G NG mb nh) (fst r5)) (\<lambda>r6.
     bindE (guarded (block_bcs mb inner_x2 = polar) (loop_north nzeta npsi G NG mb nh) (fst r6)) (\<lambda>r7.
     bindE (guarded (block_bcs mb outer_x2 = polar) (loop_south nzeta npsi G NG mb nh) (fst r7)) (\<lambda>r8.
     Inr \<lparr>reflect_ix1 = snd r1, reflect_ox1 = snd r2, reflect_ix2 = snd r3,
          reflect_ox2 = snd r4, reflect_ix3 = snd r5, reflect_ox3 = snd r6,
          polar_vals = (block_bcs mb inner_x2 = polar \<or> block_bcs mb outer_x2 = polar),
          polar_north = snd r7, polar_south = snd r8\<rparr>)))))))) = Inr st"
    by (rule bindE_InrE)
  from c0 obtain r1 where g1: "guarded (block_bcs mb inner_x1 = reflect) (loop_ix1 nzeta npsi G NG mb nh) tmp_init = Inr r1"
    and c1: "bindE (guarded (block_bcs mb outer_x1 = reflect) (loop_ox1 nzeta npsi G NG mb nh) (fst r1)) (\<lambda>r2.
     bindE (guarded (block_bcs mb inner_x2 = reflect) (loop_ix2 nzeta npsi G NG mb nh) (fst r2)) (\<lambda>r3.
     bindE (guarded (block_bcs mb outer_x2 = reflect) (loop_ox2 nzeta npsi G NG mb nh) (fst r3)) (\<lambda>r4.
     bindE (guarded (block_bcs mb inner_x3 = reflect) (loop_ix3 nzeta npsi G NG mb nh) (fst r4)) (\<lambda>r5.
     bindE (guarded (block_bcs mb outer_x2 = reflect) (loop_ox3 nzeta npsi G NG mb nh) (fst r5)) (\<lambda>r6.
     bindE (guarded (block_bcs mb inner_x2 = polar) (loop_north nzeta npsi G NG mb nh) (fst r6)) (\<lambda>r7.
     bindE (guarded (block_bcs mb outer_x2 = polar) (loop_south nzeta npsi G NG mb nh) (fst r7)) (\<lambda>r8.
     Inr \<lparr>reflect_ix1 = snd r1, reflect_ox1 = snd r2, reflect_ix2 = snd r3,
          reflect_ox2 = snd r4, reflect_ix3 = snd r5, reflect_ox3 = snd r6,
          polar_vals = (block_bcs mb inner_x2 = polar \<or> block_bcs mb outer_x2 = polar),
          polar_north = snd r7, polar_south = snd r8\<rparr>))))))) = Inr st"
    by (rule bindE_InrE)
  from c1 obtain r2 where g2: "guarded (block_bcs mb outer_x1 = reflect) (loop_ox1 nzeta npsi G NG mb nh) (fst r1) = Inr r2"
    and c2: "bindE (guarded (block_bcs mb inner_x2 = reflect) (loop_ix2 nzeta npsi G NG mb nh) (fst r2)) (\<lambda>r3.
     bindE (guarded (block_bcs mb outer_x2 = reflect) (loop_ox2 nzeta npsi G NG mb nh) (fst r3)) (\<lambda>r4.
     bindE (guarded (block_bcs mb inner_x3 = reflect) (loop_ix3 nzeta npsi G NG mb nh) (fst r4)) (\<lambda>r5.
     bindE (guarded (block_bcs mb outer_x2 = reflect) (loop_ox3 nzeta npsi G NG mb nh) (fst r5)) (\<lambda>r6.
     bindE (guarded (block_bcs mb inner_x2 = polar) (loop_north nzeta npsi G NG mb nh) (fst r6)) (\<lambda>r7.
     bindE (guarded (block_bcs mb outer_x2 = polar) (loop_south nzeta npsi G NG mb nh) (fst r7)) (\<lambda>r8.
     Inr \<lparr>reflect_ix1 = snd r1, reflect_ox1 = snd r2, reflect_ix2 = snd r3,
          reflect_ox2 = snd r4, reflect_ix3 = snd r5, reflect_ox3 = snd r6,
          polar_vals = (block_bcs mb inner_x2 = polar \<or> block_bcs mb outer_x2 = polar),
          polar_north = snd r7, polar_south = snd r8\<rparr>)))))) = Inr st"
    by (rule bindE_InrE)
  from c2 obtain r3 where g3: "guarded (block_bcs mb inner_x2 = reflect) (loop_ix2 nzeta npsi G NG mb nh) (fst r2) = Inr r3"
    and c3: "bindE (guarded (block_bcs mb outer_x2 = reflect) (loop_ox2 nzeta npsi G NG mb nh) (fst r3)) (\<lambda>r4.
     bindE (guarded (block_bcs mb inner_x3 = reflect) (loop_ix3 nzeta npsi G NG mb nh) (fst r4)) (\<lambda>r5.
     bindE (guarded (block_bcs mb outer_x2 = reflect) (loop_ox3 nzeta npsi G NG mb nh) (fst r5)) (\<lambda>r6.
     bindE (guarded (block_bcs mb inner_x2 = polar) (loop_north nzeta npsi G NG mb nh) (fst r6)) (\<lambda>r7.
     bindE (guarded (block_bcs mb outer_x2 = polar) (loop_south nzeta npsi G NG mb nh) (fst r7)) (\<lambda>r8.
     Inr \<lparr>reflect_ix1 = snd r1, reflect_ox1 = snd r2, reflect_ix2 = snd r3,
          reflect_ox2 = snd r4, reflect_ix3 = snd r5, reflect_ox3 = snd r6,
          polar_vals = (block_bcs mb inner_x2 = polar \<or> block_bcs mb outer_x2 = polar),
          polar_north = snd r7, polar_south = snd r8\<rparr>))))) = Inr st"
    by (rule bindE_InrE)
  from c3 obtain r4 where g4: "guarded (block_bcs mb outer_x2 = reflect) (loop_ox2 nzeta npsi G NG mb nh) (fst r3) = Inr r4"
    and c4: "bindE (guarded (block_bcs mb inner_x3 = reflect) (loop_ix3 nzeta npsi G NG mb nh) (fst r4)) (\<lambda>r5.
     bindE (guarded (block_bcs mb outer_x2 = reflect) (loop_ox3 nzeta npsi G NG mb nh) (fst r5)) (\<lambda>r6.
     bindE (guarded (block_bcs mb inner_x2 = polar) (loop_north nzeta npsi G NG mb nh) (fst r6)) (\<lambda>r7.
     bindE (guarded (block_bcs mb outer_x2 = polar) (loop_south nzeta npsi G NG mb nh) (fst r7)) (\<lambda>r8.
     Inr \<lparr>reflect_ix1 = snd r1, reflect_ox1 = snd r2, reflect_ix2 = snd r3,
          reflect_ox2 = snd r4, reflect_ix3 = snd r5, reflect_ox3 = snd r6,
          polar_vals = (block_bcs mb inner_x2 = polar \<or> block_bcs mb outer_x2 = polar),
          polar_north = snd r7, polar_south = snd r8\<rparr>)))) = Inr st"
    by (rule bindE_InrE)
  from c4 obtain r5 where g5: "guarded (block_bcs mb inner_x3 = reflect) (loop_ix3 nzeta npsi G NG mb nh) (fst r4) = Inr r5"
    and c5: "bindE (guarded (block_bcs mb outer_x2 = reflect) (loop_ox3 nzeta npsi G NG mb nh) (fst r5)) (\<lambda>r6.
     bindE (guarded (block_bcs mb inner_x2 = polar) (loop_north nzeta npsi G NG mb nh) (fst r6)) (\<lambda>r7.
     bindE (guarded (block_bcs mb outer_x2 = polar) (loop_south nzeta npsi G NG mb nh) (fst r7)) (\<lambda>r8.
     Inr \<lparr>reflect_ix1 = snd r1, reflect_ox1 = snd r2, reflect_ix2 = snd r3,
          reflect_ox2 = snd r4, reflect_ix3 = snd r5, reflect_ox3 = snd r6,
          polar_vals = (block_bcs mb inner_x2 = polar \<or> block_bcs mb outer_x2 = polar),
          polar_north = snd r7, polar_south = snd r8\<rparr>))) = Inr st"
    by (rule bindE_InrE)
  from c5 obtain r6 where g6: "guarded (block_bcs mb outer_x2 = reflect) (loop_ox3 nzeta npsi G NG mb nh) (fst r5) = Inr r6"
    and c6: "bindE (guarded (block_bcs mb inner_x2 = polar) (loop_north nzeta npsi G NG mb nh) (fst r6)) (\<lambda>r7.
     bindE (guarded (block_bcs mb outer_x2 = polar) (loop_south nzeta npsi G NG mb nh) (fst r7)) (\<lambda>r8.
     Inr \<lparr>reflect_ix1 = snd r1, reflect_ox1 = snd r2, reflect_ix2 = snd r3,
          reflect_ox2 = snd r4, reflect_ix3 = snd r5, reflect_ox3 = snd r6,
          polar_vals = (block_bcs mb inner_x2 = polar \<or> block_bcs mb outer_x2 = polar),
          polar_north = snd r7, polar_south = snd r8\<rparr>)) = Inr st"
    by (rule bindE_InrE)
  from c6 obtain r7 r8 where "st = \<lparr>reflect_ix1 = snd r1, reflect_ox1 = snd r2, reflect_ix2 = snd r3,
          reflect_ox2 = snd r4, reflect_ix3 = snd r5, reflect_ox3 = snd r6,
          polar_vals = (block_bcs mb inner_x2 = polar \<or> block_bcs mb outer_x2 = polar),
          polar_north = snd r7, polar_south = snd r8\<rparr>"
    by (auto simp: bindE_eq_Inr)
  then show ?thesis
    using guarded_table [OF g1] guarded_table [OF g2] guarded_table [OF g3]
      guarded_table [OF g4] guarded_table [OF g5] guarded_table [OF g6] by simp
qed

lemma ctor_no_reflect_no_polar:
  assumes "1 < nzeta" and "0 < npsi"
    and "\<And>f. f \<noteq> outer_x3 \<Longrightarrow> block_bcs mb f \<noteq> reflect \<and> block_bcs mb f \<noteq> polar"
  shows "RadBoundaryVariable_ctor nzeta npsi G NG mb =
           Inr \<lparr>reflect_ix1 = None, reflect_ox1 = None, reflect_ix2 = None,
                reflect_ox2 = None, reflect_ix3 = None, reflect_ox3 = None,
                polar_vals = False, polar_north = None, polar_south = None\<rparr>"
proof -
  obtain nh where nh: "nh_g nzeta npsi G = Inr nh"
    using nh_g_ok [OF assms(1,2)] by blast
  have "block_bcs mb inner_x1 \<noteq> reflect" "block_bcs mb outer_x1 \<noteq> reflect"
    "block_bcs mb inner_x2 \<noteq> reflect" "block_bcs mb outer_x2 \<noteq> reflect"
    "block_bcs mb inner_x3 \<noteq> reflect"
    "block_bcs mb inner_x2 \<noteq> polar" "block_bcs mb outer_x2 \<noteq> polar"
    using assms(3) by simp_all
  then show ?thesis
    by (simp add: RadBoundaryVariable_ctor_def nh)
qed

text \<open>
  Claim C1 (the code departs from it). The guard of the outer \<open>x3\<close> block tests the flag of
  the outer \<open>x2\<close> face. On the block \<open>mb_ox3_reflect\<close>, whose outer \<open>x3\<close> face is reflecting and
  whose other faces are periodic, the constructor succeeds and holds no table for the outer
  \<open>x3\<close> face.
\<close>

theorem outer_x3_reflect_without_table:
  "block_bcs mb_ox3_reflect outer_x3 = reflect
   \<and> RadBoundaryVariable_ctor 2 2 1 2 mb_ox3_reflect =
       Inr \<lparr>reflect_ix1 = None, reflect_ox1 = None, reflect_ix2 = None,
            reflect_ox2 = None, reflect_ix3 = None, reflect_ox3 = None,
            polar_vals = False, polar_north = None, polar_south = None\<rparr>"
proof
  show "block_bcs mb_ox3_reflect outer_x3 = reflect" by (simp add: mb_ox3_reflect_def)
  show "RadBoundaryVariable_ctor 2 2 1 2 mb_ox3_reflect =
       Inr \<lparr>reflect_ix1 = None, reflect_ox1 = None, reflect_ix2 = None,
            reflect_ox2 = None, reflect_ix3 = None, reflect_ox3 = None,
            polar_vals = False, polar_north = None, polar_south = None\<rparr>"
    by (rule ctor_no_reflect_no_polar) (simp_all add: mb_ox3_reflect_def)
qed

subsection \<open>The polar caps\<close>

lemma psi_bracket_at_origin:
  assumes "0 < G" and "G \<le> npsi"
  shows "bracket (psiv npsi G) (Some 0) (int (ps G) - 1) (int (pe npsi G) + 1) = Inr (int G)"
proof -
  have np: "0 < npsi" using assms by simp
  have lo: "int (ps G) - 1 = int (G - 1)" using assms(1) by (simp add: ps_def)
  have hi: "int (pe npsi G) + 1 = int (npsi + G)" by (rule pe_plus [OF np])
  have G1: "G - 1 + 1 = G" "G - 1 + 1 < npsi + 2 * G" using assms by - arith+
  have neg: "psiv npsi G ! (G - 1) < 0" by (rule psiv_origin_ghost [OF np assms(2,1)])
  have "psiv npsi G ! G = psiv npsi G ! (G - 1) + dpsi npsi"
    using psiv_step [OF np assms(2) G1(2)] G1(1) by simp
  moreover have "psiv npsi G ! (G - 1) = - (dpsi npsi / 2)"
  proof -
    have "psif npsi G ! G - psif npsi G ! (G - 1) = dpsi npsi"
      using psif_step [OF np assms(2), of "G - 1"] G1 by simp
    moreover have "psif npsi G ! G = 0" using psif_nth [OF np assms(2), of G] by simp
    ultimately show ?thesis using psiv_nth [OF np, of "G - 1" G] G1 by simp
  qed
  ultimately have pos: "0 < psiv npsi G ! G" using dpsi_pos [OF np] by simp
  have "bracket (psiv npsi G) (Some 0) (int (G - 1)) (int (npsi + G))
      = bracket (psiv npsi G) (Some 0) (int (G - 1) + 1) (int (npsi + G))"
  proof (rule bracket_skip)
    show "psiv npsi G ! nat (int (G - 1)) \<le> 0" using neg by simp
  qed (use assms in simp_all)
  also have "int (G - 1) + 1 = int G" using assms(1) by simp
  also have "bracket (psiv npsi G) (Some 0) (int G) (int (npsi + G)) = Inr (int G)"
    using pos assms by (intro bracket_stop) simp_all
  finally show ?thesis unfolding lo hi .
qed

lemma remap_entry_zero4:
  assumes "0 < G" and "0 < nzeta" and "G \<le> npsi"
  shows "remap_entry nzeta npsi G eg zero4 flips nh = Inr (nan_entry nzeta npsi G)"
proof -
  have np: "0 < npsi" using assms by simp
  have z: "zeta_a_of (nh_a_vec eg zero4 flips nh) = None" by (simp add: zeta_a_of_None)
  have p: "psi_a_of (nh_a_vec eg zero4 flips nh) = 0"
    by (simp add: psi_a_of_def psi_wrap_def atan2_def)
  have fp: "frac_of (psiv npsi G) (dpsif npsi G) (Some 0) (int G - 1)
      = Inr (if dpsif npsi G ! nat (int G - 1) = 0 then None
             else Some ((0 - psiv npsi G ! nat (int G - 1)) / dpsif npsi G ! nat (int G - 1)))"
    using assms by (intro frac_of_Some) simp_all
  show ?thesis
    unfolding remap_entry_def Let_def z p entry_of_angles_def
      zeta_bracket_nan [OF assms(1,2)] psi_bracket_at_origin [OF assms(1,3)] bindE_Inr fp
    by (simp add: nan_entry_def)
qed

lemma nan_entry_2_2_1:
  "nan_entry 2 2 1 = \<lparr>ind = [12, 13, 16, 17], frac = [None, None, None, None]\<rparr>"
  by (simp add: nan_entry_def targets_def AngleInd_def ze_def)

text \<open>
  The entry computed when the temporary \<open>e_cov_a\<close> is the zero array: every bin gets the same
  entry, whatever \<open>e_g\<close> and the flipped components are.
\<close>

lemma bin_entry_zero4:
  assumes "0 < G" and "0 < nzeta" and "G \<le> npsi" and "e_cov_a tmp = zero4"
  shows "bin_entry nzeta npsi G nh flips tmp lm_g = Inr (nan_entry nzeta npsi G)"
  by (simp add: bin_entry_def assms(4) remap_entry_zero4 [OF assms(1,2,3)])

lemma tetrads_polar_fields:
  "e_g (tetrads_polar mb (x1, x2, x3) tmp) = fst (Tetrad mb x1 x2 x3)"
  "e_a (tetrads_polar mb (x1, x2, x3) tmp) = e_a tmp"
  "e_cov_g (tetrads_polar mb (x1, x2, x3) tmp) = snd (Tetrad mb x1 x2 x3)"
  "e_cov_a (tetrads_polar mb (x1, x2, x3) tmp) = e_cov_a tmp"
  by (simp_all add: tetrads_polar_def)

subsection \<open>The stores of the polar caps\<close>

text \<open>A loop that has an iteration, and whose iterations all fail, fails.\<close>

lemma foldE_never:
  assumes "xs \<noteq> []" and "\<And>x s. \<exists>e. f x s = Inl e"
  shows "\<exists>e. foldE f xs s = Inl e"
proof (cases xs)
  case Nil
  then show ?thesis using assms(1) by simp
next
  case (Cons x ys)
  obtain e where "f x s = Inl e" using assms(2) by blast
  then show ?thesis using Cons by simp
qed

lemma bindE_never:
  assumes "\<And>x. \<exists>e. f x = Inl e"
  shows "\<exists>e. bindE r f = Inl e"
  using assms by (cases r) simp_all

lemma bindE_first:
  assumes "\<exists>e. r = Inl e"
  shows "\<exists>e. bindE r f = Inl e"
  using assms by auto

text \<open>
  The loop over \<open>lm_g\<close> of a polar cap does not get past its first store: either the entry
  of bin \<open>0\<close> cannot be computed, or it is stored to an array that was not allocated.
\<close>

lemma angle_loop_unallocated:
  assumes "0 < nang nzeta npsi G"
  shows "\<exists>e. angle_loop nzeta npsi G nh flips False key st = Inl e"
  unfolding angle_loop_def
proof (rule foldE_never)
  show "[0 ..< nang nzeta npsi G] \<noteq> []" using assms by simp
  fix lm_g and s :: "temporaries \<times> table"
  obtain a b c where key: "key = (a, b, c)" by (cases key)
  show "\<exists>e. bindE (bin_entry nzeta npsi G nh flips (fst s) lm_g) (\<lambda>en.
        bindE (store_entry False (lm_g, key) en (snd s)) (\<lambda>tab.
        Inr (fst s, tab))) = Inl e"
    by (cases "bin_entry nzeta npsi G nh flips (fst s) lm_g") (simp_all add: key store_entry_def)
qed

lemma cell_polar_never_returns:
  assumes "0 < nang nzeta npsi G"
  shows "\<exists>e. cell_polar nzeta npsi G mb nh x key st = Inl e"
  unfolding cell_polar_def by (rule angle_loop_unallocated [OF assms])

lemma polar_loops_never_return:
  assumes "0 < nang nzeta npsi G" and "0 < NG"
    and "il NG mb \<le> iu NG mb" and "kl NG mb \<le> ku NG mb"
  shows "\<exists>e. loop_north nzeta npsi G NG mb nh st = Inl e"
    and "\<exists>e. loop_south nzeta npsi G NG mb nh st = Inl e"
proof -
  have k: "[kl NG mb .. ku NG mb] \<noteq> []" using assms(4) by simp
  have j: "[0 .. int NG - 1] \<noteq> []" using assms(2) by simp
  have i: "[il NG mb .. iu NG mb] \<noteq> []" using assms(3) by simp
  show "\<exists>e. loop_north nzeta npsi G NG mb nh st = Inl e"
    unfolding loop_north_def
    by (rule foldE_never [OF k], rule foldE_never [OF j], rule foldE_never [OF i])
      (rule cell_polar_never_returns [OF assms(1)])
  show "\<exists>e. loop_south nzeta npsi G NG mb nh st = Inl e"
    unfolding loop_south_def
    by (rule foldE_never [OF k], rule foldE_never [OF j], rule foldE_never [OF i])
      (rule cell_polar_never_returns [OF assms(1)])
qed

text \<open>
  No object is constructed for a block with a polar cap (with at least one bin and one
  ghost cell at the cap).
\<close>

lemma ctor_polar_never_returns:
  assumes "block_bcs mb inner_x2 = polar \<or> block_bcs mb outer_x2 = polar"
    and "0 < nang nzeta npsi G" and "0 < NG"
    and "il NG mb \<le> iu NG mb" and "kl NG mb \<le> ku NG mb"
  shows "\<exists>e. RadBoundaryVariable_ctor nzeta npsi G NG mb = Inl e"
proof -
  note loops = polar_loops_never_return [OF assms(2,3,4,5)]
  have n: "\<exists>e. guarded True (loop_north nzeta npsi G NG mb nh) tmp = Inl e" for nh tmp
    unfolding guarded_def if_True by (rule bindE_first) (rule loops(1))
  have s: "\<exists>e. guarded True (loop_south nzeta npsi G NG mb nh) tmp = Inl e" for nh tmp
    unfolding guarded_def if_True by (rule bindE_first) (rule loops(2))
  show ?thesis
  proof (cases "block_bcs mb inner_x2 = polar")
    case True
    show ?thesis
      unfolding RadBoundaryVariable_ctor_def True
      by (rule bindE_never, rule bindE_never, rule bindE_never, rule bindE_never,
          rule bindE_never, rule bindE_never, rule bindE_never, rule bindE_first)
        (simp add: n)
  next
    case False
    then have o: "block_bcs mb outer_x2 = polar" using assms(1) by simp
    show ?thesis
      unfolding RadBoundaryVariable_ctor_def o
      by (rule bindE_never, rule bindE_never, rule bindE_never, rule bindE_never,
          rule bindE_never, rule bindE_never, rule bindE_never, rule bindE_never,
          rule bindE_first)
        (simp add: s)
  qed
qed

text \<open>
  On the block \<open>mb_north_pole\<close> the constructor computes the entry of bin \<open>0\<close> of the first
  ghost cell \<open>k = 0\<close>, \<open>dj = 0\<close>, \<open>i = 0\<close> and ends at the store
  \<open>polar_ind_north_(0, 0, 0, 0, 0)\<close>.
\<close>

lemma angle_loop_unallocated_zero4:
  assumes "0 < G" and "0 < nzeta" and "G \<le> npsi" and "e_cov_a tmp = zero4"
  shows "angle_loop nzeta npsi G nh flips False (a, b, c) (tmp, tab) = Inl (OutOfBounds c)"
proof -
  have "0 < nang nzeta npsi G" using assms(1) by (simp add: nang_def)
  then have "[0 ..< nang nzeta npsi G] = 0 # [Suc 0 ..< nang nzeta npsi G]"
    by (rule upt_conv_Cons)
  then show ?thesis
    by (simp add: angle_loop_def bin_entry_zero4 [OF assms] store_entry_def)
qed

lemma foldE_Cons_Inl: "f x s = Inl e \<Longrightarrow> foldE f (x # xs) s = Inl e"
  by simp

lemma ctor_north_pole_faults:
  "RadBoundaryVariable_ctor 2 2 1 2 mb_north_pole = Inl (OutOfBounds 0)"
proof -
  obtain nh where nh: "nh_g 2 2 1 = Inr nh"
    using nh_g_ok [of 2 2 1] by auto
  have r: "il 2 mb_north_pole = 0" "iu 2 mb_north_pole = 5" "kl 2 mb_north_pole = 0"
    "ku 2 mb_north_pole = 0" "int 2 - 1 = 1"
    by (simp_all add: il_def iu_def kl_def ku_def mb_north_pole_def)
  have l: "[0 .. 0] = [0::int]" "[0 .. 1] = (0::int) # [1 .. 1]" "[0 .. 5] = (0::int) # [1 .. 5]"
    by (simp_all add: upto_rec1)
  have "cell_polar 2 2 1 mb_north_pole nh x (0, 0, 0) (tmp_init, []) = Inl (OutOfBounds 0)" for x
  proof -
    have "e_cov_a (tetrads_polar mb_north_pole x tmp_init) = zero4"
      by (cases x) (simp add: tetrads_polar_def tmp_init_def)
    then show ?thesis
      unfolding cell_polar_def fst_conv snd_conv
      by (intro angle_loop_unallocated_zero4) simp_all
  qed
  then have north: "loop_north 2 2 1 2 mb_north_pole nh (tmp_init, []) = Inl (OutOfBounds 0)"
    unfolding loop_north_def r l by (intro foldE_Cons_Inl)
  have g: "block_bcs mb_north_pole inner_x2 = polar" "block_bcs mb_north_pole f \<noteq> reflect" for f
    by (simp_all add: mb_north_pole_def)
  show ?thesis
    unfolding RadBoundaryVariable_ctor_def nh bindE_Inr
    using north by (simp add: g guarded_def)
qed

subsection \<open>The dual tetrad of the polar caps\<close>

lemma nh_a_flat_polar:
  assumes "nh_g 2 2 1 = Inr nh"
  shows "map (nh_a_vec e_flat e_cov_flat [2, 3] (nh_col (nang 2 2 1) nh 5)) [0, 1, 2, 3]
           = [1, 0, - sin 1, - cos 1]"
proof -
  have c: "nh_col (nang 2 2 1) nh 5 0 = 1" "nh_col (nang 2 2 1) nh 5 (Suc 0) = 0"
    "nh_col (nang 2 2 1) nh 5 2 = sin 1" "nh_col (nang 2 2 1) nh 5 3 = cos 1"
  proof -
    have col: "nh_col (nang 2 2 1) nh 5 p = nh_bin p" if "p < 4" for p
      using assms that by (rule nh_bin_is_column)
    show "nh_col (nang 2 2 1) nh 5 0 = 1" using col [of 0] by (simp add: nh_bin_def)
    show "nh_col (nang 2 2 1) nh 5 (Suc 0) = 0" using col [of 1] by (simp add: nh_bin_def)
    show "nh_col (nang 2 2 1) nh 5 2 = sin 1" using col [of 2] by (simp add: nh_bin_def)
    show "nh_col (nang 2 2 1) nh 5 3 = cos 1" using col [of 3] by (simp add: nh_bin_def)
  qed
  show ?thesis
    using c by (simp add: nh_a_vec_def nh_a_of_sum n_a_of_def n_g_of_sum e_flat_def e_cov_flat_def)
qed

text \<open>
  Claim C3 (the code departs from it). Both polar transformations call
  \<open>Tetrad(x1, x2, x3, e_g, e_cov_g, omega_g)\<close> at the ghost point, which fills \<open>e_cov_g\<close> with
  the dual tetrad of that point and leaves \<open>e_cov_a\<close> as it was; the body of their loop over
  \<open>lm_g\<close> then contracts with \<open>e_cov_a\<close>. That array holds what the last reflecting face
  calculated before left in it, or zeros when there was none. On the block \<open>mb_north_pole\<close>
  (flat tetrad, inner \<open>x2\<close> face polar, every other face periodic) the temporaries of the
  first ghost cell are the flat tetrad in \<open>e_g\<close> and \<open>e_cov_g\<close> and zeros in \<open>e_cov_a\<close>. For
  the bin \<open>lm_g = 5\<close> (where \<open>zetav = 1\<close>, \<open>psiv = pi/2\<close>) the loop body computes the direction
  \<open>nh_a = (0, 0, 0, 0)\<close>, whose time-like component is not positive, and the entry with
  targets \<open>12, 13, 16, 17\<close> and four NaN weights; the back-conversion with the dual tetrad of
  the ghost point, \<open>e_cov_g\<close>, gives the mirrored unit direction
  \<open>(1, 0, - sin 1, - cos 1)\<close>.
\<close>

theorem polar_body_reads_unassigned_dual_tetrad:
  "e_cov_g (tetrads_polar mb (x1, x2, x3) tmp) = snd (Tetrad mb x1 x2 x3)
   \<and> e_cov_a (tetrads_polar mb (x1, x2, x3) tmp) = e_cov_a tmp
   \<and> tetrads_polar mb_north_pole (0, 0, 0) tmp_init
       = \<lparr>e_g = e_flat, e_a = zero4, e_cov_g = e_cov_flat, e_cov_a = zero4\<rparr>
   \<and> (\<exists>nh. nh_g 2 2 1 = Inr nh
        \<and> bin_entry 2 2 1 nh [2, 3] (tetrads_polar mb_north_pole (0, 0, 0) tmp_init) 5
            = Inr \<lparr>ind = [12, 13, 16, 17], frac = [None, None, None, None]\<rparr>
        \<and> map (nh_a_vec e_flat zero4 [2, 3] (nh_col (nang 2 2 1) nh 5)) [0, 1, 2, 3]
            = [0, 0, 0, 0]
        \<and> map (nh_a_vec e_flat e_cov_flat [2, 3] (nh_col (nang 2 2 1) nh 5)) [0, 1, 2, 3]
            = [1, 0, - sin 1, - cos 1])"
proof (intro conjI)
  show "e_cov_g (tetrads_polar mb (x1, x2, x3) tmp) = snd (Tetrad mb x1 x2 x3)"
    "e_cov_a (tetrads_polar mb (x1, x2, x3) tmp) = e_cov_a tmp"
    by (simp_all add: tetrads_polar_fields)
  show t: "tetrads_polar mb_north_pole (0, 0, 0) tmp_init
       = \<lparr>e_g = e_flat, e_a = zero4, e_cov_g = e_cov_flat, e_cov_a = zero4\<rparr>"
    by (simp add: tetrads_polar_def tmp_init_def mb_north_pole_def)
  obtain nh where nh: "nh_g 2 2 1 = Inr nh"
    using nh_g_ok [of 2 2 1] by auto
  have "bin_entry 2 2 1 nh [2, 3] (tetrads_polar mb_north_pole (0, 0, 0) tmp_init) 5
      = Inr (nan_entry 2 2 1)"
    by (rule bin_entry_zero4) (simp_all add: t)
  then have "bin_entry 2 2 1 nh [2, 3] (tetrads_polar mb_north_pole (0, 0, 0) tmp_init) 5
      = Inr \<lparr>ind = [12, 13, 16, 17], frac = [None, None, None, None]\<rparr>"
    by (simp only: nan_entry_2_2_1)
  moreover have "map (nh_a_vec e_flat zero4 [2, 3] (nh_col (nang 2 2 1) nh 5)) [0, 1, 2, 3]
      = [0, 0, 0, 0]"
    by simp
  ultimately show "\<exists>nh. nh_g 2 2 1 = Inr nh
        \<and> bin_entry 2 2 1 nh [2, 3] (tetrads_polar mb_north_pole (0, 0, 0) tmp_init) 5
            = Inr \<lparr>ind = [12, 13, 16, 17], frac = [None, None, None, None]\<rparr>
        \<and> map (nh_a_vec e_flat zero4 [2, 3] (nh_col (nang 2 2 1) nh 5)) [0, 1, 2, 3]
            = [0, 0, 0, 0]
        \<and> map (nh_a_vec e_flat e_cov_flat [2, 3] (nh_col (nang 2 2 1) nh 5)) [0, 1, 2, 3]
            = [1, 0, - sin 1, - cos 1]"
    using nh nh_a_flat_polar [OF nh] by (intro exI [of _ nh] conjI)
qed

end
